(* ===== verification/Prelude.thy ===== *)
theory Prelude
  imports Complex_Main
begin

text \<open>
  Shared vocabulary of the development: the result type of the kernel's fallible operations,
  the operations of JavaScript strings, arrays and plain objects that the sources use, and the
  generic lemmas on them.

  Text is modelled over ASCII: a \<open>string\<close> is a list of characters, white space is what
  \<^verbatim>\<open>String.prototype.trim\<close> strips among them, and case mapping acts on the letters
  \<^verbatim>\<open>A-Z\<close> and \<^verbatim>\<open>a-z\<close>. Instants are milliseconds since the epoch, as
  \<^verbatim>\<open>Date.getTime()\<close> gives them. A thrown error is the \<open>Inl\<close> of a result.
\<close>

named_theorems js_simps "unfoldings of the JavaScript library operations"

type_synonym ident = string
type_synonym instant = int

section \<open>Results: a thrown error or a value\<close>

type_synonym ('e, 'a) result = "'e + 'a"

definition bind_result :: "('e, 'a) result \<Rightarrow> ('a \<Rightarrow> ('e, 'b) result) \<Rightarrow> ('e, 'b) result" where
  "bind_result r f = (case r of Inl e \<Rightarrow> Inl e | Inr x \<Rightarrow> f x)"

definition throw_if :: "bool \<Rightarrow> 'e \<Rightarrow> ('e, unit) result" where
  "throw_if b e = (if b then Inl e else Inr ())"

fun map_result :: "('a \<Rightarrow> ('e, 'b) result) \<Rightarrow> 'a list \<Rightarrow> ('e, 'b list) result" where
  "map_result f [] = Inr []"
| "map_result f (x # xs) =
     bind_result (f x) (\<lambda>y. bind_result (map_result f xs) (\<lambda>ys. Inr (y # ys)))"

fun is_ok :: "('e, 'a) result \<Rightarrow> bool" where
  "is_ok (Inl e) = False"
| "is_ok (Inr x) = True"

lemma bind_result_simps [simp]:
  "bind_result (Inl e) f = Inl e"
  "bind_result (Inr x) f = f x"
  by (simp_all add: bind_result_def)

lemma bind_result_eq_Inr [simp]:
  "bind_result r f = Inr y \<longleftrightarrow> (\<exists>x. r = Inr x \<and> f x = Inr y)"
  by (cases r) auto

lemma throw_if_eq [simp]:
  "throw_if b e = Inr u \<longleftrightarrow> \<not> b"
  "throw_if b e = Inl e' \<longleftrightarrow> b \<and> e' = e"
  "throw_if True e = Inl e"
  "throw_if False e = Inr ()"
  by (auto simp: throw_if_def)

lemma map_result_Inr_length: "map_result f xs = Inr ys \<Longrightarrow> length ys = length xs"
  by (induction xs arbitrary: ys) auto

lemma map_result_Inr_set:
  "map_result f xs = Inr ys \<Longrightarrow> y \<in> set ys \<Longrightarrow> \<exists>x \<in> set xs. f x = Inr y"
  by (induction xs arbitrary: ys) auto

lemma map_result_Inr_forward:
  "map_result f xs = Inr ys \<Longrightarrow> x \<in> set xs \<Longrightarrow> \<exists>y \<in> set ys. f x = Inr y"
  by (induction xs arbitrary: ys) auto

text \<open>\<^verbatim>\<open>every\<close> and \<^verbatim>\<open>some\<close> with a callback that may throw: the first decisive element or
  the first error ends the search.\<close>

fun every_result :: "('a \<Rightarrow> ('e, bool) result) \<Rightarrow> 'a list \<Rightarrow> ('e, bool) result" where
  "every_result f [] = Inr True"
| "every_result f (x # xs) = bind_result (f x) (\<lambda>b. if b then every_result f xs else Inr False)"

fun some_result :: "('a \<Rightarrow> ('e, bool) result) \<Rightarrow> 'a list \<Rightarrow> ('e, bool) result" where
  "some_result f [] = Inr False"
| "some_result f (x # xs) = bind_result (f x) (\<lambda>b. if b then Inr True else some_result f xs)"

lemma every_result_cong [fundef_cong]:
  assumes "xs = ys" and "\<And>x. x \<in> set ys \<Longrightarrow> f x = g x"
  shows "every_result f xs = every_result g ys"
  using assms(2) unfolding assms(1) by (induction ys) (auto simp: bind_result_def split: sum.splits)

lemma some_result_cong [fundef_cong]:
  assumes "xs = ys" and "\<And>x. x \<in> set ys \<Longrightarrow> f x = g x"
  shows "some_result f xs = some_result g ys"
  using assms(2) unfolding assms(1) by (induction ys) (auto simp: bind_result_def split: sum.splits)

lemma map_result_cong [fundef_cong]:
  assumes "xs = ys" and "\<And>x. x \<in> set ys \<Longrightarrow> f x = g x"
  shows "map_result f xs = map_result g ys"
  using assms(2) unfolding assms(1) by (induction ys) (auto simp: bind_result_def split: sum.splits)

lemma every_result_ok: "(\<And>x. x \<in> set xs \<Longrightarrow> is_ok (f x)) \<Longrightarrow> is_ok (every_result f xs)"
proof (induction xs)
  case (Cons x xs)
  then have "is_ok (f x)" by simp
  then obtain b where "f x = Inr b" by (cases "f x") auto
  with Cons show ?case by simp
qed simp

lemma some_result_ok: "(\<And>x. x \<in> set xs \<Longrightarrow> is_ok (f x)) \<Longrightarrow> is_ok (some_result f xs)"
proof (induction xs)
  case (Cons x xs)
  then have "is_ok (f x)" by simp
  then obtain b where "f x = Inr b" by (cases "f x") auto
  with Cons show ?case by simp
qed simp

lemma every_result_True: "every_result f xs = Inr True \<longleftrightarrow> (\<forall>x \<in> set xs. f x = Inr True)"
  by (induction xs) (auto split: if_splits)

lemma some_result_True: "some_result f xs = Inr True \<Longrightarrow> \<exists>x \<in> set xs. f x = Inr True"
  by (induction xs) (auto split: if_splits)

lemma enumerate_snd: "p \<in> set (enumerate n xs) \<Longrightarrow> snd p \<in> set xs"
  by (metis image_eqI list.set_map map_snd_enumerate)

section \<open>Strings\<close>

definition is_space :: "char \<Rightarrow> bool" where
  "is_space c \<longleftrightarrow> (let n = (of_char c :: nat) in n = 32 \<or> (9 \<le> n \<and> n \<le> 13) \<or> n = 160)"

definition to_lower_char :: "char \<Rightarrow> char" where
  "to_lower_char c = (let n = (of_char c :: nat) in if 65 \<le> n \<and> n \<le> 90 then char_of (n + 32) else c)"

definition to_upper_char :: "char \<Rightarrow> char" where
  "to_upper_char c = (let n = (of_char c :: nat) in if 97 \<le> n \<and> n \<le> 122 then char_of (n - 32) else c)"

definition js_trim :: "string \<Rightarrow> string" where
  "js_trim s = rev (dropWhile is_space (rev (dropWhile is_space s)))"

definition js_lower :: "string \<Rightarrow> string" where
  "js_lower s = map to_lower_char s"

definition js_upper :: "string \<Rightarrow> string" where
  "js_upper s = map to_upper_char s"

fun js_starts_with :: "string \<Rightarrow> string \<Rightarrow> bool" where
  "js_starts_with s [] = True"
| "js_starts_with [] (p # ps) = False"
| "js_starts_with (c # s) (p # ps) = (c = p \<and> js_starts_with s ps)"

definition js_ends_with :: "string \<Rightarrow> string \<Rightarrow> bool" where
  "js_ends_with s p = js_starts_with (rev s) (rev p)"

fun js_includes :: "string \<Rightarrow> string \<Rightarrow> bool" where
  "js_includes [] p = (p = [])"
| "js_includes (c # s) p = (js_starts_with (c # s) p \<or> js_includes s p)"

text \<open>\<^verbatim>\<open>s.split(c)\<close> for a separator of one character: always at least one piece.\<close>

fun js_split :: "char \<Rightarrow> string \<Rightarrow> string list" where
  "js_split d [] = [[]]"
| "js_split d (c # s) =
     (if c = d then [] # js_split d s
      else (case js_split d s of [] \<Rightarrow> [[c]] | p # ps \<Rightarrow> (c # p) # ps))"

fun js_join :: "string \<Rightarrow> string list \<Rightarrow> string" where
  "js_join sep [] = []"
| "js_join sep [s] = s"
| "js_join sep (s # t # ss) = s @ sep @ js_join sep (t # ss)"

definition is_digit :: "char \<Rightarrow> bool" where
  "is_digit c \<longleftrightarrow> (let n = (of_char c :: nat) in 48 \<le> n \<and> n \<le> 57)"

definition is_lower_letter :: "char \<Rightarrow> bool" where
  "is_lower_letter c \<longleftrightarrow> (let n = (of_char c :: nat) in 97 \<le> n \<and> n \<le> 122)"

definition is_upper_letter :: "char \<Rightarrow> bool" where
  "is_upper_letter c \<longleftrightarrow> (let n = (of_char c :: nat) in 65 \<le> n \<and> n \<le> 90)"

fun digits_value :: "nat \<Rightarrow> string \<Rightarrow> nat" where
  "digits_value acc [] = acc"
| "digits_value acc (c # s) = digits_value (10 * acc + (of_char c - 48)) s"

lemmas [js_simps] =
  is_space_def to_lower_char_def to_upper_char_def js_trim_def js_lower_def js_upper_def
  js_ends_with_def is_digit_def is_lower_letter_def is_upper_letter_def

lemma js_split_not_Nil [simp]: "js_split d s \<noteq> []"
  by (induction s) (auto split: list.splits)

lemma js_starts_with_iff: "js_starts_with s p \<longleftrightarrow> (\<exists>t. s = p @ t)"
  by (induction s p rule: js_starts_with.induct) auto

lemma js_join_split: "js_join [d] (js_split d s) = s"
proof (induction s)
  case Nil
  show ?case by simp
next
  case (Cons c s)
  obtain p ps where p: "js_split d s = p # ps"
    by (cases "js_split d s") auto
  with Cons.IH show ?case by (cases ps) auto
qed

lemma js_split_no_sep: "p \<in> set (js_split d s) \<Longrightarrow> d \<notin> set p"
  by (induction s arbitrary: p) (auto split: list.splits if_splits)

lemma dropWhile_rev_stable:
  "dropWhile P (rev (dropWhile P (rev (dropWhile P s)))) = rev (dropWhile P (rev (dropWhile P s)))"
proof -
  let ?t = "dropWhile P s"
  let ?u = "rev (dropWhile P (rev ?t))"
  have pre: "\<exists>v. ?t = ?u @ v"
    by (metis rev_append rev_rev_ident takeWhile_dropWhile_id)
  show ?thesis
  proof (cases ?u)
    case Nil
    then show ?thesis by (simp only: dropWhile.simps)
  next
    case (Cons c r)
    with pre obtain v where "?t = c # (r @ v)" by auto
    then have "\<not> P c" by (metis dropWhile_eq_Cons_conv)
    with Cons show ?thesis by simp
  qed
qed

lemma js_trim_idem [simp]: "js_trim (js_trim s) = js_trim s"
  unfolding js_trim_def by (simp add: dropWhile_rev_stable dropWhile_idem)

section \<open>Arrays read as sets: \<^verbatim>\<open>[...new Set(xs)]\<close> keeps first occurrences in order\<close>

fun uniq_acc :: "'a list \<Rightarrow> 'a list \<Rightarrow> 'a list" where
  "uniq_acc seen [] = []"
| "uniq_acc seen (x # xs) = (if x \<in> set seen then uniq_acc seen xs else x # uniq_acc (x # seen) xs)"

definition js_uniq :: "'a list \<Rightarrow> 'a list" where
  "js_uniq xs = uniq_acc [] xs"

lemma set_uniq_acc: "set (uniq_acc seen xs) = set xs - set seen"
  by (induction xs arbitrary: seen) auto

lemma distinct_uniq_acc: "distinct (uniq_acc seen xs)"
  by (induction xs arbitrary: seen) (auto simp: set_uniq_acc)

lemma set_js_uniq [simp]: "set (js_uniq xs) = set xs"
  by (simp add: js_uniq_def set_uniq_acc)

lemma distinct_js_uniq [simp]: "distinct (js_uniq xs)"
  by (simp add: js_uniq_def distinct_uniq_acc)

lemma js_uniq_eq_Nil [simp]: "js_uniq xs = [] \<longleftrightarrow> xs = []"
  by (metis set_empty set_js_uniq)

section \<open>Numbers\<close>

definition is_integer :: "rat \<Rightarrow> bool" where
  "is_integer x \<longleftrightarrow> of_int \<lfloor>x\<rfloor> = x"

text \<open>
  \<^verbatim>\<open>Number(text)\<close>, with \<open>None\<close> for every result that is not finite (\<^verbatim>\<open>NaN\<close>,
  \<^verbatim>\<open>Infinity\<close>): blank text is 0; otherwise a signed decimal literal with an optional
  fraction and exponent, or an unsigned literal in base 16, 8 or 2. Values are exact rationals:
  the rounding of IEEE doubles is not modelled.
\<close>

definition digit_in_base :: "nat \<Rightarrow> char \<Rightarrow> nat option" where
  "digit_in_base base c =
     (let n = of_char (to_lower_char c);
          d = (if is_digit c then n - 48 else if 97 \<le> n \<and> n \<le> 102 then n - 87 else base)
      in if d < base then Some d else None)"

fun base_value :: "nat \<Rightarrow> nat \<Rightarrow> string \<Rightarrow> nat option" where
  "base_value base acc [] = Some acc"
| "base_value base acc (c # s) =
     (case digit_in_base base c of None \<Rightarrow> None | Some d \<Rightarrow> base_value base (acc * base + d) s)"

definition decimal_value :: "string \<Rightarrow> rat option" where
  "decimal_value s =
     (let mant = takeWhile (\<lambda>c. to_lower_char c \<noteq> CHR ''e'') s;
          expo = drop (length mant) s;
          whole = takeWhile is_digit mant;
          rest = dropWhile is_digit mant;
          frac = (case rest of [] \<Rightarrow> [] | c # cs \<Rightarrow> cs);
          negexp = js_starts_with (drop 1 expo) ''-'';
          expdigits = (if negexp \<or> js_starts_with (drop 1 expo) ''+'' then drop 2 expo else drop 1 expo);
          e = digits_value 0 expdigits;
          m = of_nat (digits_value 0 (whole @ frac)) / 10 ^ length frac
      in if (rest = [] \<or> hd rest = CHR ''.'') \<and> list_all is_digit frac \<and> whole @ frac \<noteq> []
            \<and> (expo = [] \<or> expdigits \<noteq> [] \<and> list_all is_digit expdigits)
         then Some (if negexp then m / 10 ^ e else m * 10 ^ e) else None)"

definition js_number :: "string \<Rightarrow> rat option" where
  "js_number text =
     (let s = js_trim text; p = js_lower (List.take 2 s); d = drop 2 s
      in if s = [] then Some 0
         else if p = ''0x'' then (if d = [] then None else map_option of_nat (base_value 16 0 d))
         else if p = ''0o'' then (if d = [] then None else map_option of_nat (base_value 8 0 d))
         else if p = ''0b'' then (if d = [] then None else map_option of_nat (base_value 2 0 d))
         else if js_starts_with s ''-'' then map_option uminus (decimal_value (drop 1 s))
         else if js_starts_with s ''+'' then decimal_value (drop 1 s)
         else decimal_value s)"

text \<open>Eight, four, four, four and twelve hexadecimal digits, in either case.\<close>

definition is_hex :: "char \<Rightarrow> bool" where
  "is_hex c \<longleftrightarrow> digit_in_base 16 c \<noteq> None"

definition is_uuid :: "string \<Rightarrow> bool" where
  "is_uuid s \<longleftrightarrow> map length (js_split CHR ''-'' s) = [8, 4, 4, 4, 12] \<and> list_all (\<lambda>c. c = CHR ''-'' \<or> is_hex c) s"

text \<open>\<^verbatim>\<open>Number.isSafeInteger\<close>.\<close>

definition is_safe_integer :: "rat \<Rightarrow> bool" where
  "is_safe_integer x \<longleftrightarrow> is_integer x \<and> \<bar>x\<bar> \<le> 9007199254740991"

section \<open>Tables: a list of rows keyed by an identifier\<close>

text \<open>
  A database table is the list of its rows. \<open>find_row\<close> is \<^verbatim>\<open>findUnique\<close> on the key,
  \<open>update_rows\<close> is \<^verbatim>\<open>updateMany\<close> with a condition, and the number of rows the
  condition selects is its \<^verbatim>\<open>count\<close>.
\<close>

definition find_row :: "('r \<Rightarrow> 'k) \<Rightarrow> 'k \<Rightarrow> 'r list \<Rightarrow> 'r option" where
  "find_row key k rows = find (\<lambda>r. key r = k) rows"

definition update_rows :: "('r \<Rightarrow> bool) \<Rightarrow> ('r \<Rightarrow> 'r) \<Rightarrow> 'r list \<Rightarrow> 'r list" where
  "update_rows P f rows = map (\<lambda>r. if P r then f r else r) rows"

definition count_rows :: "('r \<Rightarrow> bool) \<Rightarrow> 'r list \<Rightarrow> nat" where
  "count_rows P rows = length (filter P rows)"

definition unique_key :: "('r \<Rightarrow> 'k) \<Rightarrow> 'r list \<Rightarrow> bool" where
  "unique_key key rows \<longleftrightarrow> distinct (map key rows)"

lemma find_row_Some: "find_row key k rows = Some r \<Longrightarrow> r \<in> set rows \<and> key r = k"
  by (auto simp: find_row_def find_Some_iff)

lemma find_row_None: "find_row key k rows = None \<longleftrightarrow> k \<notin> key ` set rows"
  by (auto simp: find_row_def find_None_iff)

lemma find_row_unique:
  "unique_key key rows \<Longrightarrow> r \<in> set rows \<Longrightarrow> key r = k \<Longrightarrow> find_row key k rows = Some r"
  by (induction rows) (auto simp: find_row_def unique_key_def)

lemma find_row_update:
  assumes "\<And>r. key (f r) = key r"
  shows "find_row key k (update_rows P f rows) =
    map_option (\<lambda>r. if P r then f r else r) (find_row key k rows)"
  using assms by (induction rows) (auto simp: find_row_def update_rows_def)

lemma set_update_rows: "set (update_rows P f rows) = (\<lambda>r. if P r then f r else r) ` set rows"
  by (simp add: update_rows_def)

lemma update_rows_mem:
  "r \<in> set (update_rows P f rows) \<Longrightarrow> \<exists>q \<in> set rows. r = (if P q then f q else q)"
  unfolding set_update_rows by (erule imageE) (rule bexI)

lemma bex_update_rows:
  "(\<exists>r \<in> set (update_rows P f rows). Q r) \<longleftrightarrow> (\<exists>r \<in> set rows. Q (if P r then f r else r))"
  by (induction rows) (auto simp: update_rows_def)

lemma key_image_update_rows:
  "(\<And>r. key (f r) = key r) \<Longrightarrow> key ` set (update_rows P f rows) = key ` set rows"
  by (induction rows) (auto simp: update_rows_def)

lemma unique_key_update:
  "(\<And>r. key (f r) = key r) \<Longrightarrow> unique_key key (update_rows P f rows) = unique_key key rows"
  by (simp add: unique_key_def update_rows_def comp_def if_distrib cong: if_cong)

lemma unique_key_Nil [simp]: "unique_key key []"
  by (simp add: unique_key_def)

lemma unique_key_Cons [simp]:
  "unique_key key (r # rows) \<longleftrightarrow> key r \<notin> key ` set rows \<and> unique_key key rows"
  by (simp add: unique_key_def)

lemma unique_key_snoc [simp]:
  "unique_key key (rows @ [r]) \<longleftrightarrow> key r \<notin> key ` set rows \<and> unique_key key rows"
  by (auto simp: unique_key_def)

lemma unique_key_inj: "unique_key key rows \<Longrightarrow> r \<in> set rows \<Longrightarrow> s \<in> set rows \<Longrightarrow> key r = key s \<Longrightarrow> r = s"
  by (auto simp: unique_key_def distinct_map inj_on_def)

lemma unique_key_bex:
  "unique_key key rows \<Longrightarrow> b \<in> set rows \<Longrightarrow> (\<exists>r \<in> set rows. key r = key b \<and> Q r) \<longleftrightarrow> Q b"
  by (blast dest: unique_key_inj)

lemma unique_key_filter: "unique_key key rows \<Longrightarrow> unique_key key (filter P rows)"
  by (simp add: unique_key_def distinct_map_filter)

lemma count_rows_unique_key:
  assumes "unique_key key rows"
  shows "count_rows (\<lambda>r. key r = k \<and> Q r) rows
    = (case find_row key k rows of None \<Rightarrow> 0 | Some r \<Rightarrow> if Q r then 1 else 0)"
  using assms
proof (induction rows)
  case Nil
  show ?case by (simp add: count_rows_def find_row_def)
next
  case (Cons r rows)
  show ?case
  proof (cases "key r = k")
    case True
    with Cons.prems have "\<forall>r' \<in> set rows. key r' \<noteq> k" by (auto simp: image_iff)
    then have "filter (\<lambda>r. key r = k \<and> Q r) rows = []" by (simp add: filter_empty_conv)
    with True show ?thesis by (simp add: count_rows_def find_row_def)
  next
    case False
    with Cons show ?thesis by (simp add: count_rows_def find_row_def)
  qed
qed

section \<open>Invariants of a step relation\<close>

text \<open>
  What every stateful component shows of its operations: each step keeps the component's invariant.
  The interface gives that every state reached by a sequence of steps has it, and that a relation
  between the ends of single steps that is reflexive and transitive on good states holds between the
  ends of a run.
\<close>

locale step_system =
  fixes step :: "'s \<Rightarrow> 's \<Rightarrow> bool"
    and inv :: "'s \<Rightarrow> bool"
    and mono :: "'s \<Rightarrow> 's \<Rightarrow> bool"
  assumes inv_step: "inv s \<Longrightarrow> step s t \<Longrightarrow> inv t"
    and mono_step: "inv s \<Longrightarrow> step s t \<Longrightarrow> mono s t"
    and mono_refl: "mono s s"
    and mono_trans: "mono s t \<Longrightarrow> mono t u \<Longrightarrow> mono s u"
begin

lemma run_inv: "step\<^sup>*\<^sup>* s t \<Longrightarrow> inv s \<Longrightarrow> inv t"
  by (induction rule: rtranclp_induct) (auto intro: inv_step)

lemma run_mono: "step\<^sup>*\<^sup>* s t \<Longrightarrow> inv s \<Longrightarrow> mono s t"
proof (induction rule: rtranclp_induct)
  case base
  show ?case by (rule mono_refl)
next
  case (step t u)
  from step.prems step.hyps(1) have "inv t" by (rule run_inv [rotated])
  with step show ?case by (blast intro: mono_step mono_trans)
qed

end

end
