(* ===== verification/Rate_Limit.thy ===== *)
theory Rate_Limit
  imports Prelude
begin

text \<open>
  The token-bucket rate limiter of \<^verbatim>\<open>packages/server/src/rate-limit.ts\<close>: one bucket per
  caller identity in an insertion-ordered map, refilled lazily at each request, and evicted when
  the map grows past ten thousand identities. Token counts are exact rationals where the source has
  doubles; the waiting time a refused caller is told, which rounding can make fall short, is modelled but nothing is claimed
  of it.
\<close>

section \<open>Model\<close>

record rate_limit_options =
  enabled :: bool
  burst :: int
  refillPerMinute :: int

type_synonym process_env = "string \<Rightarrow> string option"

definition env_number :: "process_env \<Rightarrow> string \<Rightarrow> rat \<Rightarrow> rat option" where
  "env_number env name fallback = (case env name of None \<Rightarrow> Some fallback | Some text \<Rightarrow> js_number text)"

definition getRateLimitOptions :: "process_env \<Rightarrow> rate_limit_options" where
  "getRateLimitOptions env =
     \<lparr> enabled = env ''RATE_LIMIT_ENABLED'' \<noteq> Some ''false'',
       burst = (case env_number env ''RATE_LIMIT_BURST'' 300 of
                  Some n \<Rightarrow> if n > 0 then \<lfloor>n\<rfloor> else 300 | None \<Rightarrow> 300),
       refillPerMinute = (case env_number env ''RATE_LIMIT_REFILL_PER_MINUTE'' 120 of
                  Some n \<Rightarrow> if n \<ge> 0 then \<lfloor>n\<rfloor> else 120 | None \<Rightarrow> 120) \<rparr>"

record bucket =
  tokens :: rat
  updatedAt :: instant

type_synonym buckets = "(string \<times> bucket) list"

record rate_limit_decision =
  allowed :: bool
  remaining :: int
  retryAfterSeconds :: int

definition put_bucket :: "string \<Rightarrow> bucket \<Rightarrow> buckets \<Rightarrow> buckets" where
  "put_bucket key b bs =
     (if key \<in> fst ` set bs then map (\<lambda>(k, v). (k, if k = key then b else v)) bs
      else bs @ [(key, b)])"

definition evictStale :: "instant \<Rightarrow> buckets \<Rightarrow> buckets" where
  "evictStale now bs =
     (if length bs < 10000 then bs
      else filter (\<lambda>(k, b). \<not> updatedAt b < now - 2 * 60000) bs)"

definition refilled :: "rate_limit_options \<Rightarrow> bucket \<Rightarrow> instant \<Rightarrow> rat" where
  "refilled opts b now =
     min (of_int (burst opts))
         (tokens b + of_int (max 0 (now - updatedAt b)) / 60000 * of_int (refillPerMinute opts))"

definition take_token ::
  "rate_limit_options \<Rightarrow> buckets \<Rightarrow> string \<Rightarrow> rat \<Rightarrow> instant \<Rightarrow> rate_limit_decision \<times> buckets" where
  "take_token opts bs key cost now =
     (let b = (case map_of bs key of Some b \<Rightarrow> b
               | None \<Rightarrow> \<lparr>tokens = of_int (burst opts), updatedAt = now\<rparr>);
          available = refilled opts b now;
          b1 = \<lparr>tokens = available, updatedAt = now\<rparr>
      in if available < cost then
           (\<lparr>allowed = False, remaining = 0,
             retryAfterSeconds =
               (if refillPerMinute opts > 0
                then \<lceil>((cost - available) / of_int (refillPerMinute opts)) * 60\<rceil> else 60)\<rparr>,
            put_bucket key b1 bs)
         else
           (\<lparr>allowed = True, remaining = \<lfloor>available - cost\<rfloor>, retryAfterSeconds = 0\<rparr>,
            evictStale now (put_bucket key (b1\<lparr>tokens := available - cost\<rparr>) bs)))"

section \<open>The level of an identity: the abstraction every decision depends on\<close>

definition level :: "rate_limit_options \<Rightarrow> buckets \<Rightarrow> string \<Rightarrow> instant \<Rightarrow> rat" where
  "level opts bs key now =
     (case map_of bs key of None \<Rightarrow> of_int (burst opts) | Some b \<Rightarrow> refilled opts b now)"

definition limiter_ok :: "rate_limit_options \<Rightarrow> buckets \<Rightarrow> instant \<Rightarrow> bool" where
  "limiter_ok opts bs now \<longleftrightarrow>
     0 \<le> refillPerMinute opts \<and> distinct (map fst bs) \<and>
     list_all (\<lambda>(k, b). updatedAt b \<le> now \<and> 0 \<le> tokens b \<and> tokens b \<le> of_int (burst opts)) bs"

lemma map_of_put_bucket: "map_of (put_bucket key b bs) = (map_of bs)(key \<mapsto> b)"
proof (cases "key \<in> fst ` set bs")
  case True
  have "map_of (map (\<lambda>(k, v). (k, if k = key then b else v)) bs) k =
        (if k \<in> fst ` set bs \<and> k = key then Some b else map_of bs k)" for k
    by (induction bs) force+
  with True show ?thesis by (auto simp: put_bucket_def fun_eq_iff)
next
  case False
  then have "map_of bs key = None" by (simp add: map_of_eq_None_iff)
  with False show ?thesis by (auto simp: put_bucket_def map_add_def split: option.splits)
qed

lemma keys_put_bucket: "map fst (put_bucket key b bs) =
    (if key \<in> fst ` set bs then map fst bs else map fst bs @ [key])"
  by (auto simp: put_bucket_def)

lemma set_put_bucket: "set (put_bucket key b bs) \<subseteq> insert (key, b) (set bs)"
  by (auto simp: put_bucket_def split: if_splits)

lemma limiter_ok_lookup:
  "limiter_ok opts bs now \<Longrightarrow> map_of bs key = Some b \<Longrightarrow>
   updatedAt b \<le> now \<and> 0 \<le> tokens b \<and> tokens b \<le> of_int (burst opts)"
  by (auto simp: limiter_ok_def list_all_iff dest: map_of_SomeD)

lemma refilled_bounds:
  assumes "0 \<le> refillPerMinute opts" "0 \<le> tokens b" "0 \<le> burst opts"
  shows "0 \<le> refilled opts b now \<and> refilled opts b now \<le> of_int (burst opts)"
  using assms by (simp add: refilled_def)

lemma limiter_ok_put:
  assumes "limiter_ok opts bs now" "now \<le> updatedAt b" "updatedAt b \<le> now"
    "0 \<le> tokens b" "tokens b \<le> of_int (burst opts)"
  shows "limiter_ok opts (put_bucket key b bs) now"
  using assms set_put_bucket [of key b bs]
  by (fastforce simp: limiter_ok_def list_all_iff keys_put_bucket)

lemma limiter_ok_evict: "limiter_ok opts bs now \<Longrightarrow> limiter_ok opts (evictStale now bs) now"
  by (auto simp: limiter_ok_def evictStale_def list_all_iff distinct_map_filter)

lemma limiter_ok_later: "limiter_ok opts bs now \<Longrightarrow> now \<le> t \<Longrightarrow> limiter_ok opts bs t"
  by (fastforce simp: limiter_ok_def list_all_iff)

lemma map_of_filter_distinct:
  "distinct (map fst bs) \<Longrightarrow>
   map_of (filter P bs) k = (case map_of bs k of None \<Rightarrow> None | Some b \<Rightarrow> if P (k, b) then Some b else None)"
proof (induction bs)
  case Nil
  show ?case by simp
next
  case (Cons x bs)
  obtain a v where x: "x = (a, v)" by (cases x)
  show ?case
  proof (cases "k = a")
    case True
    with Cons.prems x have "map_of bs k = None" by (simp add: map_of_eq_None_iff)
    with Cons x True show ?thesis by auto
  next
    case False
    with Cons x show ?thesis by (auto split: option.splits)
  qed
qed

lemma map_of_evictStale:
  assumes "distinct (map fst bs)"
  shows "map_of (evictStale now bs) k =
    (case map_of bs k of None \<Rightarrow> None
     | Some b \<Rightarrow> if length bs < 10000 \<or> \<not> updatedAt b < now - 120000 then Some b else None)"
  using assms by (auto simp: evictStale_def map_of_filter_distinct split: option.splits)

lemma min_min_add: "(0 :: rat) \<le> y \<Longrightarrow> min c (min c x + y) = min c (x + y)"
  by (auto simp: min_def)

lemma refilled_again:
  assumes "0 \<le> refillPerMinute opts" "updatedAt b \<le> now" "now \<le> t"
  shows "refilled opts \<lparr>tokens = refilled opts b now, updatedAt = now\<rparr> t = refilled opts b t"
proof -
  let ?r = "of_int (refillPerMinute opts) :: rat"
  let ?x = "of_int (now - updatedAt b) / 60000 * ?r"
  let ?y = "of_int (t - now) / 60000 * ?r"
  from assms have y: "0 \<le> ?y" by simp
  have sum: "of_int (t - updatedAt b) / 60000 * ?r = ?x + ?y"
    by (simp add: field_simps)
  have "refilled opts b t = min (of_int (burst opts)) (tokens b + of_int (t - updatedAt b) / 60000 * ?r)"
    using assms by (simp add: refilled_def max_def)
  then have "refilled opts b t = min (of_int (burst opts)) (tokens b + ?x + ?y)"
    by (simp only: sum add.assoc)
  moreover have "refilled opts \<lparr>tokens = refilled opts b now, updatedAt = now\<rparr> t
      = min (of_int (burst opts)) (min (of_int (burst opts)) (tokens b + ?x) + ?y)"
    using assms by (simp add: refilled_def max_def)
  ultimately show ?thesis using min_min_add [OF y] by simp
qed

lemma level_take_same:
  assumes "limiter_ok opts bs now" "now \<le> t" "take_token opts bs key cost now = (d, bs')"
  shows "level opts bs' key t =
    min (of_int (burst opts))
      (level opts bs key now - (if allowed d then cost else 0)
       + of_int (t - now) / 60000 * of_int (refillPerMinute opts))"
proof -
  have dist: "distinct (map fst (put_bucket key b bs))" for b
    using assms(1) by (simp add: limiter_ok_def keys_put_bucket)
  have new: "refilled opts \<lparr>tokens = of_int (burst opts), updatedAt = now\<rparr> now = of_int (burst opts)"
    by (simp add: refilled_def)
  show ?thesis using assms(2,3)
    by (auto simp: take_token_def Let_def level_def map_of_put_bucket map_of_evictStale [OF dist]
        refilled_def new split: if_splits option.splits)
qed

lemma level_evict:
  assumes ok: "limiter_ok opts bs now" and "now \<le> t" "burst opts \<le> 2 * refillPerMinute opts"
  shows "level opts (evictStale now bs) k t = level opts bs k t"
proof (cases "map_of bs k")
  case None
  with ok show ?thesis by (simp add: level_def limiter_ok_def map_of_evictStale)
next
  case (Some b)
  show ?thesis
  proof (cases "updatedAt b < now - 120000")
    case True
    let ?r = "of_int (refillPerMinute opts) :: rat"
    from True assms(2) have "(120000 :: rat) \<le> of_int (t - updatedAt b)" by linarith
    moreover have "0 \<le> ?r" using ok by (simp add: limiter_ok_def)
    ultimately have "120000 / 60000 * ?r \<le> of_int (t - updatedAt b) / 60000 * ?r"
      by (intro mult_right_mono divide_right_mono) auto
    moreover have "of_int (burst opts) \<le> 2 * ?r" using assms(3) by linarith
    moreover have "0 \<le> tokens b" using limiter_ok_lookup [OF ok Some] by simp
    ultimately have "refilled opts b t = of_int (burst opts)"
      using True assms(2) by (simp add: refilled_def)
    with Some ok show ?thesis by (simp add: level_def limiter_ok_def map_of_evictStale)
  next
    case False
    with Some ok show ?thesis by (simp add: level_def limiter_ok_def map_of_evictStale)
  qed
qed

lemma level_take_other:
  assumes "limiter_ok opts bs now" "now \<le> t" "k \<noteq> key" "0 \<le> cost" "0 \<le> burst opts"
    "burst opts \<le> 2 * refillPerMinute opts" "take_token opts bs key cost now = (d, bs')"
  shows "level opts bs' k t = level opts bs k t"
proof -
  have put: "level opts (put_bucket key b bs) k t = level opts bs k t" for b
    using assms(3) by (simp add: level_def map_of_put_bucket)
  let ?b0 = "case map_of bs key of Some b \<Rightarrow> b | None \<Rightarrow> \<lparr>tokens = of_int (burst opts), updatedAt = now\<rparr>"
  have b0: "0 \<le> tokens ?b0 \<and> tokens ?b0 \<le> of_int (burst opts)"
    using limiter_ok_lookup [OF assms(1)] assms(5) by (auto split: option.splits)
  have "0 \<le> refillPerMinute opts" using assms(1) by (simp add: limiter_ok_def)
  with b0 assms(5) have r: "0 \<le> refilled opts ?b0 now \<and> refilled opts ?b0 now \<le> of_int (burst opts)"
    by (intro refilled_bounds) auto
  show ?thesis
  proof (cases "refilled opts ?b0 now < cost")
    case True
    with assms(7) put show ?thesis by (auto simp: take_token_def Let_def)
  next
    case False
    let ?b1 = "\<lparr>tokens = refilled opts ?b0 now - cost, updatedAt = now\<rparr>"
    have "limiter_ok opts (put_bucket key ?b1 bs) now"
      using False r assms(4) by (intro limiter_ok_put [OF assms(1)]) auto
    from level_evict [OF this assms(2,6)] put False assms(7)
    show ?thesis by (auto simp: take_token_def Let_def)
  qed
qed

lemma take_token_ok:
  assumes "limiter_ok opts bs now" "0 \<le> cost" "0 \<le> burst opts"
    "take_token opts bs key cost now = (d, bs')"
  shows "limiter_ok opts bs' now"
proof -
  let ?b0 = "case map_of bs key of Some b \<Rightarrow> b | None \<Rightarrow> \<lparr>tokens = of_int (burst opts), updatedAt = now\<rparr>"
  have b0: "0 \<le> tokens ?b0 \<and> tokens ?b0 \<le> of_int (burst opts)"
    using limiter_ok_lookup [OF assms(1)] assms(3) by (auto split: option.splits)
  have "0 \<le> refillPerMinute opts" using assms(1) by (simp add: limiter_ok_def)
  with b0 assms(3) have r: "0 \<le> refilled opts ?b0 now \<and> refilled opts ?b0 now \<le> of_int (burst opts)"
    by (intro refilled_bounds) auto
  show ?thesis using assms(4) r assms(2)
    by (auto simp: take_token_def Let_def split: if_splits
        intro!: limiter_ok_put [OF assms(1)] limiter_ok_evict)
qed

lemma take_token_allowed:
  "take_token opts bs key cost now = (d, bs') \<Longrightarrow> allowed d \<longleftrightarrow> cost \<le> level opts bs key now"
  by (auto simp: take_token_def Let_def level_def refilled_def split: if_splits option.splits)

section \<open>A meter: what a limiter promises about a run of requests\<close>

type_synonym 'k requests = "('k \<times> rat \<times> instant) list"

text \<open>Serving requests in order; the result lists what was granted, to whom.\<close>

fun serve ::
  "('s \<Rightarrow> 'k \<Rightarrow> rat \<Rightarrow> instant \<Rightarrow> bool \<times> 's) \<Rightarrow> 's \<Rightarrow> 'k requests \<Rightarrow> ('k \<times> rat) list \<times> 's" where
  "serve tk s [] = ([], s)"
| "serve tk s ((k, cost, now) # reqs) =
     (let (ok, s') = tk s k cost now; (grants, s'') = serve tk s' reqs
      in ((if ok then (k, cost) # grants else grants), s''))"

definition granted :: "'k \<Rightarrow> ('k \<times> rat) list \<Rightarrow> rat" where
  "granted k gs = sum_list (map snd (filter (\<lambda>(k', c). k' = k) gs))"

fun arrivals_ok :: "instant \<Rightarrow> instant \<Rightarrow> 'k requests \<Rightarrow> bool" where
  "arrivals_ok since until [] = (since \<le> until)"
| "arrivals_ok since until ((k, cost, now) # reqs) =
     (since \<le> now \<and> 0 \<le> cost \<and> arrivals_ok now until reqs)"

locale meter =
  fixes rate :: rat
    and lvl :: "'s \<Rightarrow> 'k \<Rightarrow> instant \<Rightarrow> rat"
    and tk :: "'s \<Rightarrow> 'k \<Rightarrow> rat \<Rightarrow> instant \<Rightarrow> bool \<times> 's"
    and inv :: "'s \<Rightarrow> instant \<Rightarrow> bool"
  assumes inv_tk: "inv s now \<Longrightarrow> 0 \<le> cost \<Longrightarrow> tk s k cost now = (ok, s') \<Longrightarrow> inv s' now"
    and inv_later: "inv s now \<Longrightarrow> now \<le> t \<Longrightarrow> inv s t"
    and lvl_nonneg: "inv s now \<Longrightarrow> 0 \<le> lvl s k now"
    and lvl_grow: "inv s now \<Longrightarrow> now \<le> t \<Longrightarrow> lvl s k t \<le> lvl s k now + of_int (t - now) * rate"
    and lvl_tk: "inv s now \<Longrightarrow> 0 \<le> cost \<Longrightarrow> tk s k cost now = (ok, s') \<Longrightarrow>
      lvl s' k' now \<le> lvl s k' now - (if ok \<and> k' = k then cost else 0)"
begin

lemma serve_potential:
  "inv s t0 \<Longrightarrow> arrivals_ok t0 t1 reqs \<Longrightarrow> serve tk s reqs = (gs, s') \<Longrightarrow>
   inv s' t1 \<and> granted k gs + lvl s' k t1 \<le> lvl s k t0 + of_int (t1 - t0) * rate"
proof (induction reqs arbitrary: s t0 gs)
  case Nil
  then show ?case using inv_later [of s t0 t1] lvl_grow [of s t0 t1 k] by (simp add: granted_def)
next
  case (Cons r reqs)
  obtain k1 c n where r: "r = (k1, c, n)" by (cases r)
  obtain ok s1 where tk: "tk s k1 c n = (ok, s1)" by (cases "tk s k1 c n")
  obtain gs1 where rest: "serve tk s1 reqs = (gs1, s')"
    and gs: "gs = (if ok then (k1, c) # gs1 else gs1)"
    using Cons.prems(3) r tk by (auto split: prod.splits)
  have arr: "t0 \<le> n" "0 \<le> c" "arrivals_ok n t1 reqs" using Cons.prems(2) r by auto
  have n: "inv s n" using Cons.prems(1) arr(1) by (rule inv_later)
  have s1: "inv s1 n" using n arr(2) tk by (rule inv_tk)
  have IH: "inv s' t1 \<and> granted k gs1 + lvl s' k t1 \<le> lvl s1 k n + of_int (t1 - n) * rate"
    by (rule Cons.IH [OF s1 arr(3) rest])
  have step: "lvl s1 k n \<le> lvl s k n - (if ok \<and> k = k1 then c else 0)"
    by (rule lvl_tk [OF n arr(2) tk])
  have grow: "lvl s k n \<le> lvl s k t0 + of_int (n - t0) * rate"
    by (rule lvl_grow [OF Cons.prems(1) arr(1)])
  have "granted k gs = granted k gs1 + (if ok \<and> k = k1 then c else 0)"
    by (simp add: gs granted_def)
  moreover have "of_int (n - t0) * rate + of_int (t1 - n) * rate = of_int (t1 - t0) * rate"
    by (simp add: algebra_simps)
  ultimately show ?case using IH step grow by linarith
qed

lemma granted_bound:
  assumes "inv s t0" "arrivals_ok t0 t1 reqs" "serve tk s reqs = (gs, s')"
  shows "granted k gs \<le> lvl s k t0 + of_int (t1 - t0) * rate"
  using serve_potential [OF assms, of k] lvl_nonneg [of s' t1 k] by simp

end

text \<open>
  The limiter is a meter for every configuration whose bucket refills within the two minutes after
  which an idle bucket may be evicted.
\<close>

definition take_bool ::
  "rate_limit_options \<Rightarrow> buckets \<Rightarrow> string \<Rightarrow> rat \<Rightarrow> instant \<Rightarrow> bool \<times> buckets" where
  "take_bool opts bs key cost now = (let (d, bs') = take_token opts bs key cost now in (allowed d, bs'))"

definition meter_ok :: "rate_limit_options \<Rightarrow> buckets \<Rightarrow> instant \<Rightarrow> bool" where
  "meter_ok opts bs now \<longleftrightarrow>
     limiter_ok opts bs now \<and> 0 \<le> burst opts \<and> burst opts \<le> 2 * refillPerMinute opts"

lemma level_nonneg:
  assumes "limiter_ok opts bs now" "0 \<le> burst opts"
  shows "0 \<le> level opts bs k t"
proof (cases "map_of bs k")
  case None
  with assms(2) show ?thesis by (simp add: level_def)
next
  case (Some b)
  with limiter_ok_lookup [OF assms(1)] assms refilled_bounds [of opts b t] show ?thesis
    by (simp add: level_def limiter_ok_def)
qed

lemma refilled_grow:
  assumes "0 \<le> refillPerMinute opts" "updatedAt b \<le> now" "now \<le> t"
  shows "refilled opts b t \<le> refilled opts b now + of_int (t - now) / 60000 * of_int (refillPerMinute opts)"
proof -
  have "0 \<le> (of_int (t - now) / 60000 * of_int (refillPerMinute opts) :: rat)" using assms by simp
  moreover have "refilled opts b t =
      refilled opts \<lparr>tokens = refilled opts b now, updatedAt = now\<rparr> t"
    by (rule refilled_again [OF assms, symmetric])
  ultimately show ?thesis using assms(3) by (simp add: refilled_def max_def)
qed

interpretation rl: meter "of_int (refillPerMinute opts) / 60000" "level opts" "take_bool opts" "meter_ok opts"
  for opts
proof unfold_locales
  fix s now t k k' cost ok s'
  assume ok: "meter_ok opts s now"
  then have lim: "limiter_ok opts s now" and b: "0 \<le> burst opts" "burst opts \<le> 2 * refillPerMinute opts"
    by (auto simp: meter_ok_def)
  show "0 \<le> level opts s k now" by (rule level_nonneg [OF lim b(1)])
  show "now \<le> t \<Longrightarrow> meter_ok opts s t"
    using limiter_ok_later [OF lim] b by (simp add: meter_ok_def)
  show "now \<le> t \<Longrightarrow>
      level opts s k t \<le> level opts s k now + of_int (t - now) * (of_int (refillPerMinute opts) / 60000)"
    using lim limiter_ok_lookup [OF lim, of k] refilled_grow [of opts _ now t]
    by (auto simp: level_def limiter_ok_def split: option.splits)
  assume cost: "0 \<le> cost" and tk: "take_bool opts s k cost now = (ok, s')"
  obtain d where d: "take_token opts s k cost now = (d, s')" and ok: "ok = allowed d"
    using tk by (auto simp: take_bool_def split: prod.splits)
  show "meter_ok opts s' now"
    using take_token_ok [OF lim cost b(1) d] b by (simp add: meter_ok_def)
  show "level opts s' k' now \<le> level opts s k' now - (if ok \<and> k' = k then cost else 0)"
    using level_take_same [OF lim order_refl d] level_take_other [OF lim order_refl _ cost b d, of k'] ok
    by (cases "k' = k") auto
qed

section \<open>Properties\<close>

text \<open>
  C20: over any run of requests in time order, what the limiter grants one identity never exceeds
  a full bucket plus the refill of the elapsed time, whatever the other identities do and whenever
  idle buckets are evicted, provided a bucket refills in at most two minutes.
\<close>

theorem rate_limit_bound:
  assumes "0 \<le> burst opts" "burst opts \<le> 2 * refillPerMinute opts"
    and "arrivals_ok t0 t1 reqs" "serve (take_bool opts) [] reqs = (gs, bs')"
  shows "granted key gs \<le> of_int (burst opts) + of_int (t1 - t0) * (of_int (refillPerMinute opts) / 60000)"
proof -
  have "meter_ok opts [] t0" using assms(1,2) by (simp add: meter_ok_def limiter_ok_def)
  from rl.granted_bound [OF this assms(3,4)] show ?thesis by (simp add: level_def)
qed

theorem rate_limit_bound_witness:
  "granted ''a'' [(''a'', 2), (''b'', 1)] \<le> of_int 2 + of_int (60000 - 0) * (of_int 1 / 60000)"
proof -
  let ?o = "\<lparr>enabled = True, burst = 2, refillPerMinute = 1\<rparr>"
  let ?reqs = "[(''a'', 2, 0), (''a'', 1, 30000), (''b'', 1, 60000)] :: string requests"
  have "serve (take_bool ?o) [] ?reqs = ([(''a'', 2), (''b'', 1)], snd (serve (take_bool ?o) [] ?reqs))"
    by (simp add: take_bool_def take_token_def refilled_def put_bucket_def evictStale_def Let_def)
  from rate_limit_bound [OF _ _ _ this, of 0 60000 "''a''"] show ?thesis by simp
qed

lemma take_token_decision:
  "fst (take_token opts bs key cost now) =
     (let l = level opts bs key now
      in if l < cost then
           \<lparr>allowed = False, remaining = 0,
             retryAfterSeconds = (if refillPerMinute opts > 0
               then \<lceil>((cost - l) / of_int (refillPerMinute opts)) * 60\<rceil> else 60)\<rparr>
         else \<lparr>allowed = True, remaining = \<lfloor>l - cost\<rfloor>, retryAfterSeconds = 0\<rparr>)"
  by (auto simp: take_token_def Let_def level_def refilled_def split: option.splits)

text \<open>
  When a bucket refills within two minutes, evicting idle buckets changes no later decision:
  every request, from any identity, is answered as if nothing had been evicted.
\<close>

lemma eviction_unobservable:
  assumes "limiter_ok opts bs now" "now \<le> t" "burst opts \<le> 2 * refillPerMinute opts"
  shows "fst (take_token opts (evictStale now bs) key cost t) = fst (take_token opts bs key cost t)"
  by (simp add: take_token_decision level_evict [OF assms])

definition crowd :: "instant \<Rightarrow> buckets" where
  "crowd t = map (\<lambda>n. (replicate n CHR ''x'', \<lparr>tokens = 0, updatedAt = t\<rparr>)) [0..<10000]"

lemma crowd_keys: "distinct (map fst (crowd t))"
  by (auto simp: crowd_def comp_def distinct_map inj_on_def dest: replicate_eq_replicate [THEN iffD1])

lemma crowd_lookup: "n < 10000 \<Longrightarrow> map_of (crowd t) (replicate n CHR ''x'') = Some \<lparr>tokens = 0, updatedAt = t\<rparr>"
  by (rule map_of_is_SomeI [OF crowd_keys]) (force simp: crowd_def)

lemma crowd_ok: "t \<le> now \<Longrightarrow> 0 \<le> burst opts \<Longrightarrow> 0 \<le> refillPerMinute opts \<Longrightarrow> limiter_ok opts (crowd t) now"
  using crowd_keys [of t] by (auto simp: limiter_ok_def list_all_iff crowd_def)

text \<open>
  In the default configuration (a bucket of 300 refilled by 120 a minute) a bucket needs two and
  a half minutes to refill, so eviction is observable: there is a state in which a request that must
  be refused is allowed once idle buckets have been evicted.
\<close>

lemma default_eviction_grants_early:
  "\<exists>bs key. limiter_ok (getRateLimitOptions (\<lambda>_. None)) bs 120001
     \<and> \<not> allowed (fst (take_token (getRateLimitOptions (\<lambda>_. None)) bs key 300 120001))
     \<and> allowed (fst (take_token (getRateLimitOptions (\<lambda>_. None)) (evictStale 120001 bs) key 300 120001))"
proof (intro exI conjI)
  let ?o = "getRateLimitOptions (\<lambda>_. None)"
  have o: "burst ?o = 300" "refillPerMinute ?o = 120"
    by (simp_all add: getRateLimitOptions_def env_number_def)
  have look: "map_of (crowd 0) [] = Some \<lparr>tokens = 0, updatedAt = 0\<rparr>"
    using crowd_lookup [of 0 0] by simp
  show "limiter_ok ?o (crowd 0) 120001" using o by (simp add: crowd_ok)
  show "\<not> allowed (fst (take_token ?o (crowd 0) [] 300 120001))"
    using o look by (simp add: take_token_decision level_def refilled_def)
  have "length (crowd 0) = 10000" by (simp add: crowd_def)
  then have "map_of (evictStale 120001 (crowd 0)) [] = None"
    using look by (simp add: map_of_evictStale [OF crowd_keys])
  then show "allowed (fst (take_token ?o (evictStale 120001 (crowd 0)) [] 300 120001))"
    using o by (simp add: take_token_decision level_def)
qed

end
