(* ===== verification/Kernel_Data.thy ===== *)
theory Kernel_Data
  imports Prelude
begin

text \<open>
  The rows the kernel's services read and write (\<^verbatim>\<open>packages/server/src/work-service.ts\<close> and
  the enumerations of the Prisma client it uses): work items, typed links, workflow states, people
  and agents, audits, and the write actor every operation is attributed to. A database is the record of
  its tables; an operation is a function from a database to an error or a result with the next
  database, as one serialised transaction would leave it. Row identifiers the database would draw
  are arguments of the operations that insert rows.

  Not modelled: notification and outbox rows, comment threads other than the notes named below, the
  columns no modelled operation reads, and whether a reopened item had been closed by the
  Auto-Accept Gate.
\<close>

section \<open>Enumerations\<close>

datatype work_kind = ISSUE | PROJECT | MILESTONE | DECISION | EPIC

datatype commitment_status = CANDIDATE | COMMITTED | REJECTED

datatype state_type = BACKLOG | UNSTARTED | STARTED | REVIEW | COMPLETED | CANCELED

datatype actor_kind = HUMAN | AGENT | SERVICE

datatype link_type =
  CONTAINS | BLOCKS | DERIVED_FROM | DISCOVERED_DURING | RELATED_TO | DUPLICATE_OF | REGRESSED_BY

datatype work_resolution =
  RCompleted | WONT_DO | INVALID | DUPLICATE | CANNOT_REPRODUCE | OBSOLETE

text \<open>
  An error carries the name of the message constant of \<^verbatim>\<open>errors.ts\<close> it is thrown with, or
  the literal message where the source spells it in place.
\<close>

datatype kernel_error =
    ValidationError string
  | NotFoundError string
  | RecordNotFound string \<comment> \<open>\<^verbatim>\<open>findUniqueOrThrow\<close> on a missing row\<close>

section \<open>Rows\<close>

record issue =
  issueId :: ident
  issueIdentifier :: string
  title :: string
  kind :: work_kind
  teamId :: ident
  stateId :: ident
  assigneeId :: "ident option"
  parentId :: "ident option"
  priority :: int
  commitmentStatus :: commitment_status
  revision :: int
  acceptance :: "string option"
  repository :: "string option"
  resolution :: "work_resolution option"
  supersededById :: "ident option"
  reopenCount :: int

record work_link =
  linkId :: ident
  linkType :: link_type
  fromId :: ident
  toId :: ident
  linkActorId :: "ident option"

record workflow_state =
  wsId :: ident
  wsType :: state_type
  wsTeamId :: ident
  position :: int

record write_actor =
  actorId :: "ident option"
  actorKind :: actor_kind
  reason :: "string option"
  surface :: "string option"

record work_audit =
  auditActorId :: "ident option"
  auditActorKind :: actor_kind
  auditBefore :: "issue option"
  auditAfter :: issue
  auditReason :: "string option"
  auditRevision :: int
  auditSurface :: "string option"
  auditWorkId :: ident

record work_note =
  noteWorkId :: ident
  noteAuthorId :: ident
  noteBody :: string

record work_reopen =
  reopenWorkId :: ident
  fromStateType :: state_type
  toStateType :: state_type

record graph_db =
  issues :: "issue list"
  links :: "work_link list"
  states :: "workflow_state list"
  audits :: "work_audit list"
  reopens :: "work_reopen list"
  workNotes :: "work_note list"

definition INTERNAL_WRITE_ACTOR :: write_actor where
  "INTERNAL_WRITE_ACTOR = \<lparr>actorId = None, actorKind = SERVICE, reason = None, surface = Some ''internal''\<rparr>"

definition find_issue :: "'z graph_db_scheme \<Rightarrow> ident \<Rightarrow> issue option" where
  "find_issue db i = find_row issueId i (issues db)"

definition find_state :: "'z graph_db_scheme \<Rightarrow> ident \<Rightarrow> workflow_state option" where
  "find_state db i = find_row wsId i (states db)"

text \<open>An optional text or identifier is truthy when it is present and not empty.\<close>

definition truthy :: "string option \<Rightarrow> bool" where
  "truthy v \<longleftrightarrow> (case v of None \<Rightarrow> False | Some s \<Rightarrow> s \<noteq> [])"

definition is_terminal_type :: "state_type \<Rightarrow> bool" where
  "is_terminal_type t \<longleftrightarrow> t = COMPLETED \<or> t = CANCELED"

definition update_issue :: "ident \<Rightarrow> (issue \<Rightarrow> issue) \<Rightarrow> 'z graph_db_scheme \<Rightarrow> 'z graph_db_scheme" where
  "update_issue i f db = db\<lparr>issues := update_rows (\<lambda>r. issueId r = i) f (issues db)\<rparr>"

text \<open>A move out of a terminal state into an open one is a reopen.\<close>

definition isReopen :: "state_type \<Rightarrow> state_type \<Rightarrow> bool" where
  "isReopen from to \<longleftrightarrow> is_terminal_type from \<and> \<not> is_terminal_type to"

definition recordReopenIfAny ::
  "ident \<Rightarrow> ident \<Rightarrow> ident \<Rightarrow> 'z graph_db_scheme \<Rightarrow> 'z graph_db_scheme" where
  "recordReopenIfAny workId fromStateId toStateId db =
     (case (find_state db fromStateId, find_state db toStateId) of
        (Some f, Some t) \<Rightarrow>
          if isReopen (wsType f) (wsType t) then
            update_issue workId (\<lambda>r. r\<lparr>reopenCount := reopenCount r + 1\<rparr>)
              (db\<lparr>reopens := reopens db @
                 [\<lparr>reopenWorkId = workId, fromStateType = wsType f, toStateType = wsType t\<rparr>]\<rparr>)
          else db
      | _ \<Rightarrow> db)"

text \<open>
  The audit row of a change, attributed to the actor (or to the internal one); a change of state
  out of a terminal one is counted as a reopen here.
\<close>

definition recordWorkAudit ::
  "write_actor option \<Rightarrow> issue option \<Rightarrow> issue \<Rightarrow> ident \<Rightarrow> 'z graph_db_scheme \<Rightarrow> 'z graph_db_scheme" where
  "recordWorkAudit act before after workId db =
     (let actor = (case act of None \<Rightarrow> INTERNAL_WRITE_ACTOR | Some a \<Rightarrow> a);
          db1 = db\<lparr>audits := audits db @
           [\<lparr>auditActorId = actorId actor, auditActorKind = actorKind actor,
             auditBefore = before, auditAfter = after, auditReason = reason actor,
             auditRevision = revision after, auditSurface = surface actor, auditWorkId = workId\<rparr>]\<rparr>
      in case before of
           Some b \<Rightarrow> if stateId b \<noteq> stateId after
                     then recordReopenIfAny workId (stateId b) (stateId after) db1 else db1
         | None \<Rightarrow> db1)"

section \<open>Lemmas\<close>

lemma find_issue_update:
  "(\<And>r. issueId (f r) = issueId r) \<Longrightarrow>
   find_issue (update_issue i f db) j = map_option (\<lambda>r. if issueId r = i then f r else r) (find_issue db j)"
  by (simp add: find_issue_def update_issue_def find_row_update)

lemma find_issue_id: "find_issue db i = Some r \<Longrightarrow> issueId r = i \<and> r \<in> set (issues db)"
  by (auto simp: find_issue_def dest: find_row_Some)

lemma update_issue_simps [simp]:
  "links (update_issue i f db) = links db"
  "states (update_issue i f db) = states db"
  "audits (update_issue i f db) = audits db"
  "reopens (update_issue i f db) = reopens db"
  "workNotes (update_issue i f db) = workNotes db"
  by (simp_all add: update_issue_def)

lemma recordReopenIfAny_simps [simp]:
  "links (recordReopenIfAny w f t db) = links db"
  "states (recordReopenIfAny w f t db) = states db"
  "audits (recordReopenIfAny w f t db) = audits db"
  "workNotes (recordReopenIfAny w f t db) = workNotes db"
  by (auto simp: recordReopenIfAny_def split: option.splits)

lemma recordWorkAudit_simps [simp]:
  "links (recordWorkAudit act b a w db) = links db"
  "states (recordWorkAudit act b a w db) = states db"
  "workNotes (recordWorkAudit act b a w db) = workNotes db"
  by (simp_all add: recordWorkAudit_def Let_def split: option.splits)

lemma recordWorkAudit_same_state [simp]:
  "stateId b = stateId a \<Longrightarrow> issues (recordWorkAudit act (Some b) a w db) = issues db"
  "stateId b = stateId a \<Longrightarrow> find_issue (recordWorkAudit act (Some b) a w db) i = find_issue db i"
  by (simp_all add: recordWorkAudit_def Let_def find_issue_def)

end
