(* ===== verification/Work_Graph.thy ===== *)
theory Work_Graph
  imports Kernel_Data
begin

text \<open>
  The typed work graph: \<^verbatim>\<open>packages/server/src/graph-integrity.ts\<close> (which items may contain
  which) and \<^verbatim>\<open>packages/server/src/link-service.ts\<close> (creating, deleting and synchronising
  links, with the breadth-first cycle check). The hierarchy is stored twice, as CONTAINS links and as
  each item's \<^verbatim>\<open>parentId\<close>; the invariant \<open>graph_ok\<close> says when the two agree.
\<close>

section \<open>Which items may contain which\<close>

fun LEGAL_CONTAINS :: "work_kind \<Rightarrow> work_kind list" where
  "LEGAL_CONTAINS PROJECT = [MILESTONE, DECISION, EPIC, ISSUE]"
| "LEGAL_CONTAINS MILESTONE = [EPIC, ISSUE]"
| "LEGAL_CONTAINS EPIC = [ISSUE]"
| "LEGAL_CONTAINS ISSUE = [ISSUE]"
| "LEGAL_CONTAINS DECISION = []"

definition isLegalContains :: "work_kind \<Rightarrow> work_kind \<Rightarrow> bool" where
  "isLegalContains parentKind childKind \<longleftrightarrow> childKind \<in> set (LEGAL_CONTAINS parentKind)"

definition blank :: "string option \<Rightarrow> bool" where
  "blank v \<longleftrightarrow> (case v of None \<Rightarrow> True | Some s \<Rightarrow> js_trim s = [])"

definition untrimmed :: "string option \<Rightarrow> bool" where
  "untrimmed v \<longleftrightarrow> (case v of None \<Rightarrow> False | Some s \<Rightarrow> s \<noteq> js_trim s)"

definition assertContainsEndpoints :: "issue \<Rightarrow> issue \<Rightarrow> (kernel_error, unit) result" where
  "assertContainsEndpoints parent child =
     (if teamId parent \<noteq> teamId child then Inl (ValidationError ''WORK_LINK_TEAM_MISMATCH_MESSAGE'')
      else if blank (repository parent) \<or> blank (repository child)
      then Inl (ValidationError ''CONTAINS_REPOSITORY_REQUIRED_MESSAGE'')
      else if untrimmed (repository parent) \<or> untrimmed (repository child)
      then Inl (ValidationError ''CONTAINS_REPOSITORY_WHITESPACE_MESSAGE'')
      else if repository parent \<noteq> repository child
      then Inl (ValidationError ''CONTAINS_CROSS_REPOSITORY_MESSAGE'')
      else if \<not> isLegalContains (kind parent) (kind child)
      then Inl (ValidationError ''CONTAINS_KINDS_MESSAGE'')
      else Inr ())"

fun check_all :: "('a \<Rightarrow> ('e, unit) result) \<Rightarrow> 'a list \<Rightarrow> ('e, unit) result" where
  "check_all f [] = Inr ()"
| "check_all f (x # xs) = bind_result (f x) (\<lambda>_. check_all f xs)"

definition assertNodeHierarchy :: "graph_db \<Rightarrow> issue \<Rightarrow> bool \<Rightarrow> (kernel_error, unit) result" where
  "assertNodeHierarchy db node replacingParent =
     (let incoming = (if replacingParent then []
            else filter (\<lambda>l. linkType l = CONTAINS \<and> toId l = issueId node) (links db));
          parents = js_uniq (map fromId incoming @
            (if truthy (parentId node) then [the (parentId node)] else []))
      in if length parents > 1 then Inl (ValidationError ''CONTAINS_MULTIPLE_PARENTS_MESSAGE'')
         else bind_result
           (check_all (\<lambda>i. case find_issue db i of
                None \<Rightarrow> Inl (ValidationError ''HIERARCHY_PARENT_MISSING_MESSAGE'')
              | Some parent \<Rightarrow> assertContainsEndpoints parent node) parents)
           (\<lambda>_. let outgoing = filter (\<lambda>l. linkType l = CONTAINS \<and> fromId l = issueId node) (links db);
                    children = filter (\<lambda>r. parentId r = Some (issueId node)
                       \<or> issueId r \<in> set (map toId outgoing)) (issues db)
                in check_all (assertContainsEndpoints node) children))"

section \<open>Reachability\<close>

definition outgoingNeighborIds :: "graph_db \<Rightarrow> link_type \<Rightarrow> ident \<Rightarrow> ident list" where
  "outgoingNeighborIds db type i =
     js_uniq (map toId (filter (\<lambda>l. fromId l = i \<and> linkType l = type) (links db)) @
       (if type = CONTAINS then map issueId (filter (\<lambda>r. parentId r = Some i) (issues db)) else []))"

text \<open>Every identifier an edge can start from: the bound that makes the search loops end.\<close>

definition edge_sources :: "graph_db \<Rightarrow> ident set" where
  "edge_sources db = set (map fromId (links db)) \<union> set (List.map_filter parentId (issues db))"

lemma finite_edge_sources [simp]: "finite (edge_sources db)"
  by (simp add: edge_sources_def)

lemma outgoing_outside [simp]: "i \<notin> edge_sources db \<Longrightarrow> outgoingNeighborIds db type i = []"
  by (force simp: outgoingNeighborIds_def edge_sources_def filter_empty_conv List.map_filter_def)

lemma outgoing_fresh_measure:
  assumes "current \<notin> set visited"
    and "\<not> card (edge_sources db - insert current (set visited)) < card (edge_sources db - set visited)"
  shows "current \<notin> edge_sources db"
proof
  assume "current \<in> edge_sources db"
  with assms(1) have "edge_sources db - insert current (set visited) \<subset> edge_sources db - set visited"
    by auto
  then have "card (edge_sources db - insert current (set visited)) < card (edge_sources db - set visited)"
    by (intro psubset_card_mono) auto
  with assms(2) show False by simp
qed

text \<open>The loop of \<^verbatim>\<open>canReach\<close>: \<open>visited\<close> and the queue, one iteration per call.\<close>

function canReach_loop :: "graph_db \<Rightarrow> link_type \<Rightarrow> ident \<Rightarrow> ident list \<Rightarrow> ident list \<Rightarrow> bool" where
  "canReach_loop db type target visited [] = False"
| "canReach_loop db type target visited (current # queue) =
     (if current = [] \<or> current \<in> set visited then canReach_loop db type target visited queue
      else if current = target then True
      else canReach_loop db type target (current # visited)
             (queue @ filter (\<lambda>n. n \<notin> set (current # visited)) (outgoingNeighborIds db type current)))"
  by pat_completeness auto
termination
  by (relation "measures [\<lambda>(db, type, target, visited, queue). card (edge_sources db - set visited),
    \<lambda>(db, type, target, visited, queue). length queue]")
    (auto dest: outgoing_fresh_measure)

definition canReach :: "graph_db \<Rightarrow> link_type \<Rightarrow> ident \<Rightarrow> ident \<Rightarrow> bool" where
  "canReach db type startId targetId = canReach_loop db type targetId [] [startId]"

definition assertNoWorkLinkCycle ::
  "graph_db \<Rightarrow> link_type \<Rightarrow> ident \<Rightarrow> ident \<Rightarrow> (kernel_error, unit) result" where
  "assertNoWorkLinkCycle db type from to =
     (if canReach db type to from then Inl (ValidationError ''WORK_LINK_CYCLE_MESSAGE'') else Inr ())"

definition contains_children :: "graph_db \<Rightarrow> ident \<Rightarrow> ident list" where
  "contains_children db i =
     (let outgoing = filter (\<lambda>l. linkType l = CONTAINS \<and> fromId l = i) (links db)
      in map issueId (filter (\<lambda>r. parentId r = Some i \<or> issueId r \<in> set (map toId outgoing)) (issues db)))"

text \<open>The inner loop of \<^verbatim>\<open>getContainsDescendantIds\<close>: children not seen yet are both
  recorded and queued.\<close>

fun mark_new :: "ident \<Rightarrow> ident list \<Rightarrow> ident list \<Rightarrow> ident list \<Rightarrow> ident list \<times> ident list" where
  "mark_new rootId visited queue [] = (visited, queue)"
| "mark_new rootId visited queue (c # cs) =
     (if c \<notin> set visited \<and> c \<noteq> rootId then mark_new rootId (visited @ [c]) (queue @ [c]) cs
      else mark_new rootId visited queue cs)"

lemma mark_new_card:
  "mark_new rootId visited queue cs = (v, q) \<Longrightarrow> finite U \<Longrightarrow> set cs \<subseteq> U \<Longrightarrow>
   card (U - set v) + length q = card (U - set visited) + length queue"
proof (induction rootId visited queue cs rule: mark_new.induct)
  case (1 rootId visited queue)
  then show ?case by simp
next
  case (2 rootId visited queue c cs)
  show ?case
  proof (cases "c \<notin> set visited \<and> c \<noteq> rootId")
    case True
    then have eq: "U - set (visited @ [c]) = (U - set visited) - {c}" by auto
    have "c \<in> U - set visited" using True "2.prems"(3) by auto
    then have "card ((U - set visited) - {c}) + 1 = card (U - set visited)"
      using "2.prems"(2) by (metis add.commute card_Suc_Diff1 finite_Diff plus_1_eq_Suc)
    then have card: "card (U - set (visited @ [c])) + 1 = card (U - set visited)" by (simp only: eq)
    have "card (U - set v) + length q = card (U - set (visited @ [c])) + length (queue @ [c])"
      by (rule "2.IH"(1)) (use True "2.prems" in auto)
    with card show ?thesis by simp
  next
    case False
    then have "card (U - set v) + length q = card (U - set visited) + length queue"
      by (intro "2.IH"(2)) (use "2.prems" in auto)
    then show ?thesis by simp
  qed
qed

lemma mark_new_children:
  "mark_new rootId visited queue (contains_children db current) = (v, q) \<Longrightarrow>
   card (issueId ` set (issues db) - set v) + length q =
   card (issueId ` set (issues db) - set visited) + length queue"
  by (rule mark_new_card) (auto simp: contains_children_def Let_def)

function descendants_loop :: "graph_db \<Rightarrow> ident \<Rightarrow> ident list \<Rightarrow> ident list \<Rightarrow> ident list" where
  "descendants_loop db rootId visited [] = visited"
| "descendants_loop db rootId visited (current # queue) =
     (let (visited', queue') = mark_new rootId visited queue (contains_children db current)
      in descendants_loop db rootId visited' queue')"
  by pat_completeness auto
termination
  by (relation "measure (\<lambda>(db, rootId, visited, queue).
    card (issueId ` set (issues db) - set visited) + length queue)")
    (auto split: prod.split dest: mark_new_children)

definition getContainsDescendantIds :: "graph_db \<Rightarrow> ident \<Rightarrow> ident list" where
  "getContainsDescendantIds db rootId = descendants_loop db rootId [] [rootId]"

section \<open>Writing links\<close>

fun link_type_name :: "link_type \<Rightarrow> string" where
  "link_type_name CONTAINS = ''CONTAINS''"
| "link_type_name BLOCKS = ''BLOCKS''"
| "link_type_name DERIVED_FROM = ''DERIVED_FROM''"
| "link_type_name DISCOVERED_DURING = ''DISCOVERED_DURING''"
| "link_type_name RELATED_TO = ''RELATED_TO''"
| "link_type_name DUPLICATE_OF = ''DUPLICATE_OF''"
| "link_type_name REGRESSED_BY = ''REGRESSED_BY''"

definition CYCLE_CHECKED_LINK_TYPES :: "link_type list" where
  "CYCLE_CHECKED_LINK_TYPES = [CONTAINS, BLOCKS]"

definition projectParent ::
  "issue \<Rightarrow> ident option \<Rightarrow> write_actor option \<Rightarrow> graph_db \<Rightarrow> graph_db" where
  "projectParent before p act db =
     (let after = before\<lparr>parentId := p, revision := revision before + 1\<rparr>
      in recordWorkAudit act (Some before) after (issueId before)
           (update_issue (issueId before) (\<lambda>r. r\<lparr>parentId := p, revision := revision r + 1\<rparr>) db))"

record link_input =
  inActor :: "write_actor option"
  inFrom :: ident
  inTo :: ident
  inType :: link_type

definition same_edge :: "ident \<Rightarrow> ident \<Rightarrow> link_type \<Rightarrow> work_link \<Rightarrow> bool" where
  "same_edge f t type l \<longleftrightarrow> fromId l = f \<and> toId l = t \<and> linkType l = type"

definition contains_guard :: "graph_db \<Rightarrow> issue \<Rightarrow> issue \<Rightarrow> (kernel_error, unit) result" where
  "contains_guard db fromIssue toIssue =
     bind_result (assertContainsEndpoints fromIssue toIssue) (\<lambda>_.
       throw_if ((\<exists>l \<in> set (links db). toId l = issueId toIssue \<and> linkType l = CONTAINS
                    \<and> fromId l \<noteq> issueId fromIssue)
                 \<or> truthy (parentId toIssue) \<and> parentId toIssue \<noteq> Some (issueId fromIssue))
         (ValidationError ''CONTAINS cannot replace an existing parent; use an explicit parent update.''))"

text \<open>Inserting a new edge: the row, the parent projection, and the removal of the unspecific
  RELATED_TO links it supersedes.\<close>

definition insert_link :: "graph_db \<Rightarrow> link_input \<Rightarrow> issue \<Rightarrow> ident \<Rightarrow> work_link \<times> graph_db" where
  "insert_link db inp toIssue newId =
     (let f = inFrom inp; t = inTo inp; type = inType inp;
          actor = (case inActor inp of None \<Rightarrow> INTERNAL_WRITE_ACTOR | Some a \<Rightarrow> a);
          created = \<lparr>linkId = newId, linkType = type, fromId = f, toId = t, linkActorId = actorId actor\<rparr>;
          db1 = db\<lparr>links := links db @ [created]\<rparr>;
          db2 = (if type = CONTAINS then projectParent toIssue (Some f) (Some actor) db1 else db1);
          db3 = (if type \<noteq> RELATED_TO
                 then db2\<lparr>links := filter (\<lambda>l. \<not> (linkType l = RELATED_TO \<and>
                       (fromId l = f \<and> toId l = t \<or> fromId l = t \<and> toId l = f))) (links db2)\<rparr>
                 else db2)
      in (created, db3))"

definition createWorkLinkDetailed ::
  "graph_db \<Rightarrow> link_input \<Rightarrow> ident \<Rightarrow> (kernel_error, (bool \<times> work_link) \<times> graph_db) result" where
  "createWorkLinkDetailed db inp newId =
     (let f = inFrom inp; t = inTo inp; type = inType inp
      in if f = t then Inl (ValidationError ''WORK_LINK_SELF_REFERENCE_MESSAGE'')
         else case (find_issue db f, find_issue db t) of
           (Some fromIssue, Some toIssue) \<Rightarrow>
             bind_result (throw_if (type = BLOCKS \<and>
                 (truthy (supersededById fromIssue) \<or> truthy (supersededById toIssue)))
               (ValidationError ''Use the replacement work for new blocking dependencies.'')) (\<lambda>_.
             bind_result (throw_if (teamId fromIssue \<noteq> teamId toIssue)
               (ValidationError ''WORK_LINK_TEAM_MISMATCH_MESSAGE'')) (\<lambda>_.
             bind_result (if type \<in> set CYCLE_CHECKED_LINK_TYPES
               then assertNoWorkLinkCycle db type f t else Inr ()) (\<lambda>_.
             bind_result (if type = CONTAINS then contains_guard db fromIssue toIssue else Inr ()) (\<lambda>_.
             (case find (same_edge f t type) (links db) of
                Some existing \<Rightarrow>
                  Inr ((False, existing),
                    if type = CONTAINS \<and> parentId toIssue \<noteq> Some f
                    then projectParent toIssue (Some f) (inActor inp) db else db)
              | None \<Rightarrow>
                  let r = insert_link db inp toIssue newId in Inr ((True, fst r), snd r))))))
         | _ \<Rightarrow> Inl (NotFoundError ''WORK_LINK_ENDPOINT_NOT_FOUND_MESSAGE''))"

definition createWorkLink ::
  "graph_db \<Rightarrow> link_input \<Rightarrow> ident \<Rightarrow> (kernel_error, work_link \<times> graph_db) result" where
  "createWorkLink db inp newId =
     bind_result (createWorkLinkDetailed db inp newId) (\<lambda>((c, l), db'). Inr (l, db'))"

definition postDuplicateNote :: "ident \<Rightarrow> ident option \<Rightarrow> string \<Rightarrow> graph_db \<Rightarrow> graph_db" where
  "postDuplicateNote workId author body db =
     (if \<not> truthy author then db
      else case find_issue db workId of None \<Rightarrow> db
        | Some w \<Rightarrow> db\<lparr>workNotes := workNotes db @
            [\<lparr>noteWorkId = issueId w, noteAuthorId = the author, noteBody = body\<rparr>]\<rparr>)"

definition removal_reason :: "work_link \<Rightarrow> string" where
  "removal_reason l = ''Removed '' @ link_type_name (linkType l) @ '' link '' @ linkId l @ '': '' @
     fromId l @ '' -> '' @ toId l"

definition duplicate_removed_note :: "bool \<Rightarrow> string \<Rightarrow> string" where
  "duplicate_removed_note wasClosed original =
     (if wasClosed then ''No longer marked as a duplicate of '' @ original @
        ''. Removing the link does not reopen this item; reopen it if it is a separate problem.''
      else ''No longer marked as a duplicate of '' @ original @ ''.'')"

definition deleteWorkLink ::
  "graph_db \<Rightarrow> ident \<Rightarrow> write_actor option \<Rightarrow> (kernel_error, (ident \<times> string option) \<times> graph_db) result" where
  "deleteWorkLink db i act =
     (case find_row linkId i (links db) of
        None \<Rightarrow> Inl (NotFoundError ''WORK_LINK_NOT_FOUND_MESSAGE'')
      | Some existing \<Rightarrow>
          let db1 = db\<lparr>links := filter (\<lambda>l. linkId l \<noteq> i) (links db)\<rparr>
          in if linkType existing = CONTAINS then
               Inr ((i, None),
                 (case find_issue db1 (toId existing) of None \<Rightarrow> db1
                  | Some child \<Rightarrow> projectParent child
                      (if parentId child = Some (fromId existing) then None else parentId child) act db1))
             else case find_issue db1 (fromId existing) of
               None \<Rightarrow> Inl (RecordNotFound ''Issue'')
             | Some before \<Rightarrow>
                 let after = before\<lparr>revision := revision before + 1\<rparr>;
                     actor = (case act of None \<Rightarrow> INTERNAL_WRITE_ACTOR | Some a \<Rightarrow> a);
                     db2 = recordWorkAudit (Some (actor\<lparr>reason := Some (removal_reason existing)\<rparr>))
                       (Some before) after (issueId before)
                       (update_issue (issueId before) (\<lambda>r. r\<lparr>revision := revision r + 1\<rparr>) db1)
                 in if linkType existing = DUPLICATE_OF then
                      case (find_state db2 (stateId before), find_issue db2 (toId existing)) of
                        (Some st, Some original) \<Rightarrow>
                          let wasClosed = (commitmentStatus before = REJECTED \<or> is_terminal_type (wsType st));
                              body = duplicate_removed_note wasClosed (issueIdentifier original)
                          in Inr ((i, Some body),
                               postDuplicateNote (fromId existing)
                                 (case act of None \<Rightarrow> None | Some a \<Rightarrow> actorId a) body db2)
                      | _ \<Rightarrow> Inl (RecordNotFound ''Issue'')
                    else Inr ((i, None), db2))"

definition listIncidentLinks :: "graph_db \<Rightarrow> ident \<Rightarrow> link_type option \<Rightarrow> work_link list" where
  "listIncidentLinks db workId type =
     filter (\<lambda>l. (type = None \<or> type = Some (linkType l)) \<and> (fromId l = workId \<or> toId l = workId)) (links db)"


section \<open>The edge relation and the search\<close>

definition edges :: "graph_db \<Rightarrow> link_type \<Rightarrow> (ident \<times> ident) set" where
  "edges db type = {(a, b). b \<in> set (outgoingNeighborIds db type a)}"

lemma edges_iff:
  "(a, b) \<in> edges db type \<longleftrightarrow>
     (\<exists>l \<in> set (links db). same_edge a b type l)
     \<or> type = CONTAINS \<and> (\<exists>r \<in> set (issues db). issueId r = b \<and> parentId r = Some a)"
  by (auto simp: edges_def outgoingNeighborIds_def same_edge_def)

lemma canReach_loop_sound:
  "canReach_loop db type target visited queue \<Longrightarrow> \<exists>s \<in> set queue. (s, target) \<in> (edges db type)\<^sup>*"
proof (induction db type target visited queue rule: canReach_loop.induct)
  case (1 db type target visited)
  then show ?case by simp
next
  case (2 db type target visited current queue)
  let ?next = "filter (\<lambda>n. n \<notin> set (current # visited)) (outgoingNeighborIds db type current)"
  consider "current = [] \<or> current \<in> set visited" | "current = target"
    | "\<not> (current = [] \<or> current \<in> set visited)" "current \<noteq> target" by blast
  then show ?case
  proof cases
    case 1
    with "2.IH"(1) "2.prems" show ?thesis by auto
  next
    case 2
    then show ?thesis by auto
  next
    case 3
    with "2.IH"(2) "2.prems" obtain s where s: "s \<in> set (queue @ ?next)" "(s, target) \<in> (edges db type)\<^sup>*"
      by auto
    show ?thesis
    proof (cases "s \<in> set queue")
      case True
      with s show ?thesis by auto
    next
      case False
      with s have "(current, s) \<in> edges db type" by (auto simp: edges_def)
      with s(2) show ?thesis by (auto intro: converse_rtrancl_into_rtrancl)
    qed
  qed
qed

text \<open>When the loop answers no, what it has visited together with what the queue leads to is a set
  closed under edges that misses the target.\<close>

lemma canReach_loop_complete:
  assumes "[] \<notin> Range (edges db type)"
  shows "\<not> canReach_loop db type target visited queue \<Longrightarrow>
    edges db type `` set visited \<subseteq> set visited \<union> set queue \<Longrightarrow> target \<notin> set visited \<Longrightarrow>
    \<exists>V. set visited \<union> (set queue - {[]}) \<subseteq> V \<and> edges db type `` V \<subseteq> V \<and> target \<notin> V"
  using assms
proof (induction db type target visited queue rule: canReach_loop.induct)
  case (1 db type target visited)
  then show ?case by (intro exI [of _ "set visited"]) auto
next
  case (2 db type target visited current queue)
  let ?next = "filter (\<lambda>n. n \<notin> set (current # visited)) (outgoingNeighborIds db type current)"
  note nonempty = "2.prems"(4)
  show ?case
  proof (cases "current = [] \<or> current \<in> set visited")
    case True
    moreover have "edges db type `` set visited \<subseteq> set visited \<union> set queue"
      using "2.prems"(2) True nonempty by auto
    ultimately obtain V where "set visited \<union> (set queue - {[]}) \<subseteq> V" "edges db type `` V \<subseteq> V" "target \<notin> V"
      using "2.IH"(1) "2.prems" by auto
    with True show ?thesis by (intro exI [of _ V]) auto
  next
    case False
    with "2.prems"(1) have ne: "current \<noteq> target" by auto
    have rest: "\<not> canReach_loop db type target (current # visited) (queue @ ?next)"
      using "2.prems"(1) False ne by simp
    have closed: "edges db type `` set (current # visited) \<subseteq> set (current # visited) \<union> set (queue @ ?next)"
      using "2.prems"(2) by (auto simp: edges_def)
    obtain V where "set (current # visited) \<union> (set (queue @ ?next) - {[]}) \<subseteq> V"
      "edges db type `` V \<subseteq> V" "target \<notin> V"
      using "2.IH"(2) [OF False ne rest closed] "2.prems"(3,4) ne by auto
    then show ?thesis by (intro exI [of _ V]) auto
  qed
qed

lemma canReach_iff:
  assumes "[] \<notin> Range (edges db type)" "startId \<noteq> []"
  shows "canReach db type startId targetId \<longleftrightarrow> (startId, targetId) \<in> (edges db type)\<^sup>*"
proof
  show "canReach db type startId targetId \<Longrightarrow> (startId, targetId) \<in> (edges db type)\<^sup>*"
    using canReach_loop_sound [of db type targetId "[]" "[startId]"] by (simp add: canReach_def)
next
  assume path: "(startId, targetId) \<in> (edges db type)\<^sup>*"
  show "canReach db type startId targetId"
  proof (rule ccontr)
    assume "\<not> canReach db type startId targetId"
    then obtain V where V: "startId \<in> V" "edges db type `` V \<subseteq> V" "targetId \<notin> V"
      using canReach_loop_complete [OF assms(1), of targetId "[]" "[startId]"] assms(2)
      by (auto simp: canReach_def)
    have "targetId \<in> V" using path V(1,2) by (induction rule: rtrancl_induct) auto
    with V(3) show False by simp
  qed
qed

section \<open>The graph invariant\<close>

definition legal_edge :: "graph_db \<Rightarrow> ident \<times> ident \<Rightarrow> bool" where
  "legal_edge db = (\<lambda>(a, b). \<exists>p c. find_issue db a = Some p \<and> find_issue db b = Some c
     \<and> assertContainsEndpoints p c = Inr ())"

definition edge_key :: "work_link \<Rightarrow> ident \<times> ident \<times> link_type" where
  "edge_key l = (fromId l, toId l, linkType l)"

definition graph_ok :: "graph_db \<Rightarrow> bool" where
  "graph_ok db \<longleftrightarrow>
     unique_key issueId (issues db) \<and> unique_key linkId (links db) \<and> unique_key edge_key (links db)
     \<and> (\<forall>r \<in> set (issues db). issueId r \<noteq> [])
     \<and> (\<forall>l \<in> set (links db). fromId l \<in> issueId ` set (issues db) \<and> toId l \<in> issueId ` set (issues db))
     \<and> (\<forall>l \<in> set (links db). linkType l = CONTAINS \<longrightarrow>
          (\<exists>c. find_issue db (toId l) = Some c \<and> parentId c = Some (fromId l)))
     \<and> (\<forall>e \<in> edges db CONTAINS. legal_edge db e)
     \<and> acyclic (edges db CONTAINS) \<and> acyclic (edges db BLOCKS)"

lemma graph_okD:
  assumes "graph_ok db"
  shows "unique_key issueId (issues db)" "unique_key linkId (links db)" "unique_key edge_key (links db)"
    "r \<in> set (issues db) \<Longrightarrow> issueId r \<noteq> []"
    "l \<in> set (links db) \<Longrightarrow> fromId l \<in> issueId ` set (issues db) \<and> toId l \<in> issueId ` set (issues db)"
    "l \<in> set (links db) \<Longrightarrow> linkType l = CONTAINS \<Longrightarrow>
       \<exists>c. find_issue db (toId l) = Some c \<and> parentId c = Some (fromId l)"
    "e \<in> edges db CONTAINS \<Longrightarrow> legal_edge db e"
    "acyclic (edges db CONTAINS)" "acyclic (edges db BLOCKS)"
  using assms by (auto simp: graph_ok_def)

lemma graph_ok_acyclic: "graph_ok db \<Longrightarrow> type \<in> set CYCLE_CHECKED_LINK_TYPES \<Longrightarrow> acyclic (edges db type)"
  by (auto simp: graph_ok_def CYCLE_CHECKED_LINK_TYPES_def)

lemma graph_ok_nonempty:
  assumes "graph_ok db"
  shows "[] \<notin> Range (edges db type)"
proof
  assume "[] \<in> Range (edges db type)"
  then obtain a where "(a, []) \<in> edges db type" by auto
  then consider l where "l \<in> set (links db)" "toId l = []" | r where "r \<in> set (issues db)" "issueId r = []"
    by (auto simp: edges_iff same_edge_def)
  then show False
    by cases (use graph_okD(4,5) [OF assms] in \<open>metis imageE\<close>)+
qed

lemma find_issue_unique:
  "unique_key issueId (issues db) \<Longrightarrow> r \<in> set (issues db) \<Longrightarrow> find_issue db (issueId r) = Some r"
  by (auto simp: find_issue_def intro: find_row_unique)

text \<open>An item has one parent: both representations of the hierarchy name the same one.\<close>

lemma graph_ok_single_parent:
  assumes "graph_ok db" "(a, c) \<in> edges db CONTAINS" "(b, c) \<in> edges db CONTAINS"
  shows "a = b"
proof -
  have "\<exists>r. find_issue db c = Some r \<and> parentId r = Some x" if "(x, c) \<in> edges db CONTAINS" for x
    using that graph_okD(1,6) [OF assms(1)] find_issue_unique [of db]
    by (fastforce simp: edges_iff same_edge_def)
  from this [OF assms(2)] this [OF assms(3)] show ?thesis by auto
qed

lemma assertContainsEndpoints_cong:
  "teamId p = teamId p' \<Longrightarrow> repository p = repository p' \<Longrightarrow> kind p = kind p' \<Longrightarrow>
   teamId c = teamId c' \<Longrightarrow> repository c = repository c' \<Longrightarrow> kind c = kind c' \<Longrightarrow>
   assertContainsEndpoints p c = assertContainsEndpoints p' c'"
  by (simp add: assertContainsEndpoints_def)

definition place_under :: "issue \<Rightarrow> ident option \<Rightarrow> issue" where
  "place_under r p = r\<lparr>parentId := p, revision := revision r + 1\<rparr>"

lemma projectParent_simps [simp]:
  "links (projectParent b p act db) = links db"
  "states (projectParent b p act db) = states db"
  "issues (projectParent b p act db) =
     update_rows (\<lambda>r. issueId r = issueId b) (\<lambda>r. place_under r p) (issues db)"
  by (simp_all add: projectParent_def Let_def update_issue_def place_under_def)

lemma place_under_simps [simp]:
  "issueId (place_under r p) = issueId r" "parentId (place_under r p) = p"
  "teamId (place_under r p) = teamId r" "repository (place_under r p) = repository r"
  "kind (place_under r p) = kind r" "supersededById (place_under r p) = supersededById r"
  "revision (place_under r p) = revision r + 1"
  by (simp_all add: place_under_def)

lemma find_issue_projectParent:
  "find_issue (projectParent b p act db) i =
     map_option (\<lambda>r. if issueId r = issueId b then place_under r p else r) (find_issue db i)"
  by (simp add: find_issue_def find_row_update)

definition endpoint :: "issue \<Rightarrow> ident \<times> string option \<times> work_kind" where
  "endpoint r = (teamId r, repository r, kind r)"

lemma endpoint_place_under [simp]: "endpoint (place_under r p) = endpoint r"
  by (simp add: endpoint_def)

lemma legal_edge_endpoints:
  assumes "\<And>i. map_option endpoint (find_issue db' i) = map_option endpoint (find_issue db i)"
  shows "legal_edge db e \<Longrightarrow> legal_edge db' e"
proof -
  assume "legal_edge db e"
  then obtain a b p c where e: "e = (a, b)" and pc: "find_issue db a = Some p" "find_issue db b = Some c"
    and ok: "assertContainsEndpoints p c = Inr ()"
    by (auto simp: legal_edge_def)
  obtain p' where p': "find_issue db' a = Some p'" "endpoint p' = endpoint p"
    using assms [of a] pc(1) by auto
  obtain c' where c': "find_issue db' b = Some c'" "endpoint c' = endpoint c"
    using assms [of b] pc(2) by auto
  have "assertContainsEndpoints p' c' = assertContainsEndpoints p c"
    by (rule assertContainsEndpoints_cong) (use p'(2) c'(2) in \<open>auto simp: endpoint_def\<close>)
  with ok p' c' e show ?thesis by (auto simp: legal_edge_def)
qed

lemma legal_edge_projectParent:
  "legal_edge db e \<Longrightarrow> legal_edge (projectParent b p act db) e"
  by (erule legal_edge_endpoints [rotated])
    (simp add: find_issue_projectParent option.map_comp comp_def if_distrib cong: if_cong)

lemma edges_links_append:
  "edges (db\<lparr>links := links db @ [l]\<rparr>) type =
     (if linkType l = type then insert (fromId l, toId l) (edges db type) else edges db type)"
  by (auto simp: edges_iff same_edge_def)

lemma edges_related_removed:
  "type \<noteq> RELATED_TO \<Longrightarrow>
   edges (db\<lparr>links := filter (\<lambda>l. \<not> (linkType l = RELATED_TO \<and> P l)) (links db)\<rparr>) type = edges db type"
  by (auto simp: edges_iff same_edge_def)

lemma edges_projectParent_iff:
  "(x, y) \<in> edges (projectParent b p act db) type \<longleftrightarrow>
     (\<exists>l \<in> set (links db). same_edge x y type l)
     \<or> type = CONTAINS \<and> (\<exists>r \<in> set (issues db). issueId r = y
          \<and> (if y = issueId b then p else parentId r) = Some x)"
  unfolding edges_iff projectParent_simps bex_update_rows
  by (intro disj_cong conj_cong bex_cong refl) auto

lemma edges_at:
  assumes "unique_key issueId (issues db)" "b \<in> set (issues db)"
  shows "(x, issueId b) \<in> edges db type \<longleftrightarrow>
      (\<exists>l \<in> set (links db). same_edge x (issueId b) type l) \<or> type = CONTAINS \<and> parentId b = Some x"
    and "(x, issueId b) \<in> edges (projectParent b p act db) type \<longleftrightarrow>
      (\<exists>l \<in> set (links db). same_edge x (issueId b) type l) \<or> type = CONTAINS \<and> p = Some x"
  unfolding edges_projectParent_iff edges_iff [of x "issueId b" db]
  using unique_key_bex [OF assms, of "\<lambda>r. parentId r = Some x"] unique_key_bex [OF assms, of "\<lambda>r. p = Some x"]
  by auto

lemma edges_projectParent_other:
  "y \<noteq> issueId b \<Longrightarrow> (x, y) \<in> edges (projectParent b p act db) type \<longleftrightarrow> (x, y) \<in> edges db type"
  by (simp only: edges_projectParent_iff edges_iff [of x y db] if_False)

lemma edges_projectParent:
  assumes "unique_key issueId (issues db)" "b \<in> set (issues db)" "parentId b = None \<or> parentId b = Some f"
  shows "edges (projectParent b (Some f) act db) type =
    (if type = CONTAINS then insert (f, issueId b) (edges db type) else edges db type)"
proof -
  have "(x, y) \<in> edges (projectParent b (Some f) act db) type \<longleftrightarrow>
      (x, y) \<in> edges db type \<or> type = CONTAINS \<and> x = f \<and> y = issueId b" for x y
    using assms(3) edges_at [OF assms(1,2)] edges_projectParent_other
    by (cases "y = issueId b") auto
  then show ?thesis by auto
qed

lemma edges_projectParent_subset:
  assumes "p = None \<or> p = parentId b" "unique_key issueId (issues db)" "b \<in> set (issues db)"
  shows "edges (projectParent b p act db) type \<subseteq> edges db type"
proof -
  have "(x, y) \<in> edges (projectParent b p act db) type \<Longrightarrow> (x, y) \<in> edges db type" for x y
    using assms(1) edges_at [OF assms(2,3)] edges_projectParent_other
    by (cases "y = issueId b") auto
  then show ?thesis by auto
qed

lemma image_issueId_projectParent [simp]:
  "issueId ` set (issues (projectParent b p act db)) = issueId ` set (issues db)"
  by (simp add: key_image_update_rows)

lemma graph_ok_filter_links:
  assumes "graph_ok db"
  shows "graph_ok (db\<lparr>links := filter P (links db)\<rparr>)"
proof -
  let ?db = "db\<lparr>links := filter P (links db)\<rparr>"
  have sub: "edges ?db type \<subseteq> edges db type" for type by (auto simp: edges_iff)
  have find: "find_issue ?db = find_issue db" by (simp add: find_issue_def fun_eq_iff)
  then have legal: "legal_edge ?db = legal_edge db" by (simp add: legal_edge_def)
  show ?thesis
    using graph_okD [OF assms] subsetD [OF sub] acyclic_subset [OF _ sub]
    by (auto simp: graph_ok_def find legal unique_key_filter)
qed

lemma graph_ok_add_link:
  assumes ok: "graph_ok db"
    and new: "linkId l \<notin> linkId ` set (links db)" "edge_key l \<notin> edge_key ` set (links db)"
    and ends: "fromId l \<in> issueId ` set (issues db)" "toId l \<in> issueId ` set (issues db)"
    and type: "linkType l \<noteq> CONTAINS"
    and acyc: "linkType l = BLOCKS \<Longrightarrow> (toId l, fromId l) \<notin> (edges db BLOCKS)\<^sup>*"
  shows "graph_ok (db\<lparr>links := links db @ [l]\<rparr>)"
proof -
  let ?db = "db\<lparr>links := links db @ [l]\<rparr>"
  have find: "find_issue ?db = find_issue db" by (simp add: find_issue_def fun_eq_iff)
  then have legal: "legal_edge ?db = legal_edge db" by (simp add: legal_edge_def)
  show ?thesis
    using graph_okD [OF ok] new ends type acyc
    by (auto simp: graph_ok_def find legal edges_links_append acyclic_insert)
qed

lemma graph_ok_add_contains:
  assumes ok: "graph_ok db"
    and new: "linkId l \<notin> linkId ` set (links db)" "edge_key l \<notin> edge_key ` set (links db)"
    and ends: "find_issue db (fromId l) = Some fi" "find_issue db (toId l) = Some ti"
    and type: "linkType l = CONTAINS"
    and guard: "assertContainsEndpoints fi ti = Inr ()" "parentId ti = None \<or> parentId ti = Some (fromId l)"
    and acyc: "(toId l, fromId l) \<notin> (edges db CONTAINS)\<^sup>*"
  shows "graph_ok (projectParent ti (Some (fromId l)) act (db\<lparr>links := links db @ [l]\<rparr>))"
proof -
  let ?db1 = "db\<lparr>links := links db @ [l]\<rparr>"
  let ?db2 = "projectParent ti (Some (fromId l)) act ?db1"
  have ti: "ti \<in> set (issues db)" "issueId ti = toId l" using find_issue_id [OF ends(2)] by auto
  have uniq: "unique_key issueId (issues ?db2)" using graph_okD(1) [OF ok] by (simp add: unique_key_update)
  have edges: "edges ?db2 type = (if type = CONTAINS then insert (fromId l, toId l) (edges db type) else edges db type)" for type
    using edges_projectParent [of ?db1 ti "fromId l" act type] graph_okD(1) [OF ok] ti guard(2) type
    by (auto simp: edges_links_append)
  have find: "find_issue ?db2 i = map_option (\<lambda>r. if issueId r = toId l then place_under r (Some (fromId l)) else r) (find_issue db i)" for i
    by (simp add: find_issue_projectParent ti) (simp add: find_issue_def)
  have "\<exists>c. find_issue ?db2 (toId k) = Some c \<and> parentId c = Some (fromId k)"
    if "k \<in> set (links ?db2)" "linkType k = CONTAINS" for k
  proof (cases "toId k = toId l")
    case True
    have "(fromId k, toId k) \<in> edges ?db2 CONTAINS" using that by (auto simp: edges_iff same_edge_def)
    then have "fromId k = fromId l"
      using True guard(2) graph_okD(6) [OF ok, of k] ends(2) that type by (auto split: if_splits)
    with True ends(2) show ?thesis by (simp add: find ti)
  next
    case False
    with that have "k \<in> set (links db)" by auto
    from graph_okD(6) [OF ok this that(2)] obtain c
      where c: "find_issue db (toId k) = Some c" "parentId c = Some (fromId k)" by auto
    with find_issue_id [OF c(1)] False show ?thesis by (simp add: find)
  qed
  moreover have "legal_edge ?db2 e" if "e \<in> edges ?db2 CONTAINS" for e
  proof -
    have "legal_edge ?db1 e"
      using that ends guard(1) graph_okD(7) [OF ok, of e]
      by (auto simp: edges legal_edge_def find_issue_def split: if_splits)
    then show ?thesis by (rule legal_edge_projectParent)
  qed
  moreover have "fromId l \<in> issueId ` set (issues db)" "toId l \<in> issueId ` set (issues db)"
    using find_issue_id [OF ends(1)] find_issue_id [OF ends(2)] by (auto intro: rev_image_eqI)
  moreover have "\<forall>r \<in> set (issues ?db2). issueId r \<noteq> []"
    using graph_okD(4) [OF ok] by (auto simp: set_update_rows)
  ultimately show ?thesis
    using graph_okD(2,3,5,8,9) [OF ok] new acyc uniq
    by (auto simp: graph_ok_def edges acyclic_insert simp del: projectParent_simps(3))
qed

section \<open>Creating a link keeps the invariant\<close>

text \<open>What a successful \<^verbatim>\<open>createWorkLinkDetailed\<close> has checked and what it returns.\<close>

definition link_checked :: "graph_db \<Rightarrow> link_input \<Rightarrow> issue \<Rightarrow> issue \<Rightarrow> bool" where
  "link_checked db inp fi ti \<longleftrightarrow>
     inFrom inp \<noteq> inTo inp
     \<and> find_issue db (inFrom inp) = Some fi \<and> find_issue db (inTo inp) = Some ti
     \<and> (inType inp = BLOCKS \<longrightarrow> \<not> truthy (supersededById fi) \<and> \<not> truthy (supersededById ti))
     \<and> teamId fi = teamId ti
     \<and> (inType inp \<in> set CYCLE_CHECKED_LINK_TYPES \<longrightarrow> \<not> canReach db (inType inp) (inTo inp) (inFrom inp))
     \<and> (inType inp = CONTAINS \<longrightarrow> contains_guard db fi ti = Inr ())"

lemma createWorkLinkDetailed_Inr:
  "createWorkLinkDetailed db inp newId = Inr ((created, l), db') \<longleftrightarrow>
     (\<exists>fi ti. link_checked db inp fi ti \<and>
       (case find (same_edge (inFrom inp) (inTo inp) (inType inp)) (links db) of
          None \<Rightarrow> created \<and> l = fst (insert_link db inp ti newId) \<and> db' = snd (insert_link db inp ti newId)
        | Some existing \<Rightarrow> \<not> created \<and> l = existing \<and>
            db' = (if inType inp = CONTAINS \<and> parentId ti \<noteq> Some (inFrom inp)
                   then projectParent ti (Some (inFrom inp)) (inActor inp) db else db)))"
  by (cases "find (same_edge (inFrom inp) (inTo inp) (inType inp)) (links db)";
      cases "find_issue db (inFrom inp)"; cases "find_issue db (inTo inp)")
    (auto simp: createWorkLinkDetailed_def link_checked_def Let_def assertNoWorkLinkCycle_def)

lemma find_same_edge_None:
  "find (same_edge f t type) ls = None \<longleftrightarrow> (f, t, type) \<notin> edge_key ` set ls"
  by (auto simp: find_None_iff same_edge_def edge_key_def)

lemma contains_guard_Inr:
  "contains_guard db fi ti = Inr () \<longleftrightarrow>
     assertContainsEndpoints fi ti = Inr ()
     \<and> (\<forall>l \<in> set (links db). toId l = issueId ti \<and> linkType l = CONTAINS \<longrightarrow> fromId l = issueId fi)
     \<and> (truthy (parentId ti) \<longrightarrow> parentId ti = Some (issueId fi))"
  by (auto simp: contains_guard_def)

lemma graph_ok_parent_nonempty:
  assumes "graph_ok db" "c \<in> set (issues db)" "parentId c = Some p"
  shows "p \<noteq> []"
proof -
  have "(p, issueId c) \<in> edges db CONTAINS" using assms(2,3) by (auto simp: edges_iff)
  from graph_okD(7) [OF assms(1) this] obtain pr where "find_issue db p = Some pr"
    by (auto simp: legal_edge_def)
  then show ?thesis using find_issue_id graph_okD(4) [OF assms(1)] by metis
qed

lemma link_checked_ids:
  assumes "graph_ok db" "link_checked db inp fi ti"
  shows "issueId fi = inFrom inp" "issueId ti = inTo inp" "fi \<in> set (issues db)" "ti \<in> set (issues db)"
    "inFrom inp \<in> issueId ` set (issues db)" "inTo inp \<in> issueId ` set (issues db)"
  using find_issue_id [of db "inFrom inp" fi] find_issue_id [of db "inTo inp" ti] assms
  by (auto simp: link_checked_def intro: rev_image_eqI)

lemma link_checked_acyclic:
  assumes "graph_ok db" "link_checked db inp fi ti" "inType inp \<in> set CYCLE_CHECKED_LINK_TYPES"
  shows "(inTo inp, inFrom inp) \<notin> (edges db (inType inp))\<^sup>*"
  using canReach_iff [OF graph_ok_nonempty [OF assms(1)], of "inTo inp"]
    graph_okD(4) [OF assms(1)] link_checked_ids [OF assms(1,2)] assms(2,3)
  by (auto simp: link_checked_def)

lemma link_checked_contains:
  assumes "graph_ok db" "link_checked db inp fi ti" "inType inp = CONTAINS"
  shows "assertContainsEndpoints fi ti = Inr ()" "parentId ti = None \<or> parentId ti = Some (inFrom inp)"
  using assms(2,3) link_checked_ids [OF assms(1,2)] graph_ok_parent_nonempty [OF assms(1), of ti]
  by (auto simp: link_checked_def contains_guard_Inr truthy_def split: option.splits)

lemma insert_link_ok:
  assumes ok: "graph_ok db" and chk: "link_checked db inp fi ti"
    and new: "newId \<notin> linkId ` set (links db)"
    and none: "find (same_edge (inFrom inp) (inTo inp) (inType inp)) (links db) = None"
  shows "graph_ok (snd (insert_link db inp ti newId))"
proof -
  let ?act = "case inActor inp of None \<Rightarrow> INTERNAL_WRITE_ACTOR | Some a \<Rightarrow> a"
  let ?l = "\<lparr>linkId = newId, linkType = inType inp, fromId = inFrom inp, toId = inTo inp, linkActorId = actorId ?act\<rparr>"
  let ?db1 = "db\<lparr>links := links db @ [?l]\<rparr>"
  let ?db2 = "if inType inp = CONTAINS then projectParent ti (Some (inFrom inp)) (Some ?act) ?db1 else ?db1"
  let ?keep = "\<lambda>l. \<not> (linkType l = RELATED_TO \<and>
    (fromId l = inFrom inp \<and> toId l = inTo inp \<or> fromId l = inTo inp \<and> toId l = inFrom inp))"
  have fresh: "linkId ?l \<notin> linkId ` set (links db)" "edge_key ?l \<notin> edge_key ` set (links db)"
    using new none find_same_edge_None [of "inFrom inp" "inTo inp" "inType inp" "links db"]
    by (auto simp: edge_key_def)
  have "graph_ok ?db2"
  proof (cases "inType inp = CONTAINS")
    case True
    from graph_ok_add_contains [OF ok fresh, of fi ti "Some ?act"] True chk
      link_checked_contains [OF ok chk] link_checked_acyclic [OF ok chk]
    show ?thesis by (simp add: link_checked_def CYCLE_CHECKED_LINK_TYPES_def)
  next
    case False
    from graph_ok_add_link [OF ok fresh] False link_checked_ids [OF ok chk] link_checked_acyclic [OF ok chk]
    show ?thesis by (simp add: CYCLE_CHECKED_LINK_TYPES_def)
  qed
  moreover have "graph_ok (?db2\<lparr>links := filter ?keep (links ?db2)\<rparr>)"
    by (rule graph_ok_filter_links [OF calculation])
  moreover have "snd (insert_link db inp ti newId) =
      (if inType inp \<noteq> RELATED_TO then ?db2\<lparr>links := filter ?keep (links ?db2)\<rparr> else ?db2)"
    unfolding insert_link_def Let_def snd_conv ..
  ultimately show ?thesis by presburger
qed

lemma existing_contains_projected:
  assumes "graph_ok db" "link_checked db inp fi ti" "inType inp = CONTAINS"
    and "find (same_edge (inFrom inp) (inTo inp) (inType inp)) (links db) = Some l"
  shows "parentId ti = Some (inFrom inp)"
proof -
  from assms(4) have l: "l \<in> set (links db)" "same_edge (inFrom inp) (inTo inp) (inType inp) l"
    by (auto simp: find_Some_iff)
  from graph_okD(6) [OF assms(1) l(1)] l(2) assms(2,3) show ?thesis
    by (auto simp: same_edge_def link_checked_def)
qed

lemma create_keeps_graph_ok:
  assumes "graph_ok db" "newId \<notin> linkId ` set (links db)"
    and "createWorkLinkDetailed db inp newId = Inr ((created, l), db')"
  shows "graph_ok db'"
proof -
  obtain fi ti where chk: "link_checked db inp fi ti"
    and res: "case find (same_edge (inFrom inp) (inTo inp) (inType inp)) (links db) of
          None \<Rightarrow> created \<and> l = fst (insert_link db inp ti newId) \<and> db' = snd (insert_link db inp ti newId)
        | Some existing \<Rightarrow> \<not> created \<and> l = existing \<and>
            db' = (if inType inp = CONTAINS \<and> parentId ti \<noteq> Some (inFrom inp)
                   then projectParent ti (Some (inFrom inp)) (inActor inp) db else db)"
    using assms(3) unfolding createWorkLinkDetailed_Inr by blast
  show ?thesis
  proof (cases "find (same_edge (inFrom inp) (inTo inp) (inType inp)) (links db)")
    case None
    with res insert_link_ok [OF assms(1) chk assms(2) None] show ?thesis by simp
  next
    case (Some existing)
    with res existing_contains_projected [OF assms(1) chk _ Some] assms(1) show ?thesis by auto
  qed
qed

section \<open>Deleting a link keeps the invariant\<close>

lemma graph_ok_cong: "issues db' = issues db \<Longrightarrow> links db' = links db \<Longrightarrow> graph_ok db' = graph_ok db"
  by (simp add: graph_ok_def edges_def outgoingNeighborIds_def legal_edge_def find_issue_def)

lemma graph_ok_touch:
  assumes ok: "graph_ok db"
    and f: "\<And>r. issueId (f r) = issueId r" "\<And>r. parentId (f r) = parentId r" "\<And>r. endpoint (f r) = endpoint r"
  shows "graph_ok (update_issue i f db)"
proof -
  let ?db = "update_issue i f db"
  have edges: "edges ?db type = edges db type" for type
    by (auto simp: edges_iff update_issue_def bex_update_rows f if_distrib cong: if_cong)
  have find: "find_issue ?db j = map_option (\<lambda>r. if issueId r = i then f r else r) (find_issue db j)" for j
    by (rule find_issue_update) (rule f(1))
  have legal: "legal_edge db e \<Longrightarrow> legal_edge ?db e" for e
    by (erule legal_edge_endpoints [rotated])
      (simp add: find option.map_comp comp_def if_distrib f cong: if_cong)
  have ids: "issueId ` set (issues ?db) = issueId ` set (issues db)"
    by (simp add: update_issue_def key_image_update_rows f)
  have proj: "\<exists>c. find_issue ?db (toId l) = Some c \<and> parentId c = Some (fromId l)"
    if l: "l \<in> set (links db)" "linkType l = CONTAINS" for l
  proof -
    obtain c where "find_issue db (toId l) = Some c" "parentId c = Some (fromId l)"
      using graph_okD(6) [OF ok l] by auto
    then show ?thesis by (simp add: find f)
  qed
  have "\<forall>r \<in> set (issues ?db). issueId r \<noteq> []" using ids graph_okD(4) [OF ok] by (metis imageE imageI)
  then show ?thesis
    using graph_okD [OF ok] legal proj
    by (simp add: graph_ok_def edges ids) (simp add: update_issue_def unique_key_update f)
qed

lemma graph_ok_unparent:
  assumes ok: "graph_ok db" and c: "c \<in> set (issues db)"
    and none: "\<forall>l \<in> set (links db). linkType l = CONTAINS \<longrightarrow> toId l \<noteq> issueId c"
  shows "graph_ok (projectParent c None act db)"
proof -
  let ?db = "projectParent c None act db"
  have sub: "edges ?db type \<subseteq> edges db type" for type
    by (rule edges_projectParent_subset [OF disjI1 [OF refl] graph_okD(1) [OF ok] c])
  have proj: "\<exists>r. find_issue ?db (toId l) = Some r \<and> parentId r = Some (fromId l)"
    if l: "l \<in> set (links db)" "linkType l = CONTAINS" for l
  proof -
    obtain r where r: "find_issue db (toId l) = Some r" "parentId r = Some (fromId l)"
      using graph_okD(6) [OF ok l] by auto
    with find_issue_id [OF r(1)] none l show ?thesis by (simp add: find_issue_projectParent)
  qed
  have "\<forall>r \<in> set (issues ?db). issueId r \<noteq> []"
    using graph_okD(4) [OF ok] by (metis image_issueId_projectParent imageE imageI)
  then show ?thesis
    using graph_okD [OF ok] subsetD [OF sub] acyclic_subset [OF _ sub] legal_edge_projectParent proj
    by (auto simp: graph_ok_def unique_key_update simp del: projectParent_simps(3)
        simp: projectParent_simps(3) [THEN arg_cong [where f = "unique_key issueId"]])
qed

lemma contains_link_unique:
  assumes "graph_ok db" "l \<in> set (links db)" "k \<in> set (links db)"
    "linkType l = CONTAINS" "linkType k = CONTAINS" "toId l = toId k"
  shows "l = k"
proof -
  have "fromId l = fromId k"
    using graph_okD(6) [OF assms(1,2,4)] graph_okD(6) [OF assms(1,3,5)] assms(6) by auto
  with assms show ?thesis using unique_key_inj [OF graph_okD(3) [OF assms(1)] assms(2,3)]
    by (simp add: edge_key_def)
qed

lemma delete_keeps_graph_ok:
  assumes ok: "graph_ok db" and res: "deleteWorkLink db i act = Inr (r, db')"
  shows "graph_ok db'"
proof -
  obtain l where l: "find_row linkId i (links db) = Some l"
    using res by (auto simp: deleteWorkLink_def split: option.splits)
  then have lin: "l \<in> set (links db)" "linkId l = i" by (auto dest: find_row_Some)
  let ?db1 = "db\<lparr>links := filter (\<lambda>l. linkId l \<noteq> i) (links db)\<rparr>"
  have ok1: "graph_ok ?db1" by (rule graph_ok_filter_links [OF ok])
  show ?thesis
  proof (cases "linkType l = CONTAINS")
    case True
    obtain c where c: "find_issue db (toId l) = Some c" "parentId c = Some (fromId l)"
      using graph_okD(6) [OF ok lin(1) True] by auto
    have "\<forall>k \<in> set (links ?db1). linkType k = CONTAINS \<longrightarrow> toId k \<noteq> issueId c"
      using contains_link_unique [OF ok _ lin(1) _ True] lin(2) find_issue_id [OF c(1)] by auto
    then have "graph_ok (projectParent c None act ?db1)"
      using find_issue_id [OF c(1)] by (intro graph_ok_unparent [OF ok1]) auto
    moreover have "db' = projectParent c None act ?db1"
      using res l True c by (simp add: deleteWorkLink_def Let_def find_issue_def)
    ultimately show ?thesis by simp
  next
    case False
    have touch: "graph_ok (update_issue j (\<lambda>r. r\<lparr>revision := revision r + 1\<rparr>) ?db1)" for j
      by (rule graph_ok_touch [OF ok1]) (simp_all add: endpoint_def)
    obtain b where "find_issue ?db1 (fromId l) = Some b"
      using res l False by (auto simp: deleteWorkLink_def Let_def split: option.splits)
    with res l False show ?thesis
      by (auto simp: deleteWorkLink_def Let_def postDuplicateNote_def
          split: option.splits if_splits intro!: touch [THEN graph_ok_cong [THEN iffD2, rotated 2]])
  qed
qed

section \<open>Descendants\<close>

lemma mark_new_spec:
  "mark_new rootId visited queue cs = (v, q) \<Longrightarrow>
   \<exists>new. v = visited @ new \<and> q = queue @ new \<and> set new = set cs - set visited - {rootId}
     \<and> distinct new"
proof (induction rootId visited queue cs arbitrary: v q rule: mark_new.induct)
  case (1 rootId visited queue)
  then show ?case by simp
next
  case (2 rootId visited queue c cs)
  show ?case
  proof (cases "c \<notin> set visited \<and> c \<noteq> rootId")
    case True
    with "2.IH"(1) "2.prems" obtain new where "v = (visited @ [c]) @ new" "q = (queue @ [c]) @ new"
      "set new = set cs - set (visited @ [c]) - {rootId}" "distinct new" by fastforce
    with True show ?thesis by (intro exI [of _ "c # new"]) auto
  next
    case False
    with "2.IH"(2) "2.prems" show ?thesis by fastforce
  qed
qed

definition child_rel :: "graph_db \<Rightarrow> (ident \<times> ident) set" where
  "child_rel db = {(a, b). b \<in> set (contains_children db a)}"

definition search_ok :: "graph_db \<Rightarrow> ident \<Rightarrow> ident list \<Rightarrow> ident list \<Rightarrow> bool" where
  "search_ok db rootId visited queue \<longleftrightarrow>
     set queue \<subseteq> insert rootId (set visited) \<and> rootId \<notin> set visited \<and> distinct visited
     \<and> set visited \<subseteq> (child_rel db)\<^sup>+ `` {rootId}
     \<and> (\<forall>a \<in> insert rootId (set visited). a \<notin> set queue \<longrightarrow>
          set (contains_children db a) \<subseteq> insert rootId (set visited))"

lemma search_ok_step:
  assumes ok: "search_ok db rootId visited (current # queue)"
    and mark: "mark_new rootId visited queue (contains_children db current) = (v, q)"
  shows "search_ok db rootId v q"
proof -
  obtain new where new: "v = visited @ new" "q = queue @ new" "distinct new"
    "set new = set (contains_children db current) - set visited - {rootId}"
    using mark_new_spec [OF mark] by auto
  have cur: "current = rootId \<or> (rootId, current) \<in> (child_rel db)\<^sup>+"
    using ok by (auto simp: search_ok_def)
  have "(rootId, n) \<in> (child_rel db)\<^sup>+" if "n \<in> set new" for n
    using that cur new(4) by (auto simp: child_rel_def intro: trancl_into_trancl)
  moreover have "set (contains_children db a) \<subseteq> insert rootId (set v)"
    if "a \<in> insert rootId (set v)" "a \<notin> set q" for a
  proof (cases "a = current")
    case True
    with new show ?thesis by auto
  next
    case False
    with that ok new have "a \<in> insert rootId (set visited)" "a \<notin> set (current # queue)" by auto
    with ok new(1) show ?thesis by (fastforce simp: search_ok_def)
  qed
  ultimately show ?thesis using ok new by (auto simp: search_ok_def)
qed

lemma descendants_loop_correct:
  "search_ok db rootId visited queue \<Longrightarrow>
   set (descendants_loop db rootId visited queue) = (child_rel db)\<^sup>+ `` {rootId} - {rootId}
   \<and> distinct (descendants_loop db rootId visited queue)"
proof (induction db rootId visited queue rule: descendants_loop.induct)
  case (1 db rootId visited)
  let ?X = "insert rootId (set visited)"
  have closed: "child_rel db `` ?X \<subseteq> ?X" using "1.prems" by (auto simp: search_ok_def child_rel_def)
  have "x \<in> ?X" if "(rootId, x) \<in> (child_rel db)\<^sup>+" for x
    using that by (induction rule: trancl_induct) (use closed in auto)
  with "1.prems" show ?case by (auto simp: search_ok_def)
next
  case (2 db rootId visited current queue)
  obtain v q where m: "mark_new rootId visited queue (contains_children db current) = (v, q)" by fastforce
  from "2.IH" [OF m [symmetric] refl] search_ok_step [OF "2.prems" m] m show ?case by simp
qed

lemma child_rel_edges:
  assumes "graph_ok db"
  shows "child_rel db = edges db CONTAINS"
proof -
  have ex: "l \<in> set (links db) \<Longrightarrow> \<exists>r \<in> set (issues db). issueId r = toId l" for l
    using graph_okD(5) [OF assms, of l] by auto
  have "(a, b) \<in> child_rel db \<longleftrightarrow> (\<exists>r \<in> set (issues db). issueId r = b \<and> (parentId r = Some a \<or>
      (\<exists>l \<in> set (links db). same_edge a b CONTAINS l)))" for a b
    by (auto simp: child_rel_def contains_children_def Let_def same_edge_def image_iff) metis
  moreover have "\<exists>r \<in> set (issues db). issueId r = b" if "l \<in> set (links db)" "same_edge a b CONTAINS l" for a b l
    using ex [OF that(1)] that(2) by (auto simp: same_edge_def)
  ultimately have "(a, b) \<in> child_rel db \<longleftrightarrow> (a, b) \<in> edges db CONTAINS" for a b
    unfolding edges_iff by blast
  then show ?thesis by auto
qed

section \<open>Runs of link operations\<close>

inductive graph_step :: "graph_db \<Rightarrow> graph_db \<Rightarrow> bool" where
  create: "newId \<notin> linkId ` set (links db) \<Longrightarrow> createWorkLinkDetailed db inp newId = Inr (r, db') \<Longrightarrow>
     graph_step db db'"
| delete: "deleteWorkLink db i act = Inr (r, db') \<Longrightarrow> graph_step db db'"

text \<open>History only grows: no audit row is lost and no revision goes back.\<close>

definition history_le :: "graph_db \<Rightarrow> graph_db \<Rightarrow> bool" where
  "history_le db db' \<longleftrightarrow> (\<exists>rows. audits db' = audits db @ rows)
     \<and> (\<forall>i r. find_issue db i = Some r \<longrightarrow> (\<exists>r'. find_issue db' i = Some r' \<and> revision r \<le> revision r'))"

lemma history_le_refl [simp]: "history_le db db"
  by (simp add: history_le_def)

lemma history_le_trans: "history_le a b \<Longrightarrow> history_le b c \<Longrightarrow> history_le a c"
  unfolding history_le_def by (elim conjE exE) (simp, meson order_trans)

lemma history_le_same: "issues b = issues a \<Longrightarrow> audits b = audits a \<Longrightarrow> history_le a b"
  by (simp add: history_le_def find_issue_def)

lemma history_le_projectParent: "history_le db (projectParent c p act db)"
  unfolding history_le_def find_issue_projectParent
  by (auto simp: projectParent_def recordWorkAudit_def Let_def split: option.splits)

lemma history_le_touch:
  assumes "stateId b = stateId a"
  shows "history_le db (recordWorkAudit act (Some b) a w (update_issue i (\<lambda>r. r\<lparr>revision := revision r + 1\<rparr>) db))"
  unfolding history_le_def recordWorkAudit_same_state(2) [OF assms]
  using find_issue_update [of "\<lambda>r. r\<lparr>revision := revision r + 1\<rparr>" i db]
  by (auto simp: recordWorkAudit_def Let_def assms)

lemma create_history:
  assumes "createWorkLinkDetailed db inp newId = Inr ((created, l), db')"
  shows "history_le db db'"
proof -
  have ins: "history_le db (snd (insert_link db inp ti newId))" for ti
  proof -
    let ?db1 = "db\<lparr>links := links db @ [fst (insert_link db inp ti newId)]\<rparr>"
    let ?act = "Some (case inActor inp of None \<Rightarrow> INTERNAL_WRITE_ACTOR | Some a \<Rightarrow> a)"
    let ?db2 = "if inType inp = CONTAINS then projectParent ti (Some (inFrom inp)) ?act ?db1 else ?db1"
    have "history_le db ?db1" by (rule history_le_same) simp_all
    moreover have "history_le ?db1 ?db2" using history_le_projectParent by simp
    moreover have "history_le ?db2 (snd (insert_link db inp ti newId))"
      by (rule history_le_same) (simp_all add: insert_link_def Let_def)
    ultimately show ?thesis by (blast intro: history_le_trans)
  qed
  from assms show ?thesis unfolding createWorkLinkDetailed_Inr
    by (auto simp: ins history_le_projectParent split: option.splits)
qed

lemma delete_history:
  assumes "deleteWorkLink db i act = Inr (r, db')"
  shows "history_le db db'"
proof -
  let ?db1 = "db\<lparr>links := filter (\<lambda>l. linkId l \<noteq> i) (links db)\<rparr>"
  have base: "history_le db ?db1" by (rule history_le_same) simp_all
  have proj: "history_le db (projectParent c p a ?db1)" for c p a
    using base history_le_projectParent by (rule history_le_trans)
  have touch: "history_le db (recordWorkAudit a (Some b) (b\<lparr>revision := n\<rparr>) w
      (update_issue j (\<lambda>r. r\<lparr>revision := revision r + 1\<rparr>) ?db1))" for a b n w j
    by (rule history_le_trans [OF base]) (rule history_le_touch, simp)
  have note_le: "history_le a b \<Longrightarrow> history_le a (postDuplicateNote w au body b)" for a b w au body
    by (erule history_le_trans) (auto simp: postDuplicateNote_def intro!: history_le_same split: option.splits)
  from assms show ?thesis
    by (auto simp: deleteWorkLink_def Let_def base proj split: option.splits if_splits intro!: touch note_le)
qed

inductive_cases graph_stepE: "graph_step db db'"

lemma graph_step_ok: "graph_ok db \<Longrightarrow> graph_step db db' \<Longrightarrow> graph_ok db'"
  by (erule graph_stepE) (auto intro: create_keeps_graph_ok delete_keeps_graph_ok)

lemma graph_step_history: "graph_step db db' \<Longrightarrow> history_le db db'"
  by (erule graph_stepE) (auto intro: create_history delete_history)

interpretation link_runs: step_system graph_step graph_ok history_le
  by unfold_locales (auto intro: graph_step_ok graph_step_history history_le_trans)

section \<open>Properties\<close>

text \<open>
  C5: in every state reached from a well-formed graph by any sequence of successful link creations and
  deletions, the containment hierarchy and the blocking relation have no cycle, every item has at most
  one parent, and every containment edge joins items of one team and one repository whose kinds may
  contain each other.
\<close>

theorem link_runs_keep_hierarchy:
  assumes "graph_ok db" "graph_step\<^sup>*\<^sup>* db db'"
  shows "acyclic (edges db' CONTAINS) \<and> acyclic (edges db' BLOCKS)
    \<and> (\<forall>a b c. (a, c) \<in> edges db' CONTAINS \<longrightarrow> (b, c) \<in> edges db' CONTAINS \<longrightarrow> a = b)
    \<and> (\<forall>a b. (a, b) \<in> edges db' CONTAINS \<longrightarrow> (\<exists>p c. find_issue db' a = Some p \<and> find_issue db' b = Some c
         \<and> assertContainsEndpoints p c = Inr ()))"
proof -
  have ok: "graph_ok db'" using assms(2,1) by (rule link_runs.run_inv)
  show ?thesis
    using graph_okD(7-9) [OF ok] graph_ok_single_parent [OF ok] by (fastforce simp: legal_edge_def)
qed

definition sample_issue :: "ident \<Rightarrow> work_kind \<Rightarrow> issue" where
  "sample_issue i k = \<lparr>issueId = i, issueIdentifier = i, title = i, kind = k, teamId = ''team'', stateId = ''s'',
     assigneeId = None, parentId = None, priority = 0, commitmentStatus = COMMITTED, revision = 1,
     acceptance = None, repository = Some ''org/repo'', resolution = None, supersededById = None, reopenCount = 0\<rparr>"

definition sample_db :: graph_db where
  "sample_db = \<lparr>issues = [sample_issue ''p'' PROJECT, sample_issue ''m'' MILESTONE, sample_issue ''a'' ISSUE],
     links = [], states = [], audits = [], reopens = [], workNotes = []\<rparr>"

definition contain_input :: "ident \<Rightarrow> ident \<Rightarrow> link_input" where
  "contain_input f t = \<lparr>inActor = None, inFrom = f, inTo = t, inType = CONTAINS\<rparr>"

lemmas sample_defs = sample_db_def sample_issue_def contain_input_def

lemma sample_edges: "edges sample_db type = {}"
  by (auto simp: edges_def outgoingNeighborIds_def sample_defs js_uniq_def)

lemma sample_ok: "graph_ok sample_db"
  by (simp add: graph_ok_def sample_edges acyclic_def) (simp add: sample_defs)

lemmas link_eval = createWorkLinkDetailed_def insert_link_def contains_guard_def assertNoWorkLinkCycle_def
  canReach_def find_issue_def find_row_def CYCLE_CHECKED_LINK_TYPES_def assertContainsEndpoints_def
  isLegalContains_def blank_def untrimmed_def outgoingNeighborIds_def js_uniq_def truthy_def
  projectParent_def recordWorkAudit_def update_issue_def update_rows_def INTERNAL_WRITE_ACTOR_def same_edge_def

lemma sample_create:
  "is_ok (createWorkLinkDetailed sample_db (contain_input ''p'' ''m'') ''l1'')"
  by (simp add: sample_defs link_eval js_simps Let_def)

theorem link_runs_keep_hierarchy_witness:
  "acyclic (edges (snd (projr (createWorkLinkDetailed sample_db (contain_input ''p'' ''m'') ''l1''))) CONTAINS)"
proof -
  let ?db' = "snd (projr (createWorkLinkDetailed sample_db (contain_input ''p'' ''m'') ''l1''))"
  have "createWorkLinkDetailed sample_db (contain_input ''p'' ''m'') ''l1'' =
      Inr (fst (projr (createWorkLinkDetailed sample_db (contain_input ''p'' ''m'') ''l1'')), ?db')"
    using sample_create by (cases "createWorkLinkDetailed sample_db (contain_input ''p'' ''m'') ''l1''") auto
  then have "graph_step sample_db ?db'" by (rule graph_step.create [rotated]) (simp add: sample_db_def)
  then have "graph_step\<^sup>*\<^sup>* sample_db ?db'" by blast
  from link_runs_keep_hierarchy [OF sample_ok this] show ?thesis by blast
qed

text \<open>
  C28: the breadth-first search behind the cycle check always ends and answers exactly whether a path
  of links of the given type leads from one item to the other, both representations of the hierarchy
  included.
\<close>

theorem canReach_correct:
  assumes "graph_ok db" "startId \<in> issueId ` set (issues db)"
  shows "canReach db type startId targetId \<longleftrightarrow> (startId, targetId) \<in> (edges db type)\<^sup>*"
  using canReach_iff [OF graph_ok_nonempty [OF assms(1)]] graph_okD(4) [OF assms(1)] assms(2) by blast

theorem canReach_correct_witness:
  "canReach sample_db CONTAINS ''p'' ''a'' \<longleftrightarrow> (''p'', ''a'') \<in> (edges sample_db CONTAINS)\<^sup>*"
  by (rule canReach_correct [OF sample_ok]) (simp add: sample_defs)

text \<open>
  A link that would close a cycle of containment or blocking is refused, whatever else holds of
  the request, and the error for it is the cycle message once the earlier checks pass.
\<close>

lemma cycle_refused:
  assumes "graph_ok db" "inType inp \<in> set CYCLE_CHECKED_LINK_TYPES"
    and "(inTo inp, inFrom inp) \<in> (edges db (inType inp))\<^sup>*"
    and "inFrom inp \<noteq> inTo inp" "find_issue db (inFrom inp) = Some fi" "find_issue db (inTo inp) = Some ti"
    and "teamId fi = teamId ti" "\<not> truthy (supersededById fi)" "\<not> truthy (supersededById ti)"
  shows "createWorkLinkDetailed db inp newId = Inl (ValidationError ''WORK_LINK_CYCLE_MESSAGE'')"
proof -
  have "inTo inp \<noteq> []" using find_issue_id [OF assms(6)] graph_okD(4) [OF assms(1)] by auto
  then have "canReach db (inType inp) (inTo inp) (inFrom inp)"
    using canReach_iff [OF graph_ok_nonempty [OF assms(1)]] assms(3) by blast
  with assms show ?thesis
    by (simp add: createWorkLinkDetailed_def Let_def assertNoWorkLinkCycle_def)
qed

lemma create_existing:
  assumes ok: "graph_ok db" and l: "l \<in> set (links db)" "same_edge (inFrom inp) (inTo inp) (inType inp) l"
    and ends: "inFrom inp \<noteq> inTo inp" "find_issue db (inFrom inp) = Some fi" "find_issue db (inTo inp) = Some ti"
    and rest: "inType inp = BLOCKS \<Longrightarrow> \<not> truthy (supersededById fi) \<and> \<not> truthy (supersededById ti)"
      "teamId fi = teamId ti"
  shows "createWorkLinkDetailed db inp n = Inr ((False, l), db)"
proof -
  have ids: "issueId fi = inFrom inp" "issueId ti = inTo inp" "ti \<in> set (issues db)"
    using find_issue_id [OF ends(2)] find_issue_id [OF ends(3)] by auto
  have edge: "(inFrom inp, inTo inp) \<in> edges db (inType inp)" using l by (auto simp: edges_iff)
  have "\<not> canReach db (inType inp) (inTo inp) (inFrom inp)" if "inType inp \<in> set CYCLE_CHECKED_LINK_TYPES"
  proof
    assume "canReach db (inType inp) (inTo inp) (inFrom inp)"
    then have "(inTo inp, inFrom inp) \<in> (edges db (inType inp))\<^sup>*"
      using canReach_iff [OF graph_ok_nonempty [OF ok]] graph_okD(4) [OF ok ids(3)] ids by metis
    with edge have "(inFrom inp, inFrom inp) \<in> (edges db (inType inp))\<^sup>+" by (rule rtrancl_into_trancl2)
    with graph_ok_acyclic [OF ok that] show False by (simp add: acyclic_def)
  qed
  moreover have "contains_guard db fi ti = Inr () \<and> parentId ti = Some (inFrom inp)" if c: "inType inp = CONTAINS"
  proof -
    have "legal_edge db (inFrom inp, inTo inp)" using graph_okD(7) [OF ok] edge c by auto
    then have "assertContainsEndpoints fi ti = Inr ()" using ends by (auto simp: legal_edge_def)
    moreover have "parentId ti = Some (inFrom inp)"
      using graph_okD(6) [OF ok l(1)] l(2) c ends(3) by (auto simp: same_edge_def)
    moreover have "fromId k = inFrom inp" if "k \<in> set (links db)" "toId k = inTo inp" "linkType k = CONTAINS" for k
      using contains_link_unique [OF ok that(1) l(1) that(3)] l(2) c that(2) by (auto simp: same_edge_def)
    ultimately show ?thesis by (auto simp: contains_guard_Inr ids)
  qed
  ultimately have chk: "link_checked db inp fi ti" using ends rest by (auto simp: link_checked_def)
  have "find (same_edge (inFrom inp) (inTo inp) (inType inp)) (links db) \<noteq> None"
    using l by (auto simp: find_None_iff)
  then obtain k where k: "find (same_edge (inFrom inp) (inTo inp) (inType inp)) (links db) = Some k" by auto
  then have "k \<in> set (links db)" "same_edge (inFrom inp) (inTo inp) (inType inp) k" by (auto simp: find_Some_iff)
  then have "k = l" using l unique_key_inj [OF graph_okD(3) [OF ok]] by (auto simp: same_edge_def edge_key_def)
  with k chk existing_contains_projected [OF ok chk _ k] show ?thesis
    by (auto simp: createWorkLinkDetailed_Inr)
qed

lemma insert_link_finds:
  assumes "graph_ok db" "link_checked db inp fi ti"
  shows "fst (insert_link db inp ti n) \<in> set (links (snd (insert_link db inp ti n)))"
    "same_edge (inFrom inp) (inTo inp) (inType inp) (fst (insert_link db inp ti n))"
    "find_issue (snd (insert_link db inp ti n)) (inFrom inp) = Some fi"
    "\<exists>ti'. find_issue (snd (insert_link db inp ti n)) (inTo inp) = Some ti' \<and> teamId ti' = teamId ti
       \<and> supersededById ti' = supersededById ti"
proof -
  have ids: "issueId fi = inFrom inp" "issueId ti = inTo inp" "inFrom inp \<noteq> inTo inp"
    "find_row issueId (inFrom inp) (issues db) = Some fi" "find_row issueId (inTo inp) (issues db) = Some ti"
    using link_checked_ids [OF assms] assms(2) by (auto simp: link_checked_def find_issue_def)
  show "fst (insert_link db inp ti n) \<in> set (links (snd (insert_link db inp ti n)))"
    "same_edge (inFrom inp) (inTo inp) (inType inp) (fst (insert_link db inp ti n))"
    by (auto simp: insert_link_def Let_def same_edge_def)
  show "find_issue (snd (insert_link db inp ti n)) (inFrom inp) = Some fi"
    by (simp add: insert_link_def Let_def find_issue_def ids find_row_update)
  show "\<exists>ti'. find_issue (snd (insert_link db inp ti n)) (inTo inp) = Some ti' \<and> teamId ti' = teamId ti
       \<and> supersededById ti' = supersededById ti"
    by (simp add: insert_link_def Let_def find_issue_def ids find_row_update)
qed

text \<open>
  Creating a link twice is the same as creating it once: the second call reports that the edge
  already exists, returns the same row and changes nothing.
\<close>

lemma createWorkLink_idempotent:
  assumes "graph_ok db" "newId \<notin> linkId ` set (links db)"
    and "createWorkLinkDetailed db inp newId = Inr ((created, l), db')"
  shows "createWorkLinkDetailed db' inp otherId = Inr ((False, l), db')"
proof -
  obtain fi ti where chk: "link_checked db inp fi ti"
    and res: "case find (same_edge (inFrom inp) (inTo inp) (inType inp)) (links db) of
          None \<Rightarrow> created \<and> l = fst (insert_link db inp ti newId) \<and> db' = snd (insert_link db inp ti newId)
        | Some existing \<Rightarrow> \<not> created \<and> l = existing \<and>
            db' = (if inType inp = CONTAINS \<and> parentId ti \<noteq> Some (inFrom inp)
                   then projectParent ti (Some (inFrom inp)) (inActor inp) db else db)"
    using assms(3) unfolding createWorkLinkDetailed_Inr by blast
  show ?thesis
  proof (cases "find (same_edge (inFrom inp) (inTo inp) (inType inp)) (links db)")
    case None
    with res have eq: "l = fst (insert_link db inp ti newId)" "db' = snd (insert_link db inp ti newId)" by auto
    obtain ti' where ti': "find_issue db' (inTo inp) = Some ti'" "teamId ti' = teamId ti"
      "supersededById ti' = supersededById ti"
      using insert_link_finds(4) [OF assms(1) chk] eq by auto
    show ?thesis
      using insert_link_finds(1-3) [OF assms(1) chk, of newId] ti' chk eq
      by (intro create_existing [OF create_keeps_graph_ok [OF assms], where fi = fi and ti = ti']) (auto simp: link_checked_def)
  next
    case (Some k)
    with res existing_contains_projected [OF assms(1) chk _ Some] have "db' = db" "l = k" by auto
    moreover have "k \<in> set (links db)" "same_edge (inFrom inp) (inTo inp) (inType inp) k"
      using Some by (auto simp: find_Some_iff)
    ultimately show ?thesis
      using chk by (auto simp: link_checked_def intro!: create_existing [OF assms(1), where fi = fi and ti = ti])
  qed
qed

text \<open>
  C29: the descendants the hierarchy walk returns are exactly the items strictly below the root in the
  containment relation, each listed once.
\<close>

theorem getContainsDescendantIds_correct:
  assumes "graph_ok db"
  shows "set (getContainsDescendantIds db rootId) = (edges db CONTAINS)\<^sup>+ `` {rootId}
    \<and> distinct (getContainsDescendantIds db rootId)"
proof -
  have "search_ok db rootId [] [rootId]" by (simp add: search_ok_def)
  from descendants_loop_correct [OF this] child_rel_edges [OF assms]
  have "set (getContainsDescendantIds db rootId) = (edges db CONTAINS)\<^sup>+ `` {rootId} - {rootId}"
    "distinct (getContainsDescendantIds db rootId)"
    by (simp_all add: getContainsDescendantIds_def)
  moreover have "(rootId, rootId) \<notin> (edges db CONTAINS)\<^sup>+"
    using graph_okD(8) [OF assms] by (simp add: acyclic_def)
  ultimately show ?thesis by auto
qed

theorem getContainsDescendantIds_correct_witness:
  "set (getContainsDescendantIds sample_db ''p'') = (edges sample_db CONTAINS)\<^sup>+ `` {''p''}
   \<and> distinct (getContainsDescendantIds sample_db ''p'')"
  by (rule getContainsDescendantIds_correct [OF sample_ok])

text \<open>
  Link operations never rewrite history: over any run of them the audit log only grows at its end,
  and no item disappears or goes back to an earlier revision.
\<close>

lemma link_runs_keep_history:
  assumes "graph_ok db" "graph_step\<^sup>*\<^sup>* db db'"
  shows "(\<exists>rows. audits db' = audits db @ rows)
    \<and> (\<forall>i r. find_issue db i = Some r \<longrightarrow> (\<exists>r'. find_issue db' i = Some r' \<and> revision r \<le> revision r'))"
  using link_runs.run_mono [OF assms(2,1)] by (simp add: history_le_def)




end
