(* ===== verification/Json.thy ===== *)
theory Json
  imports Prelude
begin

text \<open>
  Untyped values: what \<^verbatim>\<open>JSON.parse\<close> returns and what a JSON column holds. Policies, delivery
  plans and acceptance contracts reach the server in this form and are narrowed by the code itself,
  so its checks are modelled on these values. An object is the list of its entries in the order
  \<^verbatim>\<open>Object.entries\<close> gives them; reading an absent property is \<open>None\<close>
  (\<^verbatim>\<open>undefined\<close>). Numbers are exact rationals; \<^verbatim>\<open>String(x)\<close> prints at most twenty
  fractional digits and no exponent.
\<close>

datatype json =
    JNull
  | JBool bool
  | JNum rat
  | JStr string
  | JArr "json list"
  | JObj "(string \<times> json) list"

text \<open>An operation the value does not have (calling a method of the wrong type) throws.\<close>

datatype js_error = TypeError string

definition obj_get :: "string \<Rightarrow> (string \<times> json) list \<Rightarrow> json option" where
  "obj_get k kvs = map_of kvs k"

text \<open>\<^verbatim>\<open>value.k\<close> on any value that is not null: only objects have the properties read here.\<close>

fun json_get :: "string \<Rightarrow> json \<Rightarrow> json option" where
  "json_get k (JObj kvs) = obj_get k kvs"
| "json_get k v = None"

fun json_truthy :: "json \<Rightarrow> bool" where
  "json_truthy JNull = False"
| "json_truthy (JBool b) = b"
| "json_truthy (JNum n) = (n \<noteq> 0)"
| "json_truthy (JStr s) = (s \<noteq> [])"
| "json_truthy (JArr xs) = True"
| "json_truthy (JObj kvs) = True"

definition opt_truthy :: "json option \<Rightarrow> bool" where
  "opt_truthy v \<longleftrightarrow> (case v of None \<Rightarrow> False | Some j \<Rightarrow> json_truthy j)"

section \<open>Text of a value\<close>

fun nat_text :: "nat \<Rightarrow> string" where
  "nat_text n = (if n < 10 then [char_of (48 + n)] else nat_text (n div 10) @ [char_of (48 + n mod 10)])"

declare nat_text.simps [simp del]

fun frac_digits :: "nat \<Rightarrow> rat \<Rightarrow> string" where
  "frac_digits 0 x = []"
| "frac_digits (Suc k) x =
     (if x = 0 then [] else char_of (48 + nat \<lfloor>10 * x\<rfloor>) # frac_digits k (10 * x - of_int \<lfloor>10 * x\<rfloor>))"

definition unsigned_text :: "rat \<Rightarrow> string" where
  "unsigned_text x =
     (let f = x - of_int \<lfloor>x\<rfloor>
      in nat_text (nat \<lfloor>x\<rfloor>) @ (if f = 0 then [] else CHR ''.'' # frac_digits 20 f))"

definition js_num_text :: "rat \<Rightarrow> string" where
  "js_num_text x = (if x < 0 then CHR ''-'' # unsigned_text (- x) else unsigned_text x)"

definition bool_text :: "bool \<Rightarrow> string" where
  "bool_text b = (if b then ''true'' else ''false'')"

text \<open>\<^verbatim>\<open>String(value)\<close>: an array joins its elements with commas, null elements as empty text.\<close>

fun js_string :: "json \<Rightarrow> string" and js_element_strings :: "json list \<Rightarrow> string list" where
  "js_string JNull = ''null''"
| "js_string (JBool b) = bool_text b"
| "js_string (JNum n) = js_num_text n"
| "js_string (JStr s) = s"
| "js_string (JArr xs) = js_join '','' (js_element_strings xs)"
| "js_string (JObj kvs) = ''[object Object]''"
| "js_element_strings [] = []"
| "js_element_strings (x # xs) = (if x = JNull then [] else js_string x) # js_element_strings xs"

text \<open>\<^verbatim>\<open>Number(value)\<close> as the comparison operators apply it; \<open>None\<close> is \<^verbatim>\<open>NaN\<close>.\<close>

fun js_to_number :: "json \<Rightarrow> rat option" where
  "js_to_number JNull = Some 0"
| "js_to_number (JBool b) = Some (if b then 1 else 0)"
| "js_to_number (JNum n) = Some n"
| "js_to_number (JStr s) = js_number s"
| "js_to_number v = js_number (js_string v)"

text \<open>\<^verbatim>\<open>JSON.stringify\<close> without indentation.\<close>

definition hex_digit :: "nat \<Rightarrow> char" where
  "hex_digit n = (if n < 10 then char_of (48 + n) else char_of (87 + n))"

definition json_escape_char :: "char \<Rightarrow> string" where
  "json_escape_char c =
     (let n = (of_char c :: nat); bs = char_of (92 :: nat) in
      if n = 34 \<or> n = 92 then [bs, c]
      else if n = 8 then [bs, CHR ''b''] else if n = 9 then [bs, CHR ''t'']
      else if n = 10 then [bs, CHR ''n''] else if n = 12 then [bs, CHR ''f'']
      else if n = 13 then [bs, CHR ''r'']
      else if n < 32 then [bs] @ ''u00'' @ [hex_digit (n div 16), hex_digit (n mod 16)]
      else [c])"

definition json_quote :: "string \<Rightarrow> string" where
  "json_quote s = [char_of (34 :: nat)] @ concat (map json_escape_char s) @ [char_of (34 :: nat)]"

fun json_text :: "json \<Rightarrow> string"
  and json_elements_text :: "json list \<Rightarrow> string list"
  and json_entries_text :: "(string \<times> json) list \<Rightarrow> string list" where
  "json_text JNull = ''null''"
| "json_text (JBool b) = bool_text b"
| "json_text (JNum n) = js_num_text n"
| "json_text (JStr s) = json_quote s"
| "json_text (JArr xs) = ''['' @ js_join '','' (json_elements_text xs) @ '']''"
| "json_text (JObj kvs) = ''{'' @ js_join '','' (json_entries_text kvs) @ ''}''"
| "json_elements_text [] = []"
| "json_elements_text (x # xs) = json_text x # json_elements_text xs"
| "json_entries_text [] = []"
| "json_entries_text ((k, v) # kvs) = (json_quote k @ '':'' @ json_text v) # json_entries_text kvs"

section \<open>Sizes, for recursion into properties and elements\<close>

lemma size_element: "x \<in> set xs \<Longrightarrow> size x < size (JArr xs)"
  by (induction xs) auto

lemma size_entry: "(k, v) \<in> set kvs \<Longrightarrow> size v < size (JObj kvs)"
  by (induction kvs) auto

lemma size_obj_get: "obj_get k kvs = Some v \<Longrightarrow> size v < size (JObj kvs)"
  unfolding obj_get_def by (rule size_entry) (rule map_of_SomeD)

lemma size_obj_array:
  "obj_get k kvs = Some (JArr xs) \<Longrightarrow> x \<in> set xs \<Longrightarrow> size x < size (JObj kvs)"
  by (blast dest: size_obj_get size_element order_less_trans)

section \<open>Printing a natural number is injective\<close>

lemma nat_text_digits: "list_all is_digit (nat_text n)"
proof (induction n rule: nat_text.induct)
  case (1 n)
  have digit: "is_digit (char_of (48 + k))" if "k < 10" for k :: nat
    using that by (simp add: is_digit_def)
  show ?case
  proof (cases "n < 10")
    case True
    then show ?thesis by (simp add: nat_text.simps digit)
  next
    case False
    with 1 have "list_all is_digit (nat_text (n div 10))" by blast
    with False show ?thesis by (subst nat_text.simps) (simp add: digit)
  qed
qed

lemma digits_value_snoc: "digits_value acc (s @ [c]) = 10 * digits_value acc s + (of_char c - 48)"
  by (induction s arbitrary: acc) auto

lemma digits_value_nat_text: "digits_value 0 (nat_text n) = n"
proof (induction n rule: nat_text.induct)
  case (1 n)
  show ?case
  proof (cases "n < 10")
    case True
    then show ?thesis by (simp add: nat_text.simps)
  next
    case False
    with 1 have "digits_value 0 (nat_text (n div 10)) = n div 10" by blast
    with False show ?thesis by (subst nat_text.simps) (simp add: digits_value_snoc)
  qed
qed

lemma nat_text_inject: "nat_text m = nat_text n \<longleftrightarrow> m = n"
  by (metis digits_value_nat_text)

lemma nat_text_not_Nil [simp]: "nat_text n \<noteq> []"
  by (subst nat_text.simps) simp

end
