(* ===== verification/Autonomy.thy ===== *)
theory Autonomy
  imports Json
begin

text \<open>
  Who decides at each human gate (\<^verbatim>\<open>packages/server/src/autonomy-policy.ts\<close>): the level presets,
  the validation of a policy a person typed, the evaluation of a condition on the facts of an item,
  the resolution of workspace, team, project and agent trust into one level and one rule per gate,
  and the decision for one item. Conditions and gate tables are JSON values, because a stored policy
  is cast and not rebuilt: what the validator does not look at reaches the resolver.

  A decider that is no text, which validation refuses, is read as the empty text: like every text
  other than \<open>auto\<close>, \<open>human\<close> and \<open>none\<close> it equals none of them.
\<close>

section \<open>Gates, deciders and conditions\<close>

datatype gate =
  candidate_commit | contract_amendment | review_accept | agent_delegation | merge_signal | spend_budget

definition GATES :: "gate list" where
  "GATES = [candidate_commit, contract_amendment, review_accept, agent_delegation, merge_signal, spend_budget]"

fun gate_name :: "gate \<Rightarrow> string" where
  "gate_name candidate_commit = ''candidate_commit''"
| "gate_name contract_amendment = ''contract_amendment''"
| "gate_name review_accept = ''review_accept''"
| "gate_name agent_delegation = ''agent_delegation''"
| "gate_name merge_signal = ''merge_signal''"
| "gate_name spend_budget = ''spend_budget''"

definition CONDITION_FIELDS :: "string list" where
  "CONDITION_FIELDS =
     [''type'', ''labels'', ''priority'', ''source'', ''severity'', ''reproducibility'',
      ''has_steps'', ''has_acceptance'', ''amendment_fields'', ''auto_accept_grade'',
      ''pr_merged'', ''checks'', ''delivery_actions'', ''budget_remaining'', ''hops'']"

definition is_key_char :: "char \<Rightarrow> bool" where
  "is_key_char c \<longleftrightarrow> is_lower_letter c \<or> is_digit c \<or> c = CHR ''_''"

definition ATTR_CONDITION_FIELD :: "string \<Rightarrow> bool" where
  "ATTR_CONDITION_FIELD s \<longleftrightarrow>
     js_starts_with s ''attr.'' \<and>
     (case drop 5 s of
        [] \<Rightarrow> False
      | c # cs \<Rightarrow> is_lower_letter c \<and> list_all is_key_char cs \<and> 1 \<le> length cs \<and> length cs \<le> 39)"

fun isConditionField :: "json option \<Rightarrow> bool" where
  "isConditionField (Some (JStr s)) = (s \<in> set CONDITION_FIELDS \<or> ATTR_CONDITION_FIELD s)"
| "isConditionField v = False"

fun attrFieldsIn :: "json \<Rightarrow> string list"
  and attrFieldsInAll :: "json list \<Rightarrow> string list"
  and attrFieldsInEntries :: "(string \<times> json) list \<Rightarrow> string list" where
  "attrFieldsIn (JArr xs) = attrFieldsInAll xs"
| "attrFieldsIn (JObj node) =
     (case obj_get ''field'' node of
        Some (JStr s) \<Rightarrow> if ATTR_CONDITION_FIELD s then [s] else []
      | _ \<Rightarrow> []) @ attrFieldsInEntries node"
| "attrFieldsIn v = []"
| "attrFieldsInAll [] = []"
| "attrFieldsInAll (x # xs) = attrFieldsIn x @ attrFieldsInAll xs"
| "attrFieldsInEntries [] = []"
| "attrFieldsInEntries ((k, v) # kvs) =
     (if k \<noteq> ''field'' then attrFieldsIn v else []) @ attrFieldsInEntries kvs"

record gate_rule =
  decider :: string
  condition :: "json option"

definition leaf :: "string \<Rightarrow> string \<Rightarrow> json \<Rightarrow> json" where
  "leaf f op v = JObj [(''field'', JStr f), (op, v)]"

definition texts :: "string list \<Rightarrow> json" where
  "texts ss = JArr (map JStr ss)"

definition L1_COMMIT :: json where
  "L1_COMMIT = JObj [(''all'', JArr
     [leaf ''type'' ''in'' (texts [''bug'', ''improvement'']),
      leaf ''has_steps'' ''eq'' (JBool True),
      leaf ''has_acceptance'' ''eq'' (JBool True),
      leaf ''priority'' ''gte'' (JNum 2)])]"

definition L1_AMEND :: json where
  "L1_AMEND = leaf ''amendment_fields'' ''subset_of'' (texts [''verification''])"

definition L2_ACCEPT :: json where
  "L2_ACCEPT = JObj [(''all'', JArr
     [leaf ''auto_accept_grade'' ''eq'' (JStr ''CLEAR''),
      leaf ''pr_merged'' ''eq'' (JBool True),
      leaf ''checks'' ''eq'' (JStr ''green''),
      leaf ''reproducibility'' ''not_in'' (texts [''SOMETIMES'', ''ONCE'']),
      leaf ''severity'' ''not_in'' (texts [''SEV1'', ''SEV2''])])]"

definition L3_DELEGATE :: json where
  "L3_DELEGATE = JObj [(''all'', JArr
     [leaf ''budget_remaining'' ''gte'' (JNum 1),
      leaf ''hops'' ''lte'' (JNum 3)])]"

definition rule_only :: "string \<Rightarrow> gate_rule" where
  "rule_only d = \<lparr>decider = d, condition = None\<rparr>"

definition rule_if :: "string \<Rightarrow> json \<Rightarrow> gate_rule" where
  "rule_if d c = \<lparr>decider = d, condition = Some c\<rparr>"

text \<open>Levels run from 0 to 3; the table of level 3 is the last one.\<close>

fun LEVEL_PRESETS :: "nat \<Rightarrow> gate \<Rightarrow> gate_rule" where
  "LEVEL_PRESETS n candidate_commit =
     (if n = 0 then rule_only ''human'' else rule_if ''auto'' L1_COMMIT)"
| "LEVEL_PRESETS n contract_amendment =
     (if n = 0 then rule_only ''human''
      else if n \<le> 2 then rule_if ''auto'' L1_AMEND
      else rule_if ''auto'' (leaf ''amendment_fields'' ''subset_of'' (texts [''verification'', ''scope''])))"
| "LEVEL_PRESETS n review_accept =
     (if n \<le> 1 then rule_only ''human'' else rule_if ''auto'' L2_ACCEPT)"
| "LEVEL_PRESETS n agent_delegation =
     (if n \<le> 2 then rule_only ''none'' else rule_if ''auto'' L3_DELEGATE)"
| "LEVEL_PRESETS n merge_signal = rule_only ''human''"
| "LEVEL_PRESETS n spend_budget =
     (if n \<le> 2 then rule_only ''none'' else rule_if ''human'' (leaf ''budget_remaining'' ''lte'' (JNum 0)))"

record built_in_lock =
  lockName :: string
  lockGate :: gate
  lockWhen :: json
  lockReason :: string

definition BUILT_IN_LOCKS :: "built_in_lock list" where
  "BUILT_IN_LOCKS =
     [\<lparr>lockName = ''sev1_sev2_done'', lockGate = review_accept,
       lockWhen = leaf ''severity'' ''in'' (texts [''SEV1'', ''SEV2'']),
       lockReason = ''SEV1 / SEV2 incidents reach Done only through a person (INV-1126).''\<rparr>,
      \<lparr>lockName = ''deploy_or_credentials'', lockGate = review_accept,
       lockWhen = leaf ''delivery_actions'' ''in'' (texts [''deploy'']),
       lockReason = ''Work whose delivery includes a deploy or touches credentials waits for a person.''\<rparr>,
      \<lparr>lockName = ''intermittent_bug'', lockGate = review_accept,
       lockWhen = leaf ''reproducibility'' ''in'' (texts [''SOMETIMES'', ''ONCE'']),
       lockReason = ''A merged PR cannot prove an intermittent bug gone (INV-1122).''\<rparr>]"

section \<open>Validation\<close>

definition OPERATORS :: "string list" where
  "OPERATORS = [''eq'', ''in'', ''not_in'', ''gte'', ''lte'', ''subset_of'']"

definition group_key :: "(string \<times> json) list \<Rightarrow> string option" where
  "group_key node =
     (if obj_get ''all'' node \<noteq> None then Some ''all''
      else if obj_get ''any'' node \<noteq> None then Some ''any'' else None)"

definition operand_problems :: "string \<Rightarrow> string \<Rightarrow> json option \<Rightarrow> string list" where
  "operand_problems path op v =
     (if op \<in> {''in'', ''not_in'', ''subset_of''} \<and> \<not> (case v of Some (JArr xs) \<Rightarrow> True | _ \<Rightarrow> False)
      then [path @ ''.'' @ op @ '': must be a list''] else [])
     @ (if op \<in> {''gte'', ''lte''} \<and> \<not> (case v of Some (JNum n) \<Rightarrow> True | _ \<Rightarrow> False)
        then [path @ ''.'' @ op @ '': must be a number''] else [])"

definition leaf_problems :: "(string \<times> json) list \<Rightarrow> string \<Rightarrow> string list" where
  "leaf_problems node path =
     (let ops = filter (\<lambda>op. obj_get op node \<noteq> None) OPERATORS in
      (if \<not> isConditionField (obj_get ''field'' node)
       then [path @ ''.field: unknown field '' @
             (case obj_get ''field'' node of None \<Rightarrow> ''undefined'' | Some v \<Rightarrow> json_text v)] else [])
      @ (if length ops \<noteq> 1
         then [path @ '': exactly one of eq / in / not_in / gte / lte / subset_of''] else [])
      @ concat (map (\<lambda>op. operand_problems path op (obj_get op node)) ops))"

function validatePredicate :: "json \<Rightarrow> string \<Rightarrow> string list" where
  "validatePredicate value path =
     (case value of
        JObj node \<Rightarrow>
          (case group_key node of
             Some key \<Rightarrow>
               (case obj_get key node of
                  Some (JArr children) \<Rightarrow>
                    concat (map (\<lambda>p. validatePredicate (snd p)
                              (path @ ''.'' @ key @ ''['' @ nat_text (fst p) @ '']''))
                            (enumerate 0 children))
                | _ \<Rightarrow> [path @ ''.'' @ key @ '': must be a list''])
           | None \<Rightarrow> leaf_problems node path)
      | _ \<Rightarrow> [path @ '': must be an object''])"
  by pat_completeness auto
termination
proof (relation "measure (\<lambda>(v, path). size v)", goal_cases)
  case 1
  show ?case by simp
next
  case (2 val path node key v children p)
  then have "snd p \<in> set children"
    by (simp add: enumerate_snd)
  with 2 show ?case by (simp add: size_obj_array del: json.size)
qed

declare validatePredicate.simps [simp del]

text \<open>A table that is absent or null is no table.\<close>

definition rule_problems :: "string \<Rightarrow> json \<Rightarrow> string list" where
  "rule_problems g rule =
     (if \<not> (\<exists>x \<in> set GATES. gate_name x = g) then [''gates.'' @ g @ '': unknown gate'']
      else case rule of
        JObj kvs \<Rightarrow>
          (if obj_get ''decider'' kvs \<in> {Some (JStr ''human''), Some (JStr ''auto''), Some (JStr ''none'')}
           then [] else [''gates.'' @ g @ ''.decider: human / auto / none''])
          @ (case obj_get ''condition'' kvs of
               None \<Rightarrow> []
             | Some c \<Rightarrow> validatePredicate c (''gates.'' @ g @ ''.condition''))
      | JArr xs \<Rightarrow> [''gates.'' @ g @ ''.decider: human / auto / none'']
      | _ \<Rightarrow> [''gates.'' @ g @ '': must be an object''])"

fun validateGateTable :: "json option \<Rightarrow> string list" where
  "validateGateTable None = []"
| "validateGateTable (Some JNull) = []"
| "validateGateTable (Some (JObj kvs)) = concat (map (\<lambda>(g, rule). rule_problems g rule) kvs)"
| "validateGateTable (Some v) = [''gates: must be an object'']"

definition isAutonomyLevel :: "rat \<Rightarrow> bool" where
  "isAutonomyLevel v \<longleftrightarrow> v \<in> {0, 1, 2, 3}"

section \<open>Evaluation\<close>

type_synonym autonomy_facts = "string \<Rightarrow> json option"

fun asList :: "json option \<Rightarrow> json list" where
  "asList None = []"
| "asList (Some (JArr xs)) = xs"
| "asList (Some v) = [v]"

text \<open>Compared as text: \<open>None\<close> is the null of \<^verbatim>\<open>normalise\<close>.\<close>

definition normalise :: "json \<Rightarrow> string option" where
  "normalise item = (if item = JNull then None else Some (js_lower (js_string item)))"

definition number_le :: "json \<Rightarrow> json \<Rightarrow> bool" where
  "number_le a b =
     (case (js_to_number a, js_to_number b) of (Some x, Some y) \<Rightarrow> x \<le> y | _ \<Rightarrow> False)"

definition single_number :: "json list \<Rightarrow> bool" where
  "single_number values \<longleftrightarrow> (case values of [JNum n] \<Rightarrow> True | _ \<Rightarrow> False)"

fun lower_texts :: "json list \<Rightarrow> (js_error, string list) result" where
  "lower_texts [] = Inr []"
| "lower_texts (JStr s # xs) = bind_result (lower_texts xs) (\<lambda>ss. Inr (js_lower s # ss))"
| "lower_texts (v # xs) = Inl (TypeError ''item.toLowerCase is not a function'')"

definition is_text_in :: "string list \<Rightarrow> json \<Rightarrow> bool" where
  "is_text_in allowed item = (case item of JStr s \<Rightarrow> js_lower s \<in> set allowed | _ \<Rightarrow> False)"

definition list_operand :: "json \<Rightarrow> json list \<Rightarrow> (json list \<Rightarrow> bool) \<Rightarrow> (js_error, bool) result" where
  "list_operand operand values f =
     (if values = [] then Inr (f [])
      else case operand of JArr xs \<Rightarrow> Inr (f xs) | _ \<Rightarrow> Inl (TypeError ''map is not a function''))"

definition evaluate_leaf :: "(string \<times> json) list \<Rightarrow> autonomy_facts \<Rightarrow> (js_error, bool) result" where
  "evaluate_leaf node facts =
     (case (case obj_get ''field'' node of Some (JStr s) \<Rightarrow> facts s | _ \<Rightarrow> None) of
        None \<Rightarrow> Inr False
      | Some value \<Rightarrow>
          (let values = asList (Some value) in
           case obj_get ''eq'' node of
             Some v \<Rightarrow> Inr (length values = 1 \<and> normalise (hd values) = normalise v)
           | None \<Rightarrow>
           case obj_get ''in'' node of
             Some v \<Rightarrow> list_operand v values (\<lambda>xs. \<exists>x \<in> set values. normalise x \<in> normalise ` set xs)
           | None \<Rightarrow>
           case obj_get ''not_in'' node of
             Some v \<Rightarrow> list_operand v values (\<lambda>xs. \<forall>x \<in> set values. normalise x \<notin> normalise ` set xs)
           | None \<Rightarrow>
           case obj_get ''gte'' node of
             Some v \<Rightarrow> Inr (single_number values \<and> number_le v (hd values))
           | None \<Rightarrow>
           case obj_get ''lte'' node of
             Some v \<Rightarrow> Inr (single_number values \<and> number_le (hd values) v)
           | None \<Rightarrow>
           case obj_get ''subset_of'' node of
             Some (JArr xs) \<Rightarrow>
               bind_result (lower_texts xs) (\<lambda>allowed.
                 Inr (values \<noteq> [] \<and> list_all (is_text_in allowed) values))
           | Some v \<Rightarrow> Inl (TypeError ''map is not a function'')
           | None \<Rightarrow> Inr False))"

function evaluatePredicate :: "json \<Rightarrow> autonomy_facts \<Rightarrow> (js_error, bool) result" where
  "evaluatePredicate predicate facts =
     (case predicate of
        JObj node \<Rightarrow>
          (case obj_get ''all'' node of
             Some (JArr children) \<Rightarrow> every_result (\<lambda>child. evaluatePredicate child facts) children
           | Some v \<Rightarrow> Inl (TypeError ''every is not a function'')
           | None \<Rightarrow>
               (case obj_get ''any'' node of
                  Some (JArr children) \<Rightarrow> some_result (\<lambda>child. evaluatePredicate child facts) children
                | Some v \<Rightarrow> Inl (TypeError ''some is not a function'')
                | None \<Rightarrow> evaluate_leaf node facts))
      | _ \<Rightarrow> Inl (TypeError ''cannot use the in operator''))"
  by pat_completeness auto
termination
  by (relation "measure (\<lambda>(v, facts). size v)") (simp_all add: size_obj_array del: json.size)

declare evaluatePredicate.simps [simp del]
section \<open>Resolution\<close>

datatype agent_trust = OBSERVE | TL1 | TL2 | TL3

fun TRUST_LEVEL :: "agent_trust \<Rightarrow> nat" where
  "TRUST_LEVEL OBSERVE = 0"
| "TRUST_LEVEL TL1 = 1"
| "TRUST_LEVEL TL2 = 2"
| "TRUST_LEVEL TL3 = 3"

record policy_row =
  prLevel :: rat
  prGates :: "json option"
  prLocked :: "string list"
  prObserveUntil :: "instant option"
  prPaused :: bool

record resolve_input =
  riWorkspace :: "policy_row option"
  riTeam :: "policy_row option"
  riProject :: "policy_row option"
  riTrust :: "agent_trust option"
  riNow :: instant

record resolved_gate =
  rgDecider :: string
  rgCondition :: "json option"
  rgFrom :: string
  rgLocked :: "string option"

record resolved_autonomy =
  raLevel :: nat
  raSource :: string
  raCeiling :: nat
  raRequested :: nat
  raRequestedBy :: string
  raTrust :: "agent_trust option"
  raObserving :: bool
  raPaused :: bool
  raGates :: "gate \<Rightarrow> resolved_gate"
  raLocked :: "string list"

definition clampLevel :: "rat \<Rightarrow> nat" where
  "clampLevel v = nat (max 0 (min 3 \<lfloor>v\<rfloor>))"

text \<open>\<^verbatim>\<open>{ ...rule, from }\<close>: every property of the stored rule is kept, \<open>locked\<close> too.\<close>

definition spread_rule :: "json \<Rightarrow> string \<Rightarrow> resolved_gate" where
  "spread_rule rule src =
     \<lparr>rgDecider = (case json_get ''decider'' rule of Some (JStr d) \<Rightarrow> d | _ \<Rightarrow> []),
      rgCondition = json_get ''condition'' rule,
      rgFrom = src,
      rgLocked = (case json_get ''locked'' rule of
                    Some v \<Rightarrow> if json_truthy v then Some (js_string v) else None | None \<Rightarrow> None)\<rparr>"

definition stored_rule :: "policy_row option \<Rightarrow> gate \<Rightarrow> json option" where
  "stored_rule row g =
     (case row of
        None \<Rightarrow> None
      | Some r \<Rightarrow> (case prGates r of None \<Rightarrow> None | Some t \<Rightarrow> json_get (gate_name g) t))"

definition apply_scope ::
  "nat \<Rightarrow> gate \<Rightarrow> string \<times> policy_row option \<Rightarrow> resolved_gate \<Rightarrow> resolved_gate" where
  "apply_scope lvl g scope resolved =
     (case stored_rule (snd scope) g of
        None \<Rightarrow> resolved
      | Some rule \<Rightarrow>
          if \<not> json_truthy rule then resolved
          else if rgDecider (spread_rule rule (fst scope)) = ''auto''
                  \<and> decider (LEVEL_PRESETS lvl g) \<noteq> ''auto''
          then resolved
          else spread_rule rule (fst scope))"

definition resolve_gate :: "resolve_input \<Rightarrow> nat \<Rightarrow> gate \<Rightarrow> resolved_gate" where
  "resolve_gate inp lvl g =
     fold (apply_scope lvl g)
       [(''workspace'', riWorkspace inp), (''team'', riTeam inp), (''project'', riProject inp)]
       \<lparr>rgDecider = decider (LEVEL_PRESETS lvl g), rgCondition = condition (LEVEL_PRESETS lvl g),
        rgFrom = ''preset'', rgLocked = None\<rparr>"

definition apply_lock :: "built_in_lock \<Rightarrow> (gate \<Rightarrow> resolved_gate) \<Rightarrow> gate \<Rightarrow> resolved_gate" where
  "apply_lock lock gates =
     (let rule = gates (lockGate lock) in
      if rgDecider rule \<noteq> ''auto'' then gates
      else gates(lockGate lock := rule\<lparr>rgLocked :=
             Some (case rgLocked rule of
                     Some s \<Rightarrow> s @ '','' @ lockName lock | None \<Rightarrow> lockName lock)\<rparr>))"

definition resolveAutonomy :: "resolve_input \<Rightarrow> resolved_autonomy" where
  "resolveAutonomy inp =
     (let paused = (case riWorkspace inp of None \<Rightarrow> False | Some w \<Rightarrow> prPaused w);
          ceiling = (if paused then 0
                     else clampLevel (case riWorkspace inp of None \<Rightarrow> 0 | Some w \<Rightarrow> prLevel w));
          row = (case riProject inp of Some p \<Rightarrow> Some p | None \<Rightarrow> riTeam inp);
          requestedBy = (if riProject inp \<noteq> None then ''project'' else if riTeam inp \<noteq> None then ''team''
                         else if riWorkspace inp \<noteq> None then ''workspace'' else ''default'');
          requested = clampLevel (case row of None \<Rightarrow> 0 | Some r \<Rightarrow> prLevel r);
          (level1, source1) =
            (if ceiling < requested then (ceiling, if paused then ''paused'' else ''ceiling'')
             else (requested, requestedBy));
          (lvl, source) =
            (case riTrust inp of
               None \<Rightarrow> (level1, source1)
             | Some t \<Rightarrow> if TRUST_LEVEL t < level1 then (TRUST_LEVEL t, ''agent_trust'') else (level1, source1));
          observing = (case row of None \<Rightarrow> False
                       | Some r \<Rightarrow> (case prObserveUntil r of None \<Rightarrow> False | Some u \<Rightarrow> u > riNow inp))
      in \<lparr>raLevel = lvl, raSource = source, raCeiling = ceiling, raRequested = requested,
          raRequestedBy = requestedBy, raTrust = riTrust inp, raObserving = observing, raPaused = paused,
          raGates = fold apply_lock BUILT_IN_LOCKS (resolve_gate inp lvl),
          raLocked = js_uniq (map lockName BUILT_IN_LOCKS @
                       (case riWorkspace inp of None \<Rightarrow> [] | Some w \<Rightarrow> prLocked w))\<rparr>)"

section \<open>The decision for one item\<close>

record decision =
  dDecider :: string
  dMatched :: bool
  dReason :: string

definition human_decision :: "bool \<Rightarrow> string \<Rightarrow> decision" where
  "human_decision m r = \<lparr>dDecider = ''human'', dMatched = m, dReason = r\<rparr>"

fun matched_lock :: "built_in_lock list \<Rightarrow> gate \<Rightarrow> autonomy_facts \<Rightarrow> (js_error, built_in_lock option) result" where
  "matched_lock [] g facts = Inr None"
| "matched_lock (lock # locks) g facts =
     (if lockGate lock = g
      then bind_result (evaluatePredicate (lockWhen lock) facts)
             (\<lambda>b. if b then Inr (Some lock) else matched_lock locks g facts)
      else matched_lock locks g facts)"

definition decide :: "resolved_autonomy \<Rightarrow> gate \<Rightarrow> autonomy_facts \<Rightarrow> (js_error, decision) result" where
  "decide resolved g facts =
     (let rule = raGates resolved g; lvl = ''L'' @ nat_text (raLevel resolved) in
      if rgDecider rule = ''none''
      then Inr \<lparr>dDecider = ''none'', dMatched = False,
                dReason = gate_name g @ '' is not available at '' @ lvl @ ''.''\<rparr>
      else if rgDecider rule = ''human''
      then Inr (human_decision False (gate_name g @ '' waits for a person at '' @ lvl @ ''.''))
      else bind_result (matched_lock BUILT_IN_LOCKS g facts) (\<lambda>lock.
        case lock of
          Some l \<Rightarrow> Inr (human_decision False (''Locked: '' @ lockReason l))
        | None \<Rightarrow>
            bind_result (if opt_truthy (rgCondition rule)
                         then evaluatePredicate (the (rgCondition rule)) facts else Inr True)
              (\<lambda>matched.
                 if \<not> matched
                 then Inr (human_decision False (''Escalated: '' @ gate_name g @ '' condition not met.''))
                 else if raObserving resolved
                 then Inr (human_decision True (''Would be automatic under '' @ lvl @ '' (observing).''))
                 else Inr \<lparr>dDecider = ''auto'', dMatched = True,
                           dReason = ''Automatic under '' @ lvl @ ''.''\<rparr>)))"

section \<open>Facts a condition looked at\<close>

function condition_fields :: "json \<Rightarrow> (js_error, string list) result" where
  "condition_fields predicate =
     (case predicate of
        JObj node \<Rightarrow>
          (case group_key node of
             Some key \<Rightarrow>
               (case obj_get key node of
                  Some (JArr children) \<Rightarrow>
                    bind_result (map_result condition_fields children) (\<lambda>fss. Inr (concat fss))
                | _ \<Rightarrow> Inl (TypeError ''forEach is not a function''))
           | None \<Rightarrow> Inr (case obj_get ''field'' node of Some (JStr s) \<Rightarrow> [s] | _ \<Rightarrow> []))
      | _ \<Rightarrow> Inl (TypeError ''cannot use the in operator''))"
  by pat_completeness auto
termination
  by (relation "measure size") (simp_all add: size_obj_array del: json.size)

definition fact_text :: "string \<Rightarrow> json \<Rightarrow> string" where
  "fact_text f v = f @ '' '' @ (case v of JArr xs \<Rightarrow> js_join ''/'' (js_element_strings xs) | _ \<Rightarrow> js_string v)"

definition describeFacts :: "json option \<Rightarrow> autonomy_facts \<Rightarrow> (js_error, string) result" where
  "describeFacts predicate facts =
     (case predicate of
        None \<Rightarrow> Inr []
      | Some p \<Rightarrow>
          bind_result (condition_fields p) (\<lambda>fields.
            Inr (js_join '', ''
              (map (\<lambda>f. fact_text f (the (facts f)))
                (filter (\<lambda>f. facts f \<noteq> None \<and> facts f \<noteq> Some JNull) (js_uniq fields))))))"

section \<open>Deciders of a resolved policy\<close>

lemma apply_lock_keeps:
  "rgDecider (apply_lock l gates g) = rgDecider (gates g)"
  "rgCondition (apply_lock l gates g) = rgCondition (gates g)"
  by (simp_all add: apply_lock_def Let_def)

lemma fold_apply_lock_keeps:
  "rgDecider (fold apply_lock ls gates g) = rgDecider (gates g)"
  "rgCondition (fold apply_lock ls gates g) = rgCondition (gates g)"
  by (induction ls arbitrary: gates) (simp_all add: apply_lock_keeps)

lemma resolve_fields:
  "raPaused (resolveAutonomy inp) = (case riWorkspace inp of None \<Rightarrow> False | Some w \<Rightarrow> prPaused w)"
  "raGates (resolveAutonomy inp) =
     fold apply_lock BUILT_IN_LOCKS (resolve_gate inp (raLevel (resolveAutonomy inp)))"
  "raTrust (resolveAutonomy inp) = riTrust inp"
  by (simp_all add: resolveAutonomy_def Let_def split: prod.splits)

definition trust_cap :: "agent_trust option \<Rightarrow> nat" where
  "trust_cap t = (case t of None \<Rightarrow> 3 | Some x \<Rightarrow> TRUST_LEVEL x)"

lemma clampLevel_le: "clampLevel v \<le> 3"
  by (simp add: clampLevel_def)

lemma clampLevel_0 [simp]: "clampLevel 0 = 0"
  by (simp add: clampLevel_def)

lemma resolve_observing:
  "raObserving (resolveAutonomy inp) =
     (case (case riProject inp of Some p \<Rightarrow> Some p | None \<Rightarrow> riTeam inp) of
        None \<Rightarrow> False
      | Some r \<Rightarrow> (case prObserveUntil r of None \<Rightarrow> False | Some u \<Rightarrow> u > riNow inp))"
  by (simp add: resolveAutonomy_def Let_def split: prod.splits)

lemma resolve_ceiling:
  "raCeiling (resolveAutonomy inp) =
     (case riWorkspace inp of None \<Rightarrow> 0 | Some w \<Rightarrow> if prPaused w then 0 else clampLevel (prLevel w))"
  by (cases "riWorkspace inp") (simp_all add: resolveAutonomy_def Let_def split: prod.splits)

lemma resolve_requested:
  "raRequested (resolveAutonomy inp) =
     (case riProject inp of
        Some p \<Rightarrow> clampLevel (prLevel p)
      | None \<Rightarrow> (case riTeam inp of Some t \<Rightarrow> clampLevel (prLevel t) | None \<Rightarrow> 0))"
  by (cases "riProject inp"; cases "riTeam inp")
    (simp_all add: resolveAutonomy_def Let_def split: prod.splits)

lemma raLevel_min:
  "raLevel (resolveAutonomy inp) =
     min (min (raCeiling (resolveAutonomy inp)) (raRequested (resolveAutonomy inp))) (trust_cap (riTrust inp))"
proof (cases "riTrust inp")
  case None
  have "raRequested (resolveAutonomy inp) \<le> 3"
    by (simp add: resolveAutonomy_def Let_def clampLevel_le split: prod.splits)
  with None show ?thesis
    by (simp add: resolveAutonomy_def Let_def trust_cap_def min_def)
next
  case (Some t)
  then show ?thesis
    by (simp add: resolveAutonomy_def Let_def trust_cap_def min_def)
qed

lemma apply_scope_auto:
  "rgDecider (apply_scope lvl g scope r) = ''auto'' \<Longrightarrow>
   decider (LEVEL_PRESETS lvl g) = ''auto'' \<or> rgDecider r = ''auto''"
  by (auto simp: apply_scope_def split: option.splits if_splits)

lemma fold_apply_scope_auto:
  "rgDecider (fold (apply_scope lvl g) scopes r) = ''auto'' \<Longrightarrow>
   decider (LEVEL_PRESETS lvl g) = ''auto'' \<or> rgDecider r = ''auto''"
  by (induction scopes arbitrary: r) (auto dest: apply_scope_auto)

lemma resolve_gate_auto:
  "rgDecider (resolve_gate inp lvl g) = ''auto'' \<Longrightarrow> decider (LEVEL_PRESETS lvl g) = ''auto''"
  unfolding resolve_gate_def by (drule fold_apply_scope_auto) simp

text \<open>The stored tables the resolver reads are the ones validation accepted.\<close>

definition valid_policy :: "policy_row option \<Rightarrow> bool" where
  "valid_policy row = (case row of None \<Rightarrow> True | Some r \<Rightarrow> validateGateTable (prGates r) = [])"

definition valid_policies :: "resolve_input \<Rightarrow> bool" where
  "valid_policies inp \<longleftrightarrow>
     valid_policy (riWorkspace inp) \<and> valid_policy (riTeam inp) \<and> valid_policy (riProject inp)"

definition DECIDERS :: "string set" where
  "DECIDERS = {''human'', ''auto'', ''none''}"

lemma gate_known [simp]: "\<exists>x \<in> set GATES. gate_name x = gate_name g"
  by (cases g) (simp_all add: GATES_def)

lemma rule_problems_decider:
  assumes "rule_problems (gate_name g) rule = []"
  shows "rgDecider (spread_rule rule src) \<in> DECIDERS"
  using assms
  by (cases rule) (auto simp: rule_problems_def spread_rule_def DECIDERS_def split: if_splits)

lemma stored_rule_decider:
  assumes "valid_policy row" and "stored_rule row g = Some rule"
  shows "rgDecider (spread_rule rule src) \<in> DECIDERS"
proof -
  from assms(2) obtain r t where row: "row = Some r" "prGates r = Some t" "json_get (gate_name g) t = Some rule"
    by (auto simp: stored_rule_def split: option.splits)
  from row(3) obtain kvs where t: "t = JObj kvs" "obj_get (gate_name g) kvs = Some rule"
    by (cases t) auto
  from assms(1) row t have "\<forall>(k, v) \<in> set kvs. rule_problems k v = []"
    by (auto simp: valid_policy_def)
  moreover from t(2) have "(gate_name g, rule) \<in> set kvs"
    unfolding obj_get_def by (rule map_of_SomeD)
  ultimately show ?thesis by (blast intro: rule_problems_decider)
qed

lemma apply_scope_decider:
  "valid_policy (snd scope) \<Longrightarrow> rgDecider r \<in> DECIDERS \<Longrightarrow> rgDecider (apply_scope lvl g scope r) \<in> DECIDERS"
  unfolding apply_scope_def by (auto split: option.splits dest: stored_rule_decider)

lemma preset_decider: "decider (LEVEL_PRESETS lvl g) \<in> DECIDERS"
  by (cases g) (simp_all add: rule_only_def rule_if_def DECIDERS_def)

lemma resolve_gate_decider: "valid_policies inp \<Longrightarrow> rgDecider (resolve_gate inp lvl g) \<in> DECIDERS"
  unfolding resolve_gate_def valid_policies_def
  by (simp add: apply_scope_decider preset_decider)

text \<open>The lowest level whose preset decides a gate automatically.\<close>

fun opens_at :: "gate \<Rightarrow> nat option" where
  "opens_at candidate_commit = Some 1"
| "opens_at contract_amendment = Some 1"
| "opens_at review_accept = Some 2"
| "opens_at agent_delegation = Some 3"
| "opens_at merge_signal = None"
| "opens_at spend_budget = None"

lemma preset_auto_iff:
  "decider (LEVEL_PRESETS lvl g) = ''auto'' \<longleftrightarrow> (\<exists>n. opens_at g = Some n \<and> n \<le> lvl)"
  by (cases g) (auto simp: rule_only_def rule_if_def)

lemma matched_lock_None:
  "matched_lock locks g facts = Inr None \<longleftrightarrow>
     (\<forall>l \<in> set locks. lockGate l = g \<longrightarrow> evaluatePredicate (lockWhen l) facts = Inr False)"
  by (induction locks) (auto split: if_splits)

lemma decide_auto_eq:
  "(\<exists>d. decide r g facts = Inr d \<and> dDecider d = ''auto'') \<longleftrightarrow>
     rgDecider (raGates r g) \<noteq> ''none'' \<and> rgDecider (raGates r g) \<noteq> ''human'' \<and>
     matched_lock BUILT_IN_LOCKS g facts = Inr None \<and>
     (opt_truthy (rgCondition (raGates r g)) \<longrightarrow>
        evaluatePredicate (the (rgCondition (raGates r g))) facts = Inr True) \<and>
     \<not> raObserving r"
  by (cases "matched_lock BUILT_IN_LOCKS g facts";
      cases "evaluatePredicate (the (rgCondition (raGates r g))) facts")
    (auto simp: decide_def Let_def human_decision_def split: option.splits if_splits)

lemma resolved_auto_level:
  assumes "valid_policies inp"
    and "decide (resolveAutonomy inp) g facts = Inr d" and "dDecider d = ''auto''"
  shows "(\<exists>n. opens_at g = Some n \<and> n \<le> raLevel (resolveAutonomy inp)) \<and> \<not> raPaused (resolveAutonomy inp)"
proof -
  let ?r = "resolveAutonomy inp"
  let ?lvl = "raLevel ?r"
  from assms(2,3) have "rgDecider (raGates ?r g) \<noteq> ''none'' \<and> rgDecider (raGates ?r g) \<noteq> ''human''"
    using decide_auto_eq [of ?r g facts] by blast
  moreover have "rgDecider (raGates ?r g) = rgDecider (resolve_gate inp ?lvl g)"
    by (simp add: resolve_fields fold_apply_lock_keeps)
  moreover have "rgDecider (resolve_gate inp ?lvl g) \<in> DECIDERS"
    using assms(1) by (rule resolve_gate_decider)
  ultimately have "rgDecider (resolve_gate inp ?lvl g) = ''auto''"
    by (auto simp: DECIDERS_def)
  then have opened: "\<exists>n. opens_at g = Some n \<and> n \<le> ?lvl"
    using resolve_gate_auto preset_auto_iff by blast
  have "0 < n" if "opens_at g = Some n" for n using that by (cases g) auto
  with opened have "0 < ?lvl" by fastforce
  moreover have "raPaused ?r \<Longrightarrow> ?lvl = 0"
    by (simp add: raLevel_min resolveAutonomy_def Let_def split: prod.splits option.splits)
  ultimately show ?thesis using opened by auto
qed

section \<open>Conditions: totality and monotonicity\<close>

text \<open>
  What the type of a condition asks of a \<^verbatim>\<open>subset_of\<close> operand and validation does not check:
  that its elements are texts.
\<close>

definition subset_operand_texts :: "(string \<times> json) list \<Rightarrow> bool" where
  "subset_operand_texts node =
     (case obj_get ''subset_of'' node of
        Some (JArr xs) \<Rightarrow> list_all (\<lambda>x. \<exists>s. x = JStr s) xs | _ \<Rightarrow> True)"

function subset_texts :: "json \<Rightarrow> bool" where
  "subset_texts predicate =
     (case predicate of
        JObj node \<Rightarrow>
          (case group_key node of
             Some key \<Rightarrow>
               (case obj_get key node of Some (JArr children) \<Rightarrow> list_all subset_texts children | _ \<Rightarrow> True)
           | None \<Rightarrow> subset_operand_texts node)
      | _ \<Rightarrow> True)"
  by pat_completeness auto
termination
  by (relation "measure size") (simp_all add: size_obj_array del: json.size)

declare subset_texts.simps [simp del]

lemma lower_texts_ok: "list_all (\<lambda>x. \<exists>s. x = JStr s) xs \<Longrightarrow> \<exists>ss. lower_texts xs = Inr ss"
  by (induction xs) auto

lemma operand_checked:
  assumes "leaf_problems node path = []" and "obj_get op node = Some v" and "op \<in> set OPERATORS"
  shows "operand_problems path op (Some v) = []"
proof -
  from assms(2,3) have "op \<in> set (filter (\<lambda>op. obj_get op node \<noteq> None) OPERATORS)" by simp
  moreover from assms(1)
  have "\<forall>op \<in> set (filter (\<lambda>op. obj_get op node \<noteq> None) OPERATORS). operand_problems path op (obj_get op node) = []"
    unfolding leaf_problems_def Let_def append_is_Nil_conv concat_eq_Nil_conv by simp
  ultimately show ?thesis using assms(2) by metis
qed

lemma list_operand_checked:
  assumes "leaf_problems node path = []" and "obj_get op node = Some v"
    and "op \<in> {''in'', ''not_in'', ''subset_of''}"
  shows "\<exists>xs. v = JArr xs"
proof -
  from assms(3) have "op \<in> set OPERATORS" by (auto simp: OPERATORS_def)
  with assms have "operand_problems path op (Some v) = []" by (blast intro: operand_checked)
  with assms(3) show ?thesis by (cases v) (auto simp: operand_problems_def)
qed

lemma evaluate_leaf_ok:
  assumes "leaf_problems node path = []" and "subset_operand_texts node"
  shows "is_ok (evaluate_leaf node facts)"
proof (cases "case obj_get ''field'' node of Some (JStr s) \<Rightarrow> facts s | _ \<Rightarrow> None")
  case None
  then show ?thesis unfolding evaluate_leaf_def None by simp
next
  case (Some val)
  have lists: "\<exists>xs. v = JArr xs" if "obj_get op node = Some v" "op \<in> {''in'', ''not_in'', ''subset_of''}" for op v
    using list_operand_checked [OF assms(1) that] .
  have sub: "\<exists>ss. lower_texts xs = Inr ss" if "obj_get ''subset_of'' node = Some (JArr xs)" for xs
    using assms(2) that by (auto simp: subset_operand_texts_def intro: lower_texts_ok)
  show ?thesis
    unfolding evaluate_leaf_def Some
    using lists [of "''in''"] lists [of "''not_in''"] lists [of "''subset_of''"] sub
    by (fastforce simp: Let_def list_operand_def split: option.splits)
qed

lemma enumerate_child:
  assumes "x \<in> set xs"
  shows "\<exists>i. (i, x) \<in> set (enumerate 0 xs)"
proof -
  from assms have "x \<in> snd ` set (enumerate 0 xs)"
    by (metis list.set_map map_snd_enumerate)
  then show ?thesis by auto
qed

lemma group_children:
  assumes "validatePredicate (JObj node) path = []" and "group_key node = Some key"
  shows "\<exists>children. obj_get key node = Some (JArr children) \<and>
    (\<forall>c \<in> set children. \<exists>path'. validatePredicate c path' = [])"
proof -
  from assms obtain children where c: "obj_get key node = Some (JArr children)"
    by (subst (asm) validatePredicate.simps) (auto split: option.splits json.splits)
  have "\<exists>path'. validatePredicate x path' = []" if "x \<in> set children" for x
  proof -
    from enumerate_child [OF that] obtain i where "(i, x) \<in> set (enumerate 0 children)" ..
    moreover from assms c have "\<forall>p \<in> set (enumerate 0 children). \<exists>q. validatePredicate (snd p) q = []"
      by (subst (asm) validatePredicate.simps) auto
    ultimately show ?thesis by (metis snd_conv)
  qed
  with c show ?thesis by blast
qed

lemma group_key_eval:
  "group_key node = None \<Longrightarrow> evaluatePredicate (JObj node) facts = evaluate_leaf node facts"
  "group_key node = Some key \<Longrightarrow> obj_get key node = Some (JArr cs) \<Longrightarrow>
   evaluatePredicate (JObj node) facts =
     (if key = ''all'' then every_result (\<lambda>c. evaluatePredicate c facts) cs
      else some_result (\<lambda>c. evaluatePredicate c facts) cs)"
  by (subst (1) evaluatePredicate.simps, simp add: group_key_def split: if_splits option.splits)
    (subst (1) evaluatePredicate.simps, auto simp: group_key_def split: if_splits)

lemma validate_object: "validatePredicate v path = [] \<Longrightarrow> \<exists>node. v = JObj node"
  by (cases v) (simp_all add: validatePredicate.simps)

lemma subset_texts_children:
  "subset_texts (JObj node) \<Longrightarrow> group_key node = Some key \<Longrightarrow> obj_get key node = Some (JArr cs) \<Longrightarrow>
   c \<in> set cs \<Longrightarrow> subset_texts c"
  by (subst (asm) subset_texts.simps) (simp add: list_all_iff)

lemma evaluate_ok:
  "validatePredicate v path = [] \<Longrightarrow> subset_texts v \<Longrightarrow> is_ok (evaluatePredicate v facts)"
proof (induction v arbitrary: path rule: measure_induct_rule [of size])
  case (less v)
  from validate_object [OF less.prems(1)] obtain node where v: "v = JObj node" ..
  show ?case
  proof (cases "group_key node")
    case None
    with less.prems v show ?thesis
      by (auto simp: group_key_eval(1) validatePredicate.simps [of "JObj node"]
          subset_texts.simps [of "JObj node"] intro: evaluate_leaf_ok)
  next
    case (Some key)
    from group_children [OF less.prems(1) [unfolded v] Some] obtain cs
      where cs: "obj_get key node = Some (JArr cs)" "\<forall>c \<in> set cs. \<exists>p. validatePredicate c p = []"
      by blast
    have "is_ok (evaluatePredicate c facts)" if c: "c \<in> set cs" for c
    proof -
      from cs(1) c v have "size c < size v" by (simp add: size_obj_array del: json.size)
      moreover from less.prems(2) v Some cs(1) c have "subset_texts c"
        by (blast intro: subset_texts_children)
      moreover from cs(2) c obtain p where "validatePredicate c p = []" by blast
      ultimately show ?thesis by (blast intro: less.IH)
    qed
    with v Some cs(1) show ?thesis
      by (simp add: group_key_eval(2) every_result_ok some_result_ok)
  qed
qed

lemma evaluate_leaf_mono:
  assumes "facts \<subseteq>\<^sub>m facts'" and "evaluate_leaf node facts = Inr True"
  shows "evaluate_leaf node facts' = Inr True"
proof -
  from assms(2) obtain s x where f: "obj_get ''field'' node = Some (JStr s)" "facts s = Some x"
    by (auto simp: evaluate_leaf_def split: option.splits json.splits)
  with assms(1) have "facts' s = Some x"
    by (auto simp: map_le_def dom_def)
  with f assms(2) show ?thesis by (simp add: evaluate_leaf_def)
qed

lemma some_result_mono:
  assumes "\<And>c. c \<in> set cs \<Longrightarrow> f c = Inr True \<Longrightarrow> g c = Inr True" and "\<And>c. c \<in> set cs \<Longrightarrow> is_ok (g c)"
    and "some_result f cs = Inr True"
  shows "some_result g cs = Inr True"
  using assms
proof (induction cs)
  case (Cons c cs)
  then have "is_ok (g c)" by simp
  then obtain b where b: "g c = Inr b" by (cases "g c") auto
  show ?case
  proof (cases "f c = Inr True")
    case True
    with Cons.prems(1) show ?thesis by simp
  next
    case False
    with Cons.prems(3) have "some_result f cs = Inr True" by (auto split: if_splits)
    with Cons have "some_result g cs = Inr True" by simp
    with b show ?thesis by simp
  qed
qed simp

lemma evaluate_mono:
  "facts \<subseteq>\<^sub>m facts' \<Longrightarrow> validatePredicate v path = [] \<Longrightarrow> subset_texts v \<Longrightarrow>
   evaluatePredicate v facts = Inr True \<Longrightarrow> evaluatePredicate v facts' = Inr True"
proof (induction v arbitrary: path rule: measure_induct_rule [of size])
  case (less v)
  from validate_object [OF less.prems(2)] obtain node where v: "v = JObj node" ..
  show ?case
  proof (cases "group_key node")
    case None
    with less.prems v show ?thesis by (simp add: group_key_eval(1) evaluate_leaf_mono)
  next
    case (Some key)
    from group_children [OF less.prems(2) [unfolded v] Some] obtain cs
      where cs: "obj_get key node = Some (JArr cs)" "\<forall>c \<in> set cs. \<exists>p. validatePredicate c p = []"
      by blast
    have child: "subset_texts c \<and> size c < size v" if "c \<in> set cs" for c
      using that less.prems(3) v Some cs(1)
      by (auto intro: subset_texts_children simp: size_obj_array simp del: json.size)
    have step: "evaluatePredicate c facts' = Inr True"
      if c: "c \<in> set cs" and t: "evaluatePredicate c facts = Inr True" for c
      using cs(2) c child [OF c] t less.prems(1) less.IH by blast
    have ok: "is_ok (evaluatePredicate c facts')" if "c \<in> set cs" for c
      using cs(2) that child [OF that] evaluate_ok by blast
    show ?thesis
    proof (cases "key = ''all''")
      case True
      with less.prems(4) v Some cs(1) step show ?thesis
        by (simp add: group_key_eval(2) every_result_True)
    next
      case False
      with less.prems(4) v Some cs(1) have "some_result (\<lambda>c. evaluatePredicate c facts) cs = Inr True"
        by (simp add: group_key_eval(2))
      then have "some_result (\<lambda>c. evaluatePredicate c facts') cs = Inr True"
        by (rule some_result_mono [rotated 2]) (use step ok in auto)
      with False v Some cs(1) show ?thesis by (simp add: group_key_eval(2))
    qed
  qed
qed

section \<open>Properties\<close>

text \<open>
  C26: the effective level is the smallest of the ceiling, the level the most specific scope asks for
  and the agent's trust; a paused workspace has ceiling 0, and without a workspace policy nothing is
  above level 0.
\<close>

theorem effective_level:
  "raLevel (resolveAutonomy inp) =
     min (min (case riWorkspace inp of None \<Rightarrow> 0 | Some w \<Rightarrow> if prPaused w then 0 else clampLevel (prLevel w))
              (case riProject inp of
                 Some p \<Rightarrow> clampLevel (prLevel p)
               | None \<Rightarrow> (case riTeam inp of Some t \<Rightarrow> clampLevel (prLevel t) | None \<Rightarrow> 0)))
         (case riTrust inp of None \<Rightarrow> 3 | Some t \<Rightarrow> TRUST_LEVEL t)"
  unfolding raLevel_min [of inp] trust_cap_def resolve_ceiling resolve_requested ..

definition sample_row :: "rat \<Rightarrow> policy_row" where
  "sample_row lvl = \<lparr>prLevel = lvl, prGates = None, prLocked = [], prObserveUntil = None, prPaused = False\<rparr>"

definition sample_input :: resolve_input where
  "sample_input = \<lparr>riWorkspace = Some (sample_row 2), riTeam = Some (sample_row 3), riProject = None,
     riTrust = Some TL2, riNow = 0\<rparr>"

definition green_facts :: autonomy_facts where
  "green_facts = [''auto_accept_grade'' \<mapsto> JStr ''CLEAR'', ''pr_merged'' \<mapsto> JBool True,
     ''checks'' \<mapsto> JStr ''green'', ''reproducibility'' \<mapsto> JNull, ''severity'' \<mapsto> JNull]"

lemmas evaluation_simps =
  sample_input_def sample_row_def green_facts_def decide_def resolveAutonomy_def resolve_gate_def
  apply_scope_def stored_rule_def apply_lock_def BUILT_IN_LOCKS_def clampLevel_def rule_if_def rule_only_def
  L2_ACCEPT_def leaf_def texts_def opt_truthy_def evaluatePredicate.simps evaluate_leaf_def obj_get_def
  list_operand_def normalise_def bool_text_def js_lower_def to_lower_char_def human_decision_def
  spread_rule_def json_get.simps

lemma sample_decision:
  "decide (resolveAutonomy sample_input) review_accept green_facts =
     Inr \<lparr>dDecider = ''auto'', dMatched = True, dReason = ''Automatic under L2.''\<rparr>"
  by code_simp

lemma in_texts_matches:
  assumes "facts f = Some v" and "x \<in> set (asList (Some v))" and "normalise x = Some t"
    and "t \<in> set (map js_lower vals)"
  shows "evaluatePredicate (leaf f ''in'' (texts vals)) facts = Inr True"
proof -
  from assms(4) obtain w where "w \<in> set vals" "t = js_lower w" by auto
  then have "normalise (JStr w) = Some t" and "JStr w \<in> set (map JStr vals)"
    by (auto simp: normalise_def)
  with assms(2,3) have "\<exists>x \<in> set (asList (Some v)). normalise x \<in> normalise ` set (map JStr vals)"
    by (metis image_eqI)
  moreover from assms(2) have "asList (Some v) \<noteq> []" by auto
  ultimately show ?thesis using assms(1)
    by (simp add: leaf_def texts_def evaluatePredicate.simps evaluate_leaf_def obj_get_def
        list_operand_def Let_def del: asList.simps)
qed

lemma lock_texts:
  "map js_lower [''SEV1'', ''SEV2''] = [''sev1'', ''sev2'']"
  "map js_lower [''SOMETIMES'', ''ONCE''] = [''sometimes'', ''once'']"
  "map js_lower [''deploy''] = [''deploy'']"
  by code_simp+

text \<open>
  C6: with stored tables that passed validation, a gate decides automatically only when the effective
  level has reached the level at which that gate opens, which no scope's override can lower: commits
  and amendments at 1, acceptance at 2, delegation at 3, merging and spending never; and never while
  the workspace is paused.
\<close>

theorem auto_needs_level:
  assumes "valid_policies inp"
    and "decide (resolveAutonomy inp) g facts = Inr d" and "dDecider d = ''auto''"
  shows "(\<exists>n. opens_at g = Some n \<and> n \<le> raLevel (resolveAutonomy inp)) \<and> \<not> raPaused (resolveAutonomy inp)"
  using assms by (rule resolved_auto_level)

theorem auto_needs_level_witness:
  "(\<exists>n. opens_at review_accept = Some n \<and> n \<le> raLevel (resolveAutonomy sample_input))
   \<and> \<not> raPaused (resolveAutonomy sample_input)"
  by (rule auto_needs_level [OF _ sample_decision])
    (simp_all add: valid_policies_def valid_policy_def sample_input_def sample_row_def)

text \<open>
  A gate decides automatically exactly when its rule is neither \<open>none\<close> nor \<open>human\<close>,
  no built-in lock on it matches the facts, its condition (if it has one) matches them, and the
  policy is not merely observing.
\<close>

lemma decide_auto_iff:
  "(\<exists>d. decide r g facts = Inr d \<and> dDecider d = ''auto'') \<longleftrightarrow>
     rgDecider (raGates r g) \<noteq> ''none'' \<and> rgDecider (raGates r g) \<noteq> ''human'' \<and>
     (\<forall>l \<in> set BUILT_IN_LOCKS. lockGate l = g \<longrightarrow> evaluatePredicate (lockWhen l) facts = Inr False) \<and>
     (opt_truthy (rgCondition (raGates r g)) \<longrightarrow>
        evaluatePredicate (the (rgCondition (raGates r g))) facts = Inr True) \<and>
     \<not> raObserving r"
  unfolding decide_auto_eq matched_lock_None ..

text \<open>
  C27: whatever the policy, a SEV1 or SEV2 incident, work whose delivery deploys, and an intermittent
  bug are never accepted automatically.
\<close>

theorem locked_work_waits:
  assumes "decide r review_accept facts = Inr d"
    and "facts ''severity'' = Some (JStr s) \<and> js_lower s \<in> {''sev1'', ''sev2''}
       \<or> facts ''delivery_actions'' = Some (JArr actions) \<and> JStr ''deploy'' \<in> set actions
       \<or> facts ''reproducibility'' = Some (JStr s) \<and> js_lower s \<in> {''sometimes'', ''once''}"
  shows "dDecider d \<noteq> ''auto''"
proof
  assume "dDecider d = ''auto''"
  with assms(1) have "\<forall>l \<in> set BUILT_IN_LOCKS. lockGate l = review_accept \<longrightarrow>
      evaluatePredicate (lockWhen l) facts = Inr False"
    using decide_auto_eq [of r review_accept facts] matched_lock_None by blast
  then have no: "evaluatePredicate (leaf ''severity'' ''in'' (texts [''SEV1'', ''SEV2''])) facts \<noteq> Inr True"
      "evaluatePredicate (leaf ''delivery_actions'' ''in'' (texts [''deploy''])) facts \<noteq> Inr True"
      "evaluatePredicate (leaf ''reproducibility'' ''in'' (texts [''SOMETIMES'', ''ONCE''])) facts \<noteq> Inr True"
    by (simp_all add: BUILT_IN_LOCKS_def)
  have single: "evaluatePredicate (leaf f ''in'' (texts vals)) facts = Inr True"
    if "facts f = Some (JStr s)" "js_lower s \<in> set (map js_lower vals)" for f vals
    using that by (intro in_texts_matches [where v = "JStr s" and x = "JStr s" and t = "js_lower s"]) (simp_all add: normalise_def)
  have many: "evaluatePredicate (leaf ''delivery_actions'' ''in'' (texts [''deploy''])) facts = Inr True"
    if "facts ''delivery_actions'' = Some (JArr actions)" "JStr ''deploy'' \<in> set actions"
    by (rule in_texts_matches [where v = "JArr actions" and x = "JStr ''deploy''" and t = "js_lower ''deploy''"])
      (use that in \<open>simp_all add: normalise_def\<close>)
  from assms(2) no many single [of "''severity''" "[''SEV1'', ''SEV2'']"]
    single [of "''reproducibility''" "[''SOMETIMES'', ''ONCE'']"]
  show False unfolding lock_texts by auto
qed

theorem locked_work_waits_witness:
  "\<exists>d. decide (resolveAutonomy sample_input) review_accept (green_facts(''severity'' \<mapsto> JStr ''Sev1'')) = Inr d
     \<and> dDecider d \<noteq> ''auto''"
proof -
  have d: "decide (resolveAutonomy sample_input) review_accept (green_facts(''severity'' \<mapsto> JStr ''Sev1'')) =
      Inr (human_decision False ''Locked: SEV1 / SEV2 incidents reach Done only through a person (INV-1126).'')"
    by code_simp
  have "dDecider (human_decision False ''Locked: SEV1 / SEV2 incidents reach Done only through a person (INV-1126).'') \<noteq> ''auto''"
    by (rule locked_work_waits [OF d, of "''Sev1''" "[]"]) code_simp
  with d show ?thesis by blast
qed

text \<open>
  C31: a condition that passed validation, with texts in its \<^verbatim>\<open>subset_of\<close> lists, never throws,
  and knowing more facts never takes a match away: an unknown fact can only send the decision to a
  person.
\<close>

theorem conditions_monotone:
  assumes "validatePredicate v path = []" and "subset_texts v" and "facts \<subseteq>\<^sub>m facts'"
  shows "is_ok (evaluatePredicate v facts) \<and>
    (evaluatePredicate v facts = Inr True \<longrightarrow> evaluatePredicate v facts' = Inr True)"
  using assms evaluate_ok evaluate_mono by blast

theorem conditions_monotone_witness:
  "evaluatePredicate L2_ACCEPT (green_facts(''type'' \<mapsto> JStr ''bug'')) = Inr True"
proof -
  have "validatePredicate L2_ACCEPT [] = []"
    by (simp add: L2_ACCEPT_def leaf_def texts_def validatePredicate.simps group_key_def obj_get_def
        leaf_problems_def OPERATORS_def CONDITION_FIELDS_def operand_problems_def)
  moreover have "subset_texts L2_ACCEPT"
    by (simp add: L2_ACCEPT_def leaf_def texts_def subset_texts.simps group_key_def obj_get_def
        subset_operand_texts_def)
  moreover have "green_facts \<subseteq>\<^sub>m green_facts(''type'' \<mapsto> JStr ''bug'')"
    by (simp add: map_le_def green_facts_def)
  moreover have "evaluatePredicate L2_ACCEPT green_facts = Inr True"
    by (simp add: evaluation_simps)
  ultimately show ?thesis using conditions_monotone by blast
qed

text \<open>
  Validation accepts a condition on which the evaluation throws: a number in a
  \<^verbatim>\<open>subset_of\<close> list passes, and every decision that reads the fact fails.
\<close>

lemma validation_misses_operands:
  "\<exists>v. validatePredicate v ''condition'' = [] \<and>
     (\<exists>facts. evaluatePredicate v facts = Inl (TypeError ''item.toLowerCase is not a function''))"
proof (intro exI conjI)
  show "validatePredicate (leaf ''labels'' ''subset_of'' (JArr [JNum 1])) ''condition'' = []"
    by (simp add: leaf_def validatePredicate.simps group_key_def obj_get_def
        leaf_problems_def OPERATORS_def CONDITION_FIELDS_def operand_problems_def)
  show "evaluatePredicate (leaf ''labels'' ''subset_of'' (JArr [JNum 1])) [''labels'' \<mapsto> JArr []]
     = Inl (TypeError ''item.toLowerCase is not a function'')"
    by (simp add: leaf_def evaluatePredicate.simps evaluate_leaf_def obj_get_def)
qed

lemma apply_scope_locked:
  "apply_scope lvl g (n, Some (w\<lparr>prLocked := ls\<rparr>)) r = apply_scope lvl g (n, Some w) r"
  by (simp add: apply_scope_def stored_rule_def split: option.splits)

text \<open>
  C32: the gates a workspace locks have no effect on any decision: the resolver lists them and decides
  as if none were locked.
\<close>

theorem workspace_locks_ignored:
  "decide (resolveAutonomy (inp\<lparr>riWorkspace := Some (w\<lparr>prLocked := locks\<rparr>)\<rparr>)) g facts =
   decide (resolveAutonomy (inp\<lparr>riWorkspace := Some (w\<lparr>prLocked := []\<rparr>)\<rparr>)) g facts"
proof -
  let ?a = "resolveAutonomy (inp\<lparr>riWorkspace := Some (w\<lparr>prLocked := locks\<rparr>)\<rparr>)"
  let ?b = "resolveAutonomy (inp\<lparr>riWorkspace := Some (w\<lparr>prLocked := []\<rparr>)\<rparr>)"
  have lvl: "raLevel ?a = raLevel ?b"
    by (simp add: raLevel_min resolve_ceiling resolve_requested cong: option.case_cong)
  have obs: "raObserving ?a = raObserving ?b"
    by (simp add: resolve_observing cong: option.case_cong)
  have "resolve_gate (inp\<lparr>riWorkspace := Some (w\<lparr>prLocked := locks\<rparr>)\<rparr>) n =
        resolve_gate (inp\<lparr>riWorkspace := Some (w\<lparr>prLocked := []\<rparr>)\<rparr>) n" for n
    by (rule ext) (simp add: resolve_gate_def apply_scope_locked)
  then have "raGates ?a = raGates ?b"
    unfolding resolve_fields lvl by simp
  then show ?thesis unfolding decide_def lvl obs by (simp only:)
qed

end
