(* ===== verification/Autonomy_Store.thy ===== *)
theory Autonomy_Store
  imports Autonomy Kernel_Data "HOL-Library.List_Lexorder" "HOL-Library.Char_ord"
begin

text \<open>
  Stored autonomy policies (\<^verbatim>\<open>packages/server/src/autonomy-service.ts\<close>): every change writes a new
  active version for its scope and deactivates the one before, the history stays, and the policy of
  an item is resolved from the active rows of its workspace, team and nearest project.

  An optional argument that is undefined or null is \<open>None\<close>. Row identifiers and the clock are
  arguments. The \<^verbatim>\<open>details\<close> column of the audit is not modelled.
\<close>

datatype autonomy_scope = WORKSPACE | TEAM | SPROJECT

fun scope_text :: "autonomy_scope \<Rightarrow> string" where
  "scope_text WORKSPACE = ''workspace''"
| "scope_text TEAM = ''team''"
| "scope_text SPROJECT = ''project''"

definition WORKSPACE_SETTINGS_ID :: string where
  "WORKSPACE_SETTINGS_ID = ''workspace''"

record workflow_policy =
  wpId :: ident
  wpScope :: autonomy_scope
  wpScopeId :: string
  wpLevel :: rat
  wpGates :: json
  wpIntake :: json
  wpLocked :: "string list"
  wpVersion :: int
  wpReason :: string
  wpObserveUntil :: "instant option"
  wpActive :: bool
  wpPaused :: bool
  wpDefaultLevel :: rat
  wpTemplates :: json
  wpCompletionReply :: "string option"
  wpCreatedById :: "ident option"

record field_definition =
  fdScope :: autonomy_scope
  fdScopeId :: string
  fdKey :: string
  fdSearchable :: bool
  fdActive :: bool

record ops_audit =
  oaAction :: string
  oaSubject :: string
  oaByActorId :: "ident option"
  oaReason :: string

record agent_trust_row =
  atActorId :: ident
  atLevel :: agent_trust

record policy_db = graph_db +
  teamRows :: "ident list"
  policies :: "workflow_policy list"
  fieldDefinitions :: "field_definition list"
  agentTrusts :: "agent_trust_row list"
  opsAudits :: "ops_audit list"

definition toPolicyRow :: "workflow_policy option \<Rightarrow> policy_row option" where
  "toPolicyRow row =
     map_option (\<lambda>r. \<lparr>prLevel = (if isAutonomyLevel (wpLevel r) then wpLevel r else 0),
       prGates = Some (if wpGates r = JNull then JObj [] else wpGates r), prLocked = wpLocked r,
       prObserveUntil = wpObserveUntil r, prPaused = wpPaused r\<rparr>) row"

text \<open>The active row of the highest version; the first one among equals.\<close>

fun newest :: "workflow_policy list \<Rightarrow> workflow_policy option" where
  "newest [] = None"
| "newest (r # rs) =
     (case newest rs of None \<Rightarrow> Some r | Some s \<Rightarrow> Some (if wpVersion r \<ge> wpVersion s then r else s))"

definition in_scope :: "autonomy_scope \<Rightarrow> string \<Rightarrow> workflow_policy \<Rightarrow> bool" where
  "in_scope sc i r \<longleftrightarrow> wpScope r = sc \<and> wpScopeId r = i \<and> wpActive r"

definition readActivePolicy :: "policy_db \<Rightarrow> autonomy_scope \<Rightarrow> string \<Rightarrow> workflow_policy option" where
  "readActivePolicy db sc i = newest (filter (in_scope sc i) (policies db))"

text \<open>The parent chain is followed for at most 32 items.\<close>

fun project_above :: "nat \<Rightarrow> policy_db \<Rightarrow> ident option \<Rightarrow> ident option" where
  "project_above 0 db parent = None"
| "project_above (Suc depth) db parent =
     (if \<not> truthy parent then None
      else case find_issue db (the parent) of
             None \<Rightarrow> None
           | Some p \<Rightarrow> if kind p = PROJECT then Some (issueId p) else project_above depth db (parentId p))"

definition findProjectIdFor :: "policy_db \<Rightarrow> issue \<Rightarrow> ident option" where
  "findProjectIdFor db item =
     (if kind item = PROJECT then Some (issueId item) else project_above 32 db (parentId item))"

record autonomy_view =
  avResolved :: resolved_autonomy
  avProjectId :: "ident option"

definition loadAutonomyFor ::
  "policy_db \<Rightarrow> issue \<Rightarrow> (ident \<times> actor_kind) option \<Rightarrow> instant \<Rightarrow> autonomy_view" where
  "loadAutonomyFor db item actor now =
     (let projectId = findProjectIdFor db item;
          trust = (case actor of
                     Some (i, AGENT) \<Rightarrow>
                       (case find_row atActorId i (agentTrusts db) of
                          Some t \<Rightarrow> Some (atLevel t) | None \<Rightarrow> Some OBSERVE)
                   | _ \<Rightarrow> None)
      in \<lparr>avResolved = resolveAutonomy
            \<lparr>riWorkspace = toPolicyRow (readActivePolicy db WORKSPACE WORKSPACE_SETTINGS_ID),
             riTeam = toPolicyRow (readActivePolicy db TEAM (teamId item)),
             riProject = (case projectId of None \<Rightarrow> None
                          | Some p \<Rightarrow> toPolicyRow (readActivePolicy db SPROJECT p)),
             riTrust = trust, riNow = now\<rparr>,
          avProjectId = projectId\<rparr>)"

section \<open>Changing a policy\<close>

definition autoAcceptBugsGates :: json where
  "autoAcceptBugsGates = JObj [(''review_accept'', JObj
     [(''decider'', JStr ''auto''),
      (''condition'', JObj [(''all'', JArr
        [leaf ''type'' ''in'' (texts [''bug'']),
         leaf ''auto_accept_grade'' ''eq'' (JStr ''CLEAR''),
         leaf ''pr_merged'' ''eq'' (JBool True),
         leaf ''checks'' ''eq'' (JStr ''green''),
         leaf ''reproducibility'' ''not_in'' (texts [''SOMETIMES'', ''ONCE'']),
         leaf ''severity'' ''not_in'' (texts [''SEV1'', ''SEV2''])])])])]"

definition DEFAULT_TEMPLATES :: json where
  "DEFAULT_TEMPLATES = JArr
     [JObj [(''name'', JStr ''Low-risk pass-through''), (''level'', JNum 1)],
      JObj [(''name'', JStr ''Bugs on autopilot''), (''level'', JNum 2), (''gates'', autoAcceptBugsGates)],
      JObj [(''name'', JStr ''Hands-off''), (''level'', JNum 3)]]"

definition template_entry :: "nat \<times> json \<Rightarrow> (kernel_error, json) result" where
  "template_entry p =
     (let loc = ''Invalid policy: templates['' @ nat_text (fst p) @ '']''; template = snd p in
      case json_get ''name'' template of
        Some (JStr name) \<Rightarrow>
          bind_result (throw_if (js_trim name = [] \<or> length name > 60) (ValidationError (loc @ ''.name''))) (\<lambda>_.
          case json_get ''level'' template of
            Some (JNum l) \<Rightarrow>
              bind_result (throw_if (\<not> isAutonomyLevel l) (ValidationError (loc @ ''.level must be 0-3''))) (\<lambda>_.
              let problems = validateGateTable (json_get ''gates'' template) in
              bind_result (throw_if (problems \<noteq> []) (ValidationError (loc @ '' '' @ js_join ''; '' problems))) (\<lambda>_.
              Inr (JObj ([(''name'', JStr (js_trim name)), (''level'', JNum l)] @
                (case json_get ''gates'' template of
                   Some g \<Rightarrow> if json_truthy g then [(''gates'', g)] else [] | None \<Rightarrow> [])))))
          | _ \<Rightarrow> Inl (ValidationError (loc @ ''.level must be 0-3'')))
      | _ \<Rightarrow> Inl (ValidationError (loc @ ''.name'')))"

definition validateTemplates :: "json \<Rightarrow> (kernel_error, json) result" where
  "validateTemplates v =
     (case v of
        JArr entries \<Rightarrow>
          if length entries > 20 then Inl (ValidationError ''Invalid policy: templates must be a list of at most 20.'')
          else bind_result (map_result template_entry (enumerate 0 entries)) (\<lambda>ts. Inr (JArr ts))
      | _ \<Rightarrow> Inl (ValidationError ''Invalid policy: templates must be a list of at most 20.''))"

definition requireReason :: "string option \<Rightarrow> (kernel_error, string) result" where
  "requireReason r =
     (let trimmed = (case r of None \<Rightarrow> [] | Some s \<Rightarrow> js_trim s) in
      if trimmed = [] \<or> length trimmed > 2000
      then Inl (ValidationError ''POLICY_REASON_REQUIRED_MESSAGE'') else Inr trimmed)"

definition searchableAttrFields :: "policy_db \<Rightarrow> autonomy_scope \<Rightarrow> string \<Rightarrow> string list" where
  "searchableAttrFields db sc i =
     (let team = (case sc of
                    WORKSPACE \<Rightarrow> None
                  | TEAM \<Rightarrow> Some i
                  | SPROJECT \<Rightarrow> map_option teamId (find_issue db i));
          projectIds = (if truthy team
            then map issueId (filter (\<lambda>r. teamId r = the team \<and> kind r = PROJECT) (issues db)) else []);
          visible = (\<lambda>d. fdScope d = WORKSPACE \<and> fdScopeId d = WORKSPACE_SETTINGS_ID
            \<or> truthy team \<and> (fdScope d = TEAM \<and> fdScopeId d = the team
                              \<or> fdScope d = SPROJECT \<and> fdScopeId d \<in> set projectIds))
      in sort (js_uniq (map (\<lambda>d. ''attr.'' @ fdKey d)
           (filter (\<lambda>d. fdActive d \<and> fdSearchable d \<and> visible d) (fieldDefinitions db)))))"

record set_policy_input =
  spScope :: autonomy_scope
  spScopeId :: string
  spLevel :: rat
  spGates :: "json option"
  spIntake :: "json option"
  spLocked :: "string list option"
  spReason :: "string option"
  spObserveDays :: "rat option"
  spPaused :: "bool option"
  spDefaultLevel :: "rat option"
  spTemplates :: "json option"
  spCompletionReply :: "string option"

definition json_fields :: "json option \<Rightarrow> string list" where
  "json_fields v = (case v of None \<Rightarrow> [] | Some j \<Rightarrow> attrFieldsIn j)"

definition check_attr_fields :: "policy_db \<Rightarrow> set_policy_input \<Rightarrow> (kernel_error, unit) result" where
  "check_attr_fields db inp =
     (let attrFields = js_uniq (json_fields (spGates inp) @ json_fields (spIntake inp));
          allowed = searchableAttrFields db (spScope inp) (spScopeId inp);
          unknown = filter (\<lambda>f. f \<notin> set allowed) attrFields
      in throw_if (unknown \<noteq> [])
           (ValidationError (''Invalid policy: '' @ js_join '', '' unknown @
              (if length unknown > 1 then '' are not searchable fields'' else '' is not a searchable field'') @
              '' of this scope; mark the field searchable in Fields settings first.'')))"

definition check_scope :: "policy_db \<Rightarrow> set_policy_input \<Rightarrow> (kernel_error, unit) result" where
  "check_scope db inp =
     throw_if (case spScope inp of
         WORKSPACE \<Rightarrow> spScopeId inp \<noteq> WORKSPACE_SETTINGS_ID
       | TEAM \<Rightarrow> spScopeId inp \<notin> set (teamRows db)
       | SPROJECT \<Rightarrow> (case find_issue db (spScopeId inp) of
           None \<Rightarrow> True
         | Some p \<Rightarrow> kind p \<noteq> PROJECT \<or> commitmentStatus p \<noteq> COMMITTED))
       (ValidationError ''POLICY_SCOPE_INVALID_MESSAGE'')"

definition check_policy_input :: "policy_db \<Rightarrow> set_policy_input \<Rightarrow> (kernel_error, string) result" where
  "check_policy_input db inp =
     bind_result (throw_if (\<not> isAutonomyLevel (spLevel inp)) (ValidationError ''POLICY_LEVEL_INVALID_MESSAGE'')) (\<lambda>_.
     bind_result (requireReason (spReason inp)) (\<lambda>rsn.
     let problems = validateGateTable (spGates inp) @
           (case spIntake inp of None \<Rightarrow> [] | Some JNull \<Rightarrow> [] | Some v \<Rightarrow> validatePredicate v ''intake'') in
     bind_result (throw_if (problems \<noteq> []) (ValidationError (''Invalid policy: '' @ js_join ''; '' problems))) (\<lambda>_.
     bind_result (check_attr_fields db inp) (\<lambda>_.
     bind_result (throw_if ((case spLocked inp of None \<Rightarrow> False | Some l \<Rightarrow> l \<noteq> []) \<and> spScope inp \<noteq> WORKSPACE)
       (ValidationError ''POLICY_LOCKED_WORKSPACE_ONLY_MESSAGE'')) (\<lambda>_.
     bind_result (throw_if (spScope inp \<noteq> WORKSPACE \<and> (spPaused inp \<noteq> None \<or> spDefaultLevel inp \<noteq> None
         \<or> (spTemplates inp \<noteq> None \<and> spTemplates inp \<noteq> Some JNull) \<or> spCompletionReply inp \<noteq> None))
       (ValidationError ''POLICY_WORKSPACE_ONLY_MESSAGE'')) (\<lambda>_.
     bind_result (throw_if (case spCompletionReply inp of None \<Rightarrow> False | Some s \<Rightarrow> length s > 4000)
       (ValidationError ''Invalid policy: completionReply is at most 4000 characters.'')) (\<lambda>_.
     bind_result (throw_if (case spDefaultLevel inp of None \<Rightarrow> False | Some l \<Rightarrow> \<not> isAutonomyLevel l)
       (ValidationError ''POLICY_LEVEL_INVALID_MESSAGE'')) (\<lambda>_.
     bind_result (throw_if (case spLocked inp of None \<Rightarrow> False
         | Some l \<Rightarrow> \<exists>i \<in> set l. i \<notin> gate_name ` set GATES \<and> i \<notin> lockName ` set BUILT_IN_LOCKS)
       (ValidationError ''Invalid policy: locked names a gate or a built-in lock id.'')) (\<lambda>_.
     bind_result (check_scope db inp) (\<lambda>_. Inr rsn))))))))))"

definition deactivate :: "workflow_policy option \<Rightarrow> policy_db \<Rightarrow> policy_db" where
  "deactivate previous db =
     (case previous of
        None \<Rightarrow> db
      | Some p \<Rightarrow> db\<lparr>policies := update_rows (\<lambda>r. wpId r = wpId p) (\<lambda>r. r\<lparr>wpActive := False\<rparr>) (policies db)\<rparr>)"

definition add_policy :: "workflow_policy \<Rightarrow> policy_db \<Rightarrow> policy_db" where
  "add_policy row db = db\<lparr>policies := policies db @ [row]\<rparr>"

definition recordOpsAudit :: "string \<Rightarrow> string \<Rightarrow> ident option \<Rightarrow> string \<Rightarrow> policy_db \<Rightarrow> policy_db" where
  "recordOpsAudit action subject byActorId rsn db =
     db\<lparr>opsAudits := opsAudits db @
       [\<lparr>oaAction = action, oaSubject = subject, oaByActorId = byActorId, oaReason = rsn\<rparr>]\<rparr>"

definition created_policy ::
  "ident \<Rightarrow> instant \<Rightarrow> set_policy_input \<Rightarrow> string \<Rightarrow> workflow_policy option \<Rightarrow> json \<Rightarrow> ident option
   \<Rightarrow> workflow_policy" where
  "created_policy newId now inp rsn previous templates byActorId =
     (let ws = (spScope inp = WORKSPACE) in
      \<lparr>wpId = newId, wpScope = spScope inp, wpScopeId = spScopeId inp, wpLevel = spLevel inp,
       wpGates = (case spGates inp of None \<Rightarrow> JObj [] | Some JNull \<Rightarrow> JObj [] | Some g \<Rightarrow> g),
       wpIntake = (case spIntake inp of None \<Rightarrow> JNull | Some v \<Rightarrow> v),
       wpLocked = (if ws then (case spLocked inp of Some l \<Rightarrow> l
                     | None \<Rightarrow> (case previous of Some p \<Rightarrow> wpLocked p | None \<Rightarrow> [])) else []),
       wpVersion = (case previous of Some p \<Rightarrow> wpVersion p | None \<Rightarrow> 0) + 1,
       wpReason = rsn,
       wpObserveUntil = (case spObserveDays inp of
                           Some d \<Rightarrow> if d > 0 then Some \<lfloor>of_int now + d * 86400000\<rfloor> else None
                         | None \<Rightarrow> None),
       wpActive = True,
       wpPaused = (if ws then (case spPaused inp of Some b \<Rightarrow> b
                     | None \<Rightarrow> (case previous of Some p \<Rightarrow> wpPaused p | None \<Rightarrow> False)) else False),
       wpDefaultLevel = (if ws then (case spDefaultLevel inp of Some l \<Rightarrow> l
                     | None \<Rightarrow> (case previous of Some p \<Rightarrow> wpDefaultLevel p | None \<Rightarrow> 0)) else 0),
       wpTemplates = templates,
       wpCompletionReply = (if ws then (case spCompletionReply inp of
                       Some s \<Rightarrow> if js_trim s = [] then None else Some (js_trim s)
                     | None \<Rightarrow> (case previous of Some p \<Rightarrow> wpCompletionReply p | None \<Rightarrow> None)) else None),
       wpCreatedById = byActorId\<rparr>)"

definition policy_templates ::
  "set_policy_input \<Rightarrow> workflow_policy option \<Rightarrow> (kernel_error, json) result" where
  "policy_templates inp previous =
     (if spScope inp \<noteq> WORKSPACE then Inr (JArr [])
      else case spTemplates inp of
        None \<Rightarrow> Inr (case previous of Some p \<Rightarrow> wpTemplates p | None \<Rightarrow> DEFAULT_TEMPLATES)
      | Some JNull \<Rightarrow> Inr (case previous of Some p \<Rightarrow> wpTemplates p | None \<Rightarrow> DEFAULT_TEMPLATES)
      | Some v \<Rightarrow> validateTemplates v)"

definition setWorkflowPolicy ::
  "ident \<Rightarrow> instant \<Rightarrow> policy_db \<Rightarrow> set_policy_input \<Rightarrow> ident option
   \<Rightarrow> (kernel_error, workflow_policy \<times> policy_db) result" where
  "setWorkflowPolicy newId now db inp byActorId =
     bind_result (check_policy_input db inp) (\<lambda>rsn.
     let previous = readActivePolicy db (spScope inp) (spScopeId inp) in
     bind_result (policy_templates inp previous) (\<lambda>templates.
     let created = created_policy newId now inp rsn previous templates byActorId in
     Inr (created,
       recordOpsAudit ''policy.changed'' (scope_text (spScope inp) @ '':'' @ spScopeId inp) byActorId rsn
         (add_policy created (deactivate previous db)))))"

definition clearWorkflowPolicy ::
  "policy_db \<Rightarrow> autonomy_scope \<Rightarrow> string \<Rightarrow> string option \<Rightarrow> ident option
   \<Rightarrow> (kernel_error, bool \<times> policy_db) result" where
  "clearWorkflowPolicy db sc i rsn byActorId =
     bind_result (throw_if (sc = WORKSPACE)
       (ValidationError ''The workspace policy is edited, not cleared; set its level to 0 instead.'')) (\<lambda>_.
     bind_result (requireReason rsn) (\<lambda>trimmed.
     case readActivePolicy db sc i of
       None \<Rightarrow> Inr (False, db)
     | Some previous \<Rightarrow>
         Inr (True, recordOpsAudit ''policy.changed'' (scope_text sc @ '':'' @ i) byActorId trimmed
                (deactivate (Some previous) db))))"

definition syncAutoAcceptBugsPolicy ::
  "ident \<Rightarrow> policy_db \<Rightarrow> ident \<Rightarrow> bool \<Rightarrow> ident option \<Rightarrow> policy_db" where
  "syncAutoAcceptBugsPolicy newId db projectId on byActorId =
     (let previous = readActivePolicy db SPROJECT projectId;
          alreadyOn = (case previous of None \<Rightarrow> False
            | Some p \<Rightarrow> wpLevel p = 2 \<and> opt_truthy (json_get ''review_accept'' (wpGates p)));
          rsn = (if on then ''Auto-accept verified bug fixes turned on (INV-1075)''
                 else ''Auto-accept verified bug fixes turned off (INV-1075)'');
          row = \<lparr>wpId = newId, wpScope = SPROJECT, wpScopeId = projectId, wpLevel = 2,
                 wpGates = autoAcceptBugsGates, wpIntake = JNull, wpLocked = [],
                 wpVersion = (case previous of Some p \<Rightarrow> wpVersion p | None \<Rightarrow> 0) + 1, wpReason = rsn,
                 wpObserveUntil = None, wpActive = True, wpPaused = False, wpDefaultLevel = 0,
                 wpTemplates = JArr [], wpCompletionReply = None, wpCreatedById = byActorId\<rparr>;
          db1 = deactivate previous db
      in if on = alreadyOn then db
         else recordOpsAudit ''policy.changed'' (''project:'' @ projectId) byActorId rsn
                (if on then add_policy row db1 else db1))"

section \<open>What every change keeps\<close>

definition store_ok :: "policy_db \<Rightarrow> bool" where
  "store_ok db \<longleftrightarrow>
     unique_key wpId (policies db) \<and>
     (\<forall>r \<in> set (policies db). \<forall>s \<in> set (policies db).
        wpActive r \<and> wpActive s \<and> wpScope r = wpScope s \<and> wpScopeId r = wpScopeId s \<longrightarrow> r = s) \<and>
     (\<forall>r \<in> set (policies db). validateGateTable (Some (wpGates r)) = [])"

definition history_kept :: "policy_db \<Rightarrow> policy_db \<Rightarrow> bool" where
  "history_kept db db' \<longleftrightarrow>
     (\<forall>r \<in> set (policies db). \<exists>r' \<in> set (policies db').
        r'\<lparr>wpActive := False\<rparr> = r\<lparr>wpActive := False\<rparr> \<and> (wpActive r' \<longrightarrow> wpActive r)) \<and>
     (\<exists>new. opsAudits db' = opsAudits db @ new)"

inductive policy_step :: "policy_db \<Rightarrow> policy_db \<Rightarrow> bool" where
  set_policy: "newId \<notin> wpId ` set (policies db) \<Longrightarrow>
    setWorkflowPolicy newId now db inp by = Inr (row, db') \<Longrightarrow> policy_step db db'"
| clear_policy: "clearWorkflowPolicy db sc i rsn by = Inr (b, db') \<Longrightarrow> policy_step db db'"
| sync_policy: "newId \<notin> wpId ` set (policies db) \<Longrightarrow>
    policy_step db (syncAutoAcceptBugsPolicy newId db projectId on by)"

inductive_cases policy_stepE: "policy_step db db'"

lemma newest_mem: "newest rs = Some r \<Longrightarrow> r \<in> set rs"
  by (induction rs arbitrary: r) (auto split: option.splits if_splits)

lemma newest_None [simp]: "newest rs = None \<longleftrightarrow> rs = []"
  by (induction rs) (auto split: option.splits)

lemma read_active_mem: "readActivePolicy db sc i = Some r \<Longrightarrow> r \<in> set (policies db) \<and> in_scope sc i r"
  unfolding readActivePolicy_def by (auto dest: newest_mem)

lemma read_active_None: "readActivePolicy db sc i = None \<longleftrightarrow> (\<forall>r \<in> set (policies db). \<not> in_scope sc i r)"
  by (auto simp: readActivePolicy_def filter_empty_conv)

lemma read_active_eq:
  assumes "store_ok db" and "r \<in> set (policies db)" and "in_scope sc i r"
  shows "readActivePolicy db sc i = Some r"
proof -
  from assms(2,3) obtain q where q: "readActivePolicy db sc i = Some q"
    using read_active_None by (metis option.exhaust)
  with read_active_mem have "q \<in> set (policies db)" "in_scope sc i q" by blast+
  with assms have "q = r" by (auto simp: store_ok_def in_scope_def)
  with q show ?thesis by simp
qed

lemma deactivate_simps [simp]:
  "opsAudits (deactivate p db) = opsAudits db"
  "issues (deactivate p db) = issues db"
  by (simp_all add: deactivate_def split: option.splits)

lemma deactivate_mem:
  assumes "r \<in> set (policies (deactivate p db))"
  shows "\<exists>q \<in> set (policies db). r\<lparr>wpActive := False\<rparr> = q\<lparr>wpActive := False\<rparr> \<and> (wpActive r \<longrightarrow> r = q)"
  using assms by (auto simp: deactivate_def set_update_rows split: option.splits if_splits)

lemma deactivate_kept:
  assumes "q \<in> set (policies db)"
  shows "\<exists>r \<in> set (policies (deactivate p db)).
    r\<lparr>wpActive := False\<rparr> = q\<lparr>wpActive := False\<rparr> \<and> (wpActive r \<longrightarrow> wpActive q)"
proof (cases p)
  case None
  with assms show ?thesis by (auto simp: deactivate_def)
next
  case (Some a)
  have "(if wpId q = wpId a then q\<lparr>wpActive := False\<rparr> else q) \<in> set (policies (deactivate p db))"
    using assms Some by (auto simp: deactivate_def set_update_rows)
  then show ?thesis by (rule bexI [rotated]) simp
qed

lemma same_inactive:
  "r\<lparr>wpActive := False\<rparr> = q\<lparr>wpActive := False\<rparr> \<Longrightarrow> wpGates r = wpGates q \<and> wpId r = wpId q"
  by (cases r; cases q) simp

lemma store_ok_deactivate: "store_ok db \<Longrightarrow> store_ok (deactivate p db)"
proof -
  assume ok: "store_ok db"
  have ids: "unique_key wpId (policies (deactivate p db))"
    using ok by (auto simp: store_ok_def deactivate_def unique_key_update split: option.splits)
  have one: "r = s" if "r \<in> set (policies (deactivate p db))" "s \<in> set (policies (deactivate p db))"
    "wpActive r" "wpActive s" "wpScope r = wpScope s" "wpScopeId r = wpScopeId s" for r s
  proof -
    from that(1,3) deactivate_mem have "r \<in> set (policies db)" by blast
    moreover from that(2,4) deactivate_mem have "s \<in> set (policies db)" by blast
    ultimately show ?thesis using ok that unfolding store_ok_def by blast
  qed
  have "validateGateTable (Some (wpGates r)) = []" if "r \<in> set (policies (deactivate p db))" for r
    using deactivate_mem [OF that] ok same_inactive unfolding store_ok_def by metis
  with ids one show ?thesis unfolding store_ok_def by blast
qed

lemma deactivate_clears:
  assumes "store_ok db" and "r \<in> set (policies (deactivate (readActivePolicy db sc i) db))"
  shows "\<not> in_scope sc i r"
proof
  assume act: "in_scope sc i r"
  then have "wpActive r" by (simp add: in_scope_def)
  with assms(2) deactivate_mem have r: "r \<in> set (policies db)" by blast
  with assms(1) act have "readActivePolicy db sc i = Some r" by (blast intro: read_active_eq)
  with assms(2) have "r \<in> set (update_rows (\<lambda>q. wpId q = wpId r) (\<lambda>q. q\<lparr>wpActive := False\<rparr>) (policies db))"
    by (simp add: deactivate_def)
  from update_rows_mem [OF this] obtain q where "r = (if wpId q = wpId r then q\<lparr>wpActive := False\<rparr> else q)" ..
  with \<open>wpActive r\<close> show False
    by (cases "wpId q = wpId r") auto
qed

lemma store_ok_add:
  assumes "store_ok db" and "wpId row \<notin> wpId ` set (policies db)"
    and "\<forall>r \<in> set (policies db). \<not> in_scope (wpScope row) (wpScopeId row) r"
    and "validateGateTable (Some (wpGates row)) = []"
  shows "store_ok (add_policy row db)"
  using assms unfolding store_ok_def add_policy_def in_scope_def
  by simp metis

lemma store_ok_audit [simp]: "store_ok (recordOpsAudit a b c d db) = store_ok db"
  by (simp add: store_ok_def recordOpsAudit_def)

lemma deactivate_ids: "wpId ` set (policies (deactivate p db)) = wpId ` set (policies db)"
  by (cases p) (simp_all add: deactivate_def key_image_update_rows)

lemma replace_ok:
  assumes "store_ok db" and "wpId row \<notin> wpId ` set (policies db)"
    and "validateGateTable (Some (wpGates row)) = []"
  shows "store_ok (add_policy row (deactivate (readActivePolicy db (wpScope row) (wpScopeId row)) db))"
proof (rule store_ok_add)
  show "store_ok (deactivate (readActivePolicy db (wpScope row) (wpScopeId row)) db)"
    using assms(1) by (rule store_ok_deactivate)
  show "wpId row \<notin> wpId ` set (policies (deactivate (readActivePolicy db (wpScope row) (wpScopeId row)) db))"
    using assms(2) by (simp add: deactivate_ids)
  show "\<forall>r \<in> set (policies (deactivate (readActivePolicy db (wpScope row) (wpScopeId row)) db)).
      \<not> in_scope (wpScope row) (wpScopeId row) r"
    using assms(1) deactivate_clears by blast
qed (rule assms(3))

lemma autoAcceptBugsGates_valid: "validateGateTable (Some autoAcceptBugsGates) = []"
  by (simp add: autoAcceptBugsGates_def rule_problems_def GATES_def leaf_def texts_def
      validatePredicate.simps group_key_def obj_get_def leaf_problems_def OPERATORS_def
      CONDITION_FIELDS_def operand_problems_def)

lemma created_policy_fields [simp]:
  "wpId (created_policy n now inp rsn p t by) = n"
  "wpScope (created_policy n now inp rsn p t by) = spScope inp"
  "wpScopeId (created_policy n now inp rsn p t by) = spScopeId inp"
  "wpActive (created_policy n now inp rsn p t by) = True"
  "wpLevel (created_policy n now inp rsn p t by) = spLevel inp"
  "wpVersion (created_policy n now inp rsn p t by) = (case p of Some q \<Rightarrow> wpVersion q | None \<Rightarrow> 0) + 1"
  by (simp_all add: created_policy_def Let_def)

lemma check_policy_input_gates:
  "check_policy_input db inp = Inr rsn \<Longrightarrow> validateGateTable (spGates inp) = []"
  by (auto simp: check_policy_input_def Let_def)

lemma created_gates_valid:
  "validateGateTable (spGates inp) = [] \<Longrightarrow>
   validateGateTable (Some (wpGates (created_policy n now inp rsn p t by))) = []"
  by (auto simp: created_policy_def Let_def split: option.splits json.splits)

lemma set_policy_Inr:
  "setWorkflowPolicy newId now db inp by = Inr (row, db') \<longleftrightarrow>
     (\<exists>rsn ts. check_policy_input db inp = Inr rsn \<and>
        policy_templates inp (readActivePolicy db (spScope inp) (spScopeId inp)) = Inr ts \<and>
        row = created_policy newId now inp rsn (readActivePolicy db (spScope inp) (spScopeId inp)) ts by \<and>
        db' = recordOpsAudit ''policy.changed'' (scope_text (spScope inp) @ '':'' @ spScopeId inp) by rsn
          (add_policy row (deactivate (readActivePolicy db (spScope inp) (spScopeId inp)) db)))"
  unfolding setWorkflowPolicy_def Let_def by auto

lemma set_policy_ok:
  assumes "store_ok db" and "newId \<notin> wpId ` set (policies db)"
    and "setWorkflowPolicy newId now db inp by = Inr (row, db')"
  shows "store_ok db'"
proof -
  from assms(3) obtain rsn ts where
      c: "check_policy_input db inp = Inr rsn"
    and row: "row = created_policy newId now inp rsn (readActivePolicy db (spScope inp) (spScopeId inp)) ts by"
    and db': "db' = recordOpsAudit ''policy.changed'' (scope_text (spScope inp) @ '':'' @ spScopeId inp) by rsn
          (add_policy row (deactivate (readActivePolicy db (spScope inp) (spScopeId inp)) db))"
    unfolding set_policy_Inr by blast
  have "validateGateTable (Some (wpGates row)) = []"
    unfolding row by (rule created_gates_valid [OF check_policy_input_gates [OF c]])
  with assms(1,2) have "store_ok (add_policy row (deactivate (readActivePolicy db (wpScope row) (wpScopeId row)) db))"
    by (intro replace_ok) (simp_all add: row)
  then show ?thesis by (simp add: db' row)
qed

lemma clear_policy_ok:
  assumes "store_ok db" and "clearWorkflowPolicy db sc i rsn by = Inr (b, db')"
  shows "store_ok db'"
  using assms by (auto simp: clearWorkflowPolicy_def store_ok_deactivate split: option.splits)

lemma sync_policy_ok:
  assumes "store_ok db" and "newId \<notin> wpId ` set (policies db)"
  shows "store_ok (syncAutoAcceptBugsPolicy newId db projectId on by)"
proof -
  have "store_ok (add_policy row (deactivate (readActivePolicy db SPROJECT projectId) db))"
    if "wpId row = newId" "wpScope row = SPROJECT" "wpScopeId row = projectId" "wpGates row = autoAcceptBugsGates" for row
    using replace_ok [OF assms(1), of row] assms(2) that autoAcceptBugsGates_valid by simp
  with assms(1) show ?thesis
    by (simp add: syncAutoAcceptBugsPolicy_def Let_def store_ok_deactivate)
qed

lemma history_refl: "history_kept db db"
  unfolding history_kept_def by auto

lemma history_trans: "history_kept a b \<Longrightarrow> history_kept b c \<Longrightarrow> history_kept a c"
  unfolding history_kept_def by (metis append_assoc)

lemma history_deactivate: "history_kept db (deactivate p db)"
  unfolding history_kept_def using deactivate_kept by auto

lemma history_add: "history_kept db (add_policy row db)"
  unfolding history_kept_def add_policy_def by auto

lemma history_audit: "history_kept db (recordOpsAudit a b c d db)"
  unfolding history_kept_def recordOpsAudit_def by auto

lemmas history_steps =
  history_refl history_deactivate
  history_trans [OF history_deactivate history_audit]
  history_trans [OF history_trans [OF history_deactivate history_add] history_audit]

lemma policy_step_history: "policy_step db db' \<Longrightarrow> history_kept db db'"
proof (erule policy_stepE, goal_cases)
  case (1 newId now inp a row)
  then show ?case by (auto simp: set_policy_Inr intro: history_steps)
next
  case (2 sc i rsn a b)
  then show ?case
    by (auto simp: clearWorkflowPolicy_def split: option.splits intro: history_steps)
next
  case (3 newId projectId on a)
  then show ?case by (simp add: syncAutoAcceptBugsPolicy_def Let_def history_steps)
qed

interpretation policy_runs: step_system policy_step store_ok history_kept
proof
  show "store_ok t" if "store_ok s" "policy_step s t" for s t
    using that(2) that(1)
    by cases (blast intro: set_policy_ok clear_policy_ok sync_policy_ok)+
qed (auto intro: policy_step_history history_refl history_trans)

section \<open>Properties\<close>

definition empty_store :: policy_db where
  "empty_store = \<lparr>issues = [], links = [], states = [], audits = [], reopens = [], workNotes = [],
     teamRows = [''t1''], policies = [], fieldDefinitions = [], agentTrusts = [], opsAudits = []\<rparr>"

definition sample_change :: "autonomy_scope \<Rightarrow> string \<Rightarrow> rat \<Rightarrow> set_policy_input" where
  "sample_change sc i lvl = \<lparr>spScope = sc, spScopeId = i, spLevel = lvl, spGates = None, spIntake = None,
     spLocked = None, spReason = Some ''because'', spObserveDays = None, spPaused = None,
     spDefaultLevel = None, spTemplates = None, spCompletionReply = None\<rparr>"

lemma empty_store_ok: "store_ok empty_store"
  by (simp add: store_ok_def empty_store_def)

lemma sample_set:
  "\<exists>row db'. setWorkflowPolicy ''p1'' 0 empty_store (sample_change TEAM ''t1'' 2) None = Inr (row, db')
     \<and> policies db' = [row] \<and> readActivePolicy empty_store TEAM ''t1'' = None"
  by (simp add: set_policy_Inr check_policy_input_def sample_change_def isAutonomyLevel_def requireReason_def
      js_simps check_attr_fields_def json_fields_def check_scope_def empty_store_def policy_templates_def
      recordOpsAudit_def add_policy_def deactivate_def readActivePolicy_def js_uniq_def)

text \<open>
  C16: over any sequence of policy changes (setting, clearing, the auto-accept switch) every scope keeps
  at most one active version, every stored gate table is one that validation accepts, no version is
  ever deleted or altered but for being deactivated, and the audit only grows.
\<close>

theorem policy_changes_keep_history:
  assumes "policy_step\<^sup>*\<^sup>* db db'" and "store_ok db"
  shows "store_ok db' \<and> history_kept db db'"
  using assms policy_runs.run_inv policy_runs.run_mono by blast

theorem policy_changes_keep_history_witness:
  "\<exists>db'. policy_step\<^sup>*\<^sup>* empty_store db' \<and> policies db' \<noteq> [] \<and> store_ok db' \<and> history_kept empty_store db'"
proof -
  from sample_set obtain row db' where
      s: "setWorkflowPolicy ''p1'' 0 empty_store (sample_change TEAM ''t1'' 2) None = Inr (row, db')"
    and p: "policies db' = [row]" by blast
  have "policy_step empty_store db'"
    by (rule policy_step.set_policy [OF _ s]) (simp add: empty_store_def)
  then have "policy_step\<^sup>*\<^sup>* empty_store db'" by (rule r_into_rtranclp)
  with policy_changes_keep_history [OF this empty_store_ok] p show ?thesis by auto
qed

text \<open>
  C39: a policy that was set is what every later resolution of its scope reads: its version is one more
  than that of the version it replaces, and the active versions of all other scopes are untouched.
\<close>

theorem setWorkflowPolicy_effect:
  assumes "store_ok db" and "newId \<notin> wpId ` set (policies db)"
    and "setWorkflowPolicy newId now db inp by = Inr (row, db')"
  shows "readActivePolicy db' (spScope inp) (spScopeId inp) = Some row
    \<and> wpLevel row = spLevel inp
    \<and> wpVersion row = (case readActivePolicy db (spScope inp) (spScopeId inp) of
                          Some p \<Rightarrow> wpVersion p | None \<Rightarrow> 0) + 1
    \<and> (sc \<noteq> spScope inp \<or> i \<noteq> spScopeId inp \<longrightarrow> readActivePolicy db' sc i = readActivePolicy db sc i)"
proof -
  from assms(3) obtain rsn ts where
      row: "row = created_policy newId now inp rsn (readActivePolicy db (spScope inp) (spScopeId inp)) ts by"
    and db': "db' = recordOpsAudit ''policy.changed'' (scope_text (spScope inp) @ '':'' @ spScopeId inp) by rsn
          (add_policy row (deactivate (readActivePolicy db (spScope inp) (spScopeId inp)) db))"
    unfolding set_policy_Inr by blast
  have ok: "store_ok db'" using assms by (rule set_policy_ok)
  have "row \<in> set (policies db')" by (simp add: db' recordOpsAudit_def add_policy_def)
  moreover have "in_scope (spScope inp) (spScopeId inp) row" by (simp add: row in_scope_def)
  ultimately have active: "readActivePolicy db' (spScope inp) (spScopeId inp) = Some row"
    using ok by (blast intro: read_active_eq)
  have other: "readActivePolicy db' sc i = readActivePolicy db sc i"
    if diff: "sc \<noteq> spScope inp \<or> i \<noteq> spScopeId inp"
  proof (cases "readActivePolicy db sc i")
    case None
    have "\<not> in_scope sc i r" if "r \<in> set (policies db')" for r
    proof
      assume r: "in_scope sc i r"
      with diff have "r \<noteq> row" by (auto simp: row in_scope_def)
      with that have "r \<in> set (policies (deactivate (readActivePolicy db (spScope inp) (spScopeId inp)) db))"
        by (simp add: db' recordOpsAudit_def add_policy_def)
      with r deactivate_mem have "r \<in> set (policies db)" by (fastforce simp: in_scope_def)
      with r None show False by (simp add: read_active_None)
    qed
    then have "readActivePolicy db' sc i = None" unfolding read_active_None by blast
    with None show ?thesis by simp
  next
    case (Some q)
    then have q: "q \<in> set (policies db)" "in_scope sc i q" using read_active_mem by blast+
    have "q \<in> set (policies (deactivate (readActivePolicy db (spScope inp) (spScopeId inp)) db))"
    proof (cases "readActivePolicy db (spScope inp) (spScopeId inp)")
      case None
      with q show ?thesis by (simp add: deactivate_def)
    next
      case (Some p)
      then have p: "p \<in> set (policies db)" "in_scope (spScope inp) (spScopeId inp) p" using read_active_mem by blast+
      with q diff have "p \<noteq> q" by (auto simp: in_scope_def)
      with p q assms(1) have "wpId q \<noteq> wpId p"
        unfolding store_ok_def using unique_key_inj by metis
      with q Some show ?thesis by (force simp: deactivate_def update_rows_def)
    qed
    then have "q \<in> set (policies db')" by (simp add: db' recordOpsAudit_def add_policy_def)
    with q ok Some show ?thesis using read_active_eq by simp
  qed
  with active show ?thesis by (simp add: row)
qed

theorem setWorkflowPolicy_effect_witness:
  "\<exists>row db'. setWorkflowPolicy ''p1'' 0 empty_store (sample_change TEAM ''t1'' 2) None = Inr (row, db') \<and>
     readActivePolicy db' TEAM ''t1'' = Some row \<and> wpLevel row = 2 \<and> wpVersion row = 1"
proof -
  from sample_set obtain row db' where s: "setWorkflowPolicy ''p1'' 0 empty_store (sample_change TEAM ''t1'' 2) None = Inr (row, db')"
    and none: "readActivePolicy empty_store TEAM ''t1'' = None" by blast
  have "''p1'' \<notin> wpId ` set (policies empty_store)" by (simp add: empty_store_def)
  from setWorkflowPolicy_effect [OF empty_store_ok this s] s none show ?thesis by (auto simp: sample_change_def)
qed

lemma toPolicyRow_valid:
  assumes "store_ok db"
  shows "valid_policy (toPolicyRow (readActivePolicy db sc i))"
proof (cases "readActivePolicy db sc i")
  case None
  then show ?thesis by (simp add: toPolicyRow_def valid_policy_def)
next
  case (Some r)
  with assms read_active_mem have "validateGateTable (Some (wpGates r)) = []"
    unfolding store_ok_def by blast
  with Some show ?thesis by (simp add: toPolicyRow_def valid_policy_def)
qed

text \<open>
  What the resolution reads of the store: the active version of the workspace, and of the project of the
  item, or of its team where the project has none.
\<close>

definition governing_policy :: "policy_db \<Rightarrow> issue \<Rightarrow> workflow_policy option" where
  "governing_policy db item =
     (case Option.bind (findProjectIdFor db item) (readActivePolicy db SPROJECT) of
        Some p \<Rightarrow> Some p
      | None \<Rightarrow> readActivePolicy db TEAM (teamId item))"

definition trust_of :: "policy_db \<Rightarrow> (ident \<times> actor_kind) option \<Rightarrow> agent_trust option" where
  "trust_of db actor =
     (case actor of
        Some (i, AGENT) \<Rightarrow> (case find_row atActorId i (agentTrusts db) of Some t \<Rightarrow> Some (atLevel t) | None \<Rightarrow> Some OBSERVE)
      | _ \<Rightarrow> None)"

lemma clamp_stored: "0 < n \<Longrightarrow> n \<le> clampLevel (if isAutonomyLevel v then v else 0) \<Longrightarrow> of_nat n \<le> v"
  by (auto simp: isAutonomyLevel_def clampLevel_def split: if_splits)

lemma load_level:
  assumes "0 < n" and "n \<le> raLevel (avResolved (loadAutonomyFor db item actor now))"
  shows "\<exists>ws row. readActivePolicy db WORKSPACE WORKSPACE_SETTINGS_ID = Some ws \<and> \<not> wpPaused ws \<and> of_nat n \<le> wpLevel ws \<and>
    governing_policy db item = Some row \<and> of_nat n \<le> wpLevel row \<and> n \<le> trust_cap (trust_of db actor)"
proof -
  let ?inp = "\<lparr>riWorkspace = toPolicyRow (readActivePolicy db WORKSPACE WORKSPACE_SETTINGS_ID),
    riTeam = toPolicyRow (readActivePolicy db TEAM (teamId item)),
    riProject = (case findProjectIdFor db item of None \<Rightarrow> None | Some p \<Rightarrow> toPolicyRow (readActivePolicy db SPROJECT p)),
    riTrust = trust_of db actor, riNow = now\<rparr>"
  have "avResolved (loadAutonomyFor db item actor now) = resolveAutonomy ?inp"
    by (simp add: loadAutonomyFor_def trust_of_def Let_def)
  with assms(2) have le: "n \<le> raCeiling (resolveAutonomy ?inp)" "n \<le> raRequested (resolveAutonomy ?inp)" "n \<le> trust_cap (trust_of db actor)"
    by (simp_all add: raLevel_min)
  from le(1) assms(1) obtain ws where "readActivePolicy db WORKSPACE WORKSPACE_SETTINGS_ID = Some ws" "\<not> wpPaused ws" "of_nat n \<le> wpLevel ws"
    by (auto simp: resolve_ceiling toPolicyRow_def dest: clamp_stored split: option.splits if_split_asm)
  moreover from le(2) assms(1) obtain row where "governing_policy db item = Some row" "of_nat n \<le> wpLevel row"
    by (cases "findProjectIdFor db item")
      (auto simp: resolve_requested toPolicyRow_def governing_policy_def dest: clamp_stored split: option.splits)
  ultimately show ?thesis using le(3) by blast
qed

lemma load_observing:
  "raObserving (avResolved (loadAutonomyFor db item actor now)) \<longleftrightarrow>
     (\<exists>row u. governing_policy db item = Some row \<and> wpObserveUntil row = Some u \<and> now < u)"
  by (cases "findProjectIdFor db item")
    (auto simp: loadAutonomyFor_def resolve_observing toPolicyRow_def governing_policy_def Let_def split: option.splits)

lemma load_valid:
  assumes "store_ok db"
  shows "\<exists>inp. avResolved (loadAutonomyFor db item actor now) = resolveAutonomy inp \<and> valid_policies inp"
  by (auto simp: loadAutonomyFor_def Let_def valid_policies_def valid_policy_def [of None] toPolicyRow_valid [OF assms]
      intro!: exI conjI split: option.splits)

text \<open>
  C17: whatever sequence of policy changes a sound store has been through, a gate opens automatically for an item
  and an actor only when the rows then active allow it: the workspace has a policy that is not paused and the
  project of the item (its team, where the project has none) has one that is not observing, the levels stored in both
  have reached the level of that gate, and an agent has been promoted to it. Merging and spending never open.
\<close>

theorem stored_policies_gate:
  assumes "store_ok db0" and "policy_step\<^sup>*\<^sup>* db0 db"
    and "decide (avResolved (loadAutonomyFor db item actor now)) g facts = Inr d" and "dDecider d = ''auto''"
  shows "\<exists>n ws row. opens_at g = Some n \<and>
    readActivePolicy db WORKSPACE WORKSPACE_SETTINGS_ID = Some ws \<and> \<not> wpPaused ws \<and> of_nat n \<le> wpLevel ws \<and>
    governing_policy db item = Some row \<and> of_nat n \<le> wpLevel row \<and> (\<forall>u. wpObserveUntil row = Some u \<longrightarrow> u \<le> now) \<and>
    (\<forall>i. actor = Some (i, AGENT) \<longrightarrow> (\<exists>t. find_row atActorId i (agentTrusts db) = Some t \<and> n \<le> TRUST_LEVEL (atLevel t)))"
proof -
  have ok: "store_ok db" using assms(2,1) by (rule policy_runs.run_inv)
  let ?r = "avResolved (loadAutonomyFor db item actor now)"
  from load_valid [OF ok] obtain inp where inp: "?r = resolveAutonomy inp" "valid_policies inp" by blast
  from resolved_auto_level [OF inp(2) assms(3) [unfolded inp(1)] assms(4)] obtain n where
    n: "opens_at g = Some n" "n \<le> raLevel ?r" by (auto simp: inp(1))
  from n(1) have pos: "0 < n" by (cases g) auto
  have "\<not> raObserving ?r" using assms(3,4) decide_auto_eq [of ?r g facts] by blast
  moreover note load_level [OF pos n(2)]
  moreover have "\<exists>t. find_row atActorId i (agentTrusts db) = Some t \<and> n \<le> TRUST_LEVEL (atLevel t)"
    if "actor = Some (i, AGENT)" "n \<le> trust_cap (trust_of db actor)" for i
    using that pos by (auto simp: trust_of_def trust_cap_def split: option.splits)
  ultimately show ?thesis using n(1) by (fastforce simp: load_observing)
qed

definition set_or_keep :: "ident \<Rightarrow> set_policy_input \<Rightarrow> policy_db \<Rightarrow> policy_db" where
  "set_or_keep newId inp db =
     (case setWorkflowPolicy newId 0 db inp None of Inr r \<Rightarrow> snd r | Inl e \<Rightarrow> db)"

definition sample_store :: policy_db where
  "sample_store = set_or_keep ''p2'' (sample_change TEAM ''t1'' 2)
     (set_or_keep ''p1'' (sample_change WORKSPACE ''workspace'' 3)
        (empty_store\<lparr>agentTrusts := [\<lparr>atActorId = ''a1'', atLevel = TL2\<rparr>]\<rparr>))"

definition sample_item :: issue where
  "sample_item = \<lparr>issueId = ''i1'', issueIdentifier = ''INV-1'', title = ''a'', kind = ISSUE, teamId = ''t1'',
     stateId = ''s1'', assigneeId = None, parentId = None, priority = 0, commitmentStatus = COMMITTED,
     revision = 1, acceptance = None, repository = None, resolution = None, supersededById = None,
     reopenCount = 0\<rparr>"

lemma set_or_keep_step:
  assumes "newId \<notin> wpId ` set (policies db)"
  shows "policy_step\<^sup>*\<^sup>* db (set_or_keep newId inp db)"
proof (cases "setWorkflowPolicy newId 0 db inp None")
  case (Inl e)
  then show ?thesis by (simp add: set_or_keep_def)
next
  case (Inr r)
  then have "policy_step db (snd r)"
    by (intro policy_step.set_policy [OF assms, where row = "fst r"]) simp
  with Inr show ?thesis by (simp add: set_or_keep_def)
qed

theorem stored_policies_gate_witness:
  "\<exists>row. governing_policy sample_store sample_item = Some row \<and> 2 \<le> wpLevel row \<and>
     (\<exists>t. find_row atActorId ''a1'' (agentTrusts sample_store) = Some t \<and> 2 \<le> TRUST_LEVEL (atLevel t))"
proof -
  let ?db = "empty_store\<lparr>agentTrusts := [\<lparr>atActorId = ''a1'', atLevel = TL2\<rparr>]\<rparr>"
  have run: "policy_step\<^sup>*\<^sup>* ?db sample_store"
    unfolding sample_store_def
    by (rule rtranclp_trans [OF set_or_keep_step set_or_keep_step]) code_simp+
  have "store_ok ?db" by (simp add: store_ok_def empty_store_def)
  moreover have "decide (avResolved (loadAutonomyFor sample_store sample_item (Some (''a1'', AGENT)) 0)) review_accept green_facts =
      Inr \<lparr>dDecider = ''auto'', dMatched = True, dReason = ''Automatic under L2.''\<rparr>"
    by code_simp
  ultimately show ?thesis using stored_policies_gate [OF _ run] by fastforce
qed

end
