(* ===== verification/Agent_Requests.thy ===== *)
theory Agent_Requests
  imports Autonomy_Store
begin

text \<open>
  Requests to agents and people (\<^verbatim>\<open>packages/server/src/agent-request-state.ts\<close> and
  \<^verbatim>\<open>agent-request-service.ts\<close>): a request is submitted, claimed by one execution under a lease,
  and answered, asked back, cancelled or failed. A claim belongs to the execution that holds its
  token, not to the actor: every take has a new generation and a new token, of which the row
  keeps the hash.

  The hash function, the minted token and the identifiers of new rows are arguments. Every operation
  is one transaction. Comments, evidence, outbox events and notifications are rows of the database
  with the columns the modelled code reads; mention rows, decision receipts and the inbox's page
  projection are not modelled.
\<close>

section \<open>States\<close>

datatype agent_request_state = SUBMITTED | WORKING | INPUT_REQUIRED | RQ_COMPLETED | FAILED | RQ_CANCELED

fun toWireState :: "agent_request_state \<Rightarrow> string" where
  "toWireState SUBMITTED = ''submitted''"
| "toWireState WORKING = ''working''"
| "toWireState INPUT_REQUIRED = ''input-required''"
| "toWireState RQ_COMPLETED = ''completed''"
| "toWireState FAILED = ''failed''"
| "toWireState RQ_CANCELED = ''canceled''"

definition A2A_REQUEST_STATES :: "string list" where
  "A2A_REQUEST_STATES = [''submitted'', ''working'', ''input-required'', ''completed'', ''failed'', ''canceled'']"

definition FROM_WIRE :: "(string \<times> agent_request_state) list" where
  "FROM_WIRE = [(''submitted'', SUBMITTED), (''working'', WORKING), (''input-required'', INPUT_REQUIRED),
     (''completed'', RQ_COMPLETED), (''failed'', FAILED), (''canceled'', RQ_CANCELED)]"

definition fromWireState :: "string \<Rightarrow> agent_request_state option" where
  "fromWireState v = map_of FROM_WIRE v"

definition TERMINAL_REQUEST_STATES :: "agent_request_state list" where
  "TERMINAL_REQUEST_STATES = [RQ_COMPLETED, FAILED, RQ_CANCELED]"

definition CLAIMABLE_REQUEST_STATES :: "agent_request_state list" where
  "CLAIMABLE_REQUEST_STATES = [SUBMITTED, WORKING, INPUT_REQUIRED]"

definition isTerminalState :: "agent_request_state \<Rightarrow> bool" where
  "isTerminalState s \<longleftrightarrow> s \<in> set TERMINAL_REQUEST_STATES"

section \<open>Rows\<close>

record agent_request =
  rqId :: ident
  rqWorkId :: ident
  rqRootCommentId :: ident
  targetActorId :: ident
  requestedByActorId :: ident
  rqBody :: string
  rqState :: agent_request_state
  deadlineAt :: instant
  canceledAt :: "instant option"
  claimedBy :: "ident option"
  claimedAt :: "instant option"
  claimExpiresAt :: "instant option"
  claimGeneration :: int
  claimTokenHash :: "string option"
  answeredCommentId :: "ident option"
  failureReason :: "string option"
  payingPrincipal :: "string option"
  idempotencyKey :: "string option"
  rootRequestId :: "ident option"
  handedOffFromId :: "ident option"
  hopCount :: int
  chainDeadlineAt :: "instant option"
  needInfo :: bool
  budgetUnits :: "int option"
  rqCreatedAt :: instant

datatype global_role = ADMIN | USER | GUEST

record user =
  userId :: ident
  userKind :: actor_kind
  globalRole :: global_role
  handle :: "string option"
  userName :: string
  email :: "string option"
  deactivatedAt :: "instant option"
  ownerId :: "ident option"
  successorActorId :: "ident option"

record comment =
  commentId :: ident
  commentBody :: string
  commentIssueId :: ident
  parentCommentId :: "ident option"
  commentUserId :: ident

record work_evidence =
  evActorId :: ident
  evKind :: string
  evSummary :: "string option"
  evUrl :: string
  evWorkId :: ident

record request_event =
  eventType :: string
  eventWorkId :: ident
  eventRequestId :: ident

record notification =
  ntType :: string
  ntUserId :: ident
  ntWorkId :: ident
  ntRequestId :: ident
  ntResolution :: "string option"

datatype team_role = VIEWER | EDITOR | OWNER

record team_membership =
  tmTeamId :: ident
  tmUserId :: ident
  tmRole :: team_role
  tmCreatedAt :: instant

record agent_credential =
  acId :: ident
  acUserId :: ident
  acTeamId :: ident
  acScopes :: "string list"
  acRevokedAt :: "instant option"
  acExpiresAt :: "instant option"

record request_db = policy_db +
  users :: "user list"
  memberships :: "team_membership list"
  credentials :: "agent_credential list"
  requests :: "agent_request list"
  comments :: "comment list"
  evidences :: "work_evidence list"
  events :: "request_event list"
  notifications :: "notification list"

definition REQUEST_CLAIM_LEASE_MS :: int where
  "REQUEST_CLAIM_LEASE_MS = 60000"

definition DEFAULT_REQUEST_DEADLINE_MS :: int where
  "DEFAULT_REQUEST_DEADLINE_MS = 24 * 60 * 60 * 1000"

definition find_request :: "request_db \<Rightarrow> ident \<Rightarrow> agent_request option" where
  "find_request db i = find_row rqId i (requests db)"

definition find_user :: "request_db \<Rightarrow> ident \<Rightarrow> user option" where
  "find_user db i = find_row userId i (users db)"

definition update_requests ::
  "(agent_request \<Rightarrow> bool) \<Rightarrow> (agent_request \<Rightarrow> agent_request) \<Rightarrow> request_db \<Rightarrow> request_db" where
  "update_requests P f db = db\<lparr>requests := update_rows P f (requests db)\<rparr>"

definition add_comment :: "comment \<Rightarrow> request_db \<Rightarrow> request_db" where
  "add_comment c db = db\<lparr>comments := comments db @ [c]\<rparr>"

definition enqueueWorkEvent :: "string \<Rightarrow> ident \<Rightarrow> ident \<Rightarrow> request_db \<Rightarrow> request_db" where
  "enqueueWorkEvent t w r db =
     db\<lparr>events := events db @ [\<lparr>eventType = t, eventWorkId = w, eventRequestId = r\<rparr>]\<rparr>"

definition notify :: "string \<Rightarrow> ident \<Rightarrow> ident \<Rightarrow> ident \<Rightarrow> request_db \<Rightarrow> request_db" where
  "notify t u w r db = db\<lparr>notifications := notifications db @
     [\<lparr>ntType = t, ntUserId = u, ntWorkId = w, ntRequestId = r, ntResolution = None\<rparr>]\<rparr>"

text \<open>Resolution by the request identifier in the payload; a first resolution is kept.\<close>

definition resolveAttentionNotifications :: "string list \<Rightarrow> ident \<Rightarrow> string \<Rightarrow> request_db \<Rightarrow> request_db" where
  "resolveAttentionNotifications types r res db =
     db\<lparr>notifications := update_rows
       (\<lambda>n. ntResolution n = None \<and> ntType n \<in> set types \<and> ntRequestId n = r)
       (\<lambda>n. n\<lparr>ntResolution := Some res\<rparr>) (notifications db)\<rparr>"

section \<open>Creating a request\<close>

record create_request_input =
  crBody :: string
  crDeadlineAt :: "instant option"
  crIdempotencyKey :: "string option"
  crPayingPrincipal :: "string option"
  crRequestedBy :: ident
  crRootCommentId :: ident
  crTarget :: ident
  crWorkId :: ident
  crNeedInfo :: bool

definition new_request :: "ident \<Rightarrow> create_request_input \<Rightarrow> instant \<Rightarrow> agent_request" where
  "new_request newId inp now =
     \<lparr>rqId = newId, rqWorkId = crWorkId inp, rqRootCommentId = crRootCommentId inp,
      targetActorId = crTarget inp, requestedByActorId = crRequestedBy inp, rqBody = crBody inp,
      rqState = SUBMITTED,
      deadlineAt = (case crDeadlineAt inp of Some d \<Rightarrow> d | None \<Rightarrow> now + DEFAULT_REQUEST_DEADLINE_MS),
      canceledAt = None, claimedBy = None, claimedAt = None, claimExpiresAt = None,
      claimGeneration = 0, claimTokenHash = None, answeredCommentId = None, failureReason = None,
      payingPrincipal = crPayingPrincipal inp, idempotencyKey = crIdempotencyKey inp,
      rootRequestId = None, handedOffFromId = None, hopCount = 0, chainDeadlineAt = None,
      needInfo = crNeedInfo inp, budgetUnits = None, rqCreatedAt = now\<rparr>"

definition add_request :: "agent_request \<Rightarrow> request_db \<Rightarrow> request_db" where
  "add_request r db = db\<lparr>requests := requests db @ [r]\<rparr>"

definition createAgentRequest ::
  "ident \<Rightarrow> request_db \<Rightarrow> create_request_input \<Rightarrow> instant \<Rightarrow> agent_request \<times> request_db" where
  "createAgentRequest newId db inp now =
     (let existing = (if truthy (crIdempotencyKey inp)
                      then find (\<lambda>r. idempotencyKey r = crIdempotencyKey inp) (requests db) else None)
      in case existing of
           Some r \<Rightarrow> (r, db)
         | None \<Rightarrow> (new_request newId inp now, add_request (new_request newId inp now) db))"

section \<open>Audits of request events\<close>

definition recordRequestAudit ::
  "write_actor \<Rightarrow> string \<Rightarrow> agent_request \<Rightarrow> request_db \<Rightarrow> (kernel_error, request_db) result" where
  "recordRequestAudit act event r db =
     (case find_issue db (rqWorkId r) of
        None \<Rightarrow> Inl (RecordNotFound ''issue'')
      | Some w \<Rightarrow>
          Inr (recordWorkAudit
            (Some (act\<lparr>reason := Some (if truthy (reason act) then event @ ''; '' @ the (reason act) else event),
                       surface := Some (''agent_request.'' @ event)\<rparr>))
            (Some w) w (rqWorkId r) db))"

definition actorKindOf :: "request_db \<Rightarrow> ident \<Rightarrow> actor_kind" where
  "actorKindOf db i = (case find_user db i of Some u \<Rightarrow> userKind u | None \<Rightarrow> AGENT)"

definition as_actor :: "request_db \<Rightarrow> ident \<Rightarrow> write_actor" where
  "as_actor db i = \<lparr>actorId = Some i, actorKind = actorKindOf db i, reason = None, surface = None\<rparr>"

section \<open>Claiming\<close>

record claim_input =
  ciActorId :: ident
  ciToken :: "string option"
  ciId :: ident
  ciLeaseMs :: "int option"

definition later :: "instant option \<Rightarrow> instant \<Rightarrow> bool" where
  "later e now \<longleftrightarrow> (case e of None \<Rightarrow> False | Some x \<Rightarrow> x > now)"

definition earlier :: "instant option \<Rightarrow> instant \<Rightarrow> bool" where
  "earlier e now \<longleftrightarrow> (case e of None \<Rightarrow> False | Some x \<Rightarrow> x < now)"

definition claimable :: "agent_request \<Rightarrow> bool" where
  "claimable r \<longleftrightarrow> rqState r \<in> set CLAIMABLE_REQUEST_STATES"

definition renewable :: "(string \<Rightarrow> string) \<Rightarrow> claim_input \<Rightarrow> instant \<Rightarrow> agent_request \<Rightarrow> bool" where
  "renewable hash inp now r \<longleftrightarrow>
     rqId r = ciId inp \<and> targetActorId r = ciActorId inp \<and> claimedBy r = Some (ciActorId inp) \<and>
     claimTokenHash r = Some (hash (the (ciToken inp))) \<and> later (claimExpiresAt r) now \<and> claimable r"

definition takeable :: "claim_input \<Rightarrow> instant \<Rightarrow> agent_request \<Rightarrow> bool" where
  "takeable inp now r \<longleftrightarrow>
     rqId r = ciId inp \<and> targetActorId r = ciActorId inp \<and> claimable r \<and>
     (claimedBy r = None \<or> earlier (claimExpiresAt r) now)"

definition claimAgentRequest ::
  "(string \<Rightarrow> string) \<Rightarrow> string \<Rightarrow> request_db \<Rightarrow> claim_input \<Rightarrow> instant
   \<Rightarrow> (kernel_error, (string \<times> agent_request) \<times> request_db) result" where
  "claimAgentRequest hash minted db inp now =
     (let expiresAt = now + (case ciLeaseMs inp of Some l \<Rightarrow> l | None \<Rightarrow> REQUEST_CLAIM_LEASE_MS);
          act = as_actor db (ciActorId inp) in
      if truthy (ciToken inp) \<and> count_rows (renewable hash inp now) (requests db) = 1
      then
        let db1 = update_requests (renewable hash inp now) (\<lambda>r. r\<lparr>claimExpiresAt := Some expiresAt\<rparr>) db in
        (case find_request db1 (ciId inp) of
           None \<Rightarrow> Inl (RecordNotFound ''agentRequest'')
         | Some r \<Rightarrow> bind_result (recordRequestAudit act ''renewed'' r db1) (\<lambda>db2. Inr ((the (ciToken inp), r), db2)))
      else if count_rows (takeable inp now) (requests db) = 0
      then
        (case find_request db (ciId inp) of
           None \<Rightarrow> Inl (NotFoundError ''REQUEST_NOT_FOUND_MESSAGE'')
         | Some r \<Rightarrow>
             if truthy (ciToken inp) \<and> claimedBy r = Some (ciActorId inp)
             then Inl (ValidationError ''CLAIM_SUPERSEDED_MESSAGE'')
             else Inl (ValidationError ''REQUEST_NOT_CLAIMABLE_MESSAGE''))
      else
        let db1 = update_requests (takeable inp now)
              (\<lambda>r. r\<lparr>claimExpiresAt := Some expiresAt, claimGeneration := claimGeneration r + 1,
                     claimTokenHash := Some (hash minted), claimedAt := Some now,
                     claimedBy := Some (ciActorId inp), rqState := WORKING\<rparr>) db in
        (case find_request db1 (ciId inp) of
           None \<Rightarrow> Inl (RecordNotFound ''agentRequest'')
         | Some r \<Rightarrow> bind_result (recordRequestAudit act ''claimed'' r db1) (\<lambda>db2. Inr ((minted, r), db2))))"

section \<open>Answering\<close>

definition settleNeedInfoAnswered ::
  "agent_request \<Rightarrow> ident \<Rightarrow> request_db \<Rightarrow> (kernel_error, request_db) result" where
  "settleNeedInfoAnswered r answeredById db =
     (let db1 = resolveAttentionNotifications [''needinfo.requested''] (rqId r) ''answered'' db in
      case find_issue db1 (rqWorkId r) of
        None \<Rightarrow> Inl (RecordNotFound ''issue'')
      | Some w \<Rightarrow>
          let db2 = enqueueWorkEvent ''needinfo.answered'' (issueId w) (rqId r) db1 in
          if requestedByActorId r = answeredById then Inr db2
          else case find_user db2 (requestedByActorId r) of
                 None \<Rightarrow> Inr db2
               | Some u \<Rightarrow>
                   if deactivatedAt u \<noteq> None then Inr db2
                   else Inr (notify ''needinfo.answered'' (userId u) (issueId w) (rqId r) db2))"

definition notifyRequesterAskedBack ::
  "agent_request \<Rightarrow> ident \<Rightarrow> request_db \<Rightarrow> (kernel_error, request_db) result" where
  "notifyRequesterAskedBack r askedById db =
     (case find_issue db (rqWorkId r) of
        None \<Rightarrow> Inl (RecordNotFound ''issue'')
      | Some w \<Rightarrow>
          let db1 = enqueueWorkEvent ''agent.request_input_required'' (issueId w) (rqId r) db in
          case find_user db (requestedByActorId r) of
            None \<Rightarrow> Inr db1
          | Some u \<Rightarrow>
              if userKind u \<noteq> HUMAN \<or> userId u = askedById then Inr db1
              else Inr (notify ''agent.request_input_required'' (userId u) (issueId w) (rqId r) db1))"

definition after_answer ::
  "agent_request \<Rightarrow> agent_request_state \<Rightarrow> ident \<Rightarrow> request_db \<Rightarrow> (kernel_error, request_db) result" where
  "after_answer r next by db =
     bind_result (if needInfo r \<and> next \<noteq> INPUT_REQUIRED then settleNeedInfoAnswered r by db else Inr db) (\<lambda>db1.
     if next = INPUT_REQUIRED then notifyRequesterAskedBack r by db1 else Inr db1)"

record answer_input =
  aiActorId :: ident
  aiBody :: string
  aiToken :: string
  aiEvidence :: "(string \<times> string option \<times> string) list" \<comment> \<open>kind, summary, url\<close>
  aiId :: ident
  aiState :: "string option"

definition answer_state :: "string option \<Rightarrow> agent_request_state" where
  "answer_state s =
     (case s of None \<Rightarrow> RQ_COMPLETED
      | Some w \<Rightarrow> if w = ''completed'' then RQ_COMPLETED else if w = ''failed'' then FAILED else INPUT_REQUIRED)"

definition add_evidence :: "ident \<Rightarrow> ident \<Rightarrow> (string \<times> string option \<times> string) list \<Rightarrow> request_db \<Rightarrow> request_db" where
  "add_evidence a w items db = db\<lparr>evidences := evidences db @
     map (\<lambda>(k, s, u). \<lparr>evActorId = a, evKind = k, evSummary = s, evUrl = u, evWorkId = w\<rparr>) items\<rparr>"

definition record_answer :: "ident \<Rightarrow> agent_request_state \<Rightarrow> agent_request \<Rightarrow> agent_request" where
  "record_answer c next r =
     (let r1 = r\<lparr>answeredCommentId := Some c, rqState := next\<rparr> in
      if next = INPUT_REQUIRED then r1\<lparr>claimExpiresAt := None, claimTokenHash := None, claimedBy := None\<rparr> else r1)"

definition answerAgentRequest ::
  "(string \<Rightarrow> string) \<Rightarrow> ident \<Rightarrow> request_db \<Rightarrow> answer_input \<Rightarrow> instant
   \<Rightarrow> (kernel_error, (ident \<times> agent_request) \<times> request_db) result" where
  "answerAgentRequest hash newComment db inp now =
     (let body = js_trim (aiBody inp); presented = Some (hash (aiToken inp)); next = answer_state (aiState inp) in
      bind_result (throw_if (body = []) (ValidationError ''ANSWER_REQUIRES_BODY_MESSAGE'')) (\<lambda>_.
      bind_result (throw_if (aiToken inp = []) (ValidationError ''CLAIM_TOKEN_REQUIRED_MESSAGE'')) (\<lambda>_.
      case find_request db (aiId inp) of
        None \<Rightarrow> Inl (NotFoundError ''REQUEST_NOT_FOUND_MESSAGE'')
      | Some r \<Rightarrow>
          bind_result (throw_if (isTerminalState (rqState r)) (ValidationError ''REQUEST_ALREADY_TERMINAL_MESSAGE'')) (\<lambda>_.
          let sameActor = (claimedBy r = Some (aiActorId inp));
              sameExecution = (sameActor \<and> claimTokenHash r = presented);
              leaseLive = later (claimExpiresAt r) now in
          bind_result (throw_if (sameActor \<and> \<not> sameExecution) (ValidationError ''CLAIM_SUPERSEDED_MESSAGE'')) (\<lambda>_.
          bind_result (throw_if (\<not> sameExecution \<or> \<not> leaseLive) (ValidationError ''REQUEST_NOT_HELD_MESSAGE'')) (\<lambda>_.
          let db1 = add_comment \<lparr>commentId = newComment, commentBody = body, commentIssueId = rqWorkId r,
                      parentCommentId = Some (rqRootCommentId r), commentUserId = aiActorId inp\<rparr> db;
              db2 = add_evidence (aiActorId inp) (rqWorkId r) (aiEvidence inp) db1;
              cas = (\<lambda>q. rqId q = rqId r \<and> claimedBy q = Some (aiActorId inp) \<and> claimTokenHash q = presented \<and> claimable q) in
          bind_result (throw_if (count_rows cas (requests db2) = 0) (ValidationError ''REQUEST_NOT_HELD_MESSAGE'')) (\<lambda>_.
          let db3 = update_requests cas (record_answer newComment next) db2 in
          bind_result (recordRequestAudit (as_actor db (aiActorId inp)) ''answered'' r db3) (\<lambda>db4.
          bind_result (after_answer r next (aiActorId inp) db4) (\<lambda>db5.
          case find_request db5 (rqId r) of
            None \<Rightarrow> Inl (RecordNotFound ''agentRequest'')
          | Some q \<Rightarrow> Inr ((newComment, q), db5)))))))))) "

record human_by =
  hbActorId :: ident
  hbActorKind :: actor_kind
  hbGlobalRole :: global_role

record human_answer_input =
  haBody :: string
  haBy :: human_by
  haId :: ident
  haOverrideReason :: "string option"
  haState :: "string option"

definition override_reason :: "string option \<Rightarrow> string" where
  "override_reason s = (case s of None \<Rightarrow> [] | Some t \<Rightarrow> js_trim t)"

definition human_actor :: "ident \<Rightarrow> bool \<Rightarrow> string option \<Rightarrow> write_actor" where
  "human_actor i override rsn =
     \<lparr>actorId = Some i, actorKind = HUMAN,
      reason = (if override then Some (''override: '' @ override_reason rsn) else None), surface = None\<rparr>"

definition human_state :: "string option \<Rightarrow> agent_request_state" where
  "human_state s = (if s = Some ''failed'' then FAILED else if s = Some ''input-required'' then INPUT_REQUIRED else RQ_COMPLETED)"

definition answerAgentRequestAsHuman ::
  "ident \<Rightarrow> request_db \<Rightarrow> human_answer_input \<Rightarrow> (kernel_error, (ident \<times> agent_request) \<times> request_db) result" where
  "answerAgentRequestAsHuman newComment db inp =
     (let body = js_trim (haBody inp); by = haBy inp; next = human_state (haState inp) in
      bind_result (throw_if (body = []) (ValidationError ''ANSWER_REQUIRES_BODY_MESSAGE'')) (\<lambda>_.
      bind_result (throw_if (hbActorKind by \<noteq> HUMAN) (ValidationError ''HUMAN_ANSWER_NOT_TARGET_MESSAGE'')) (\<lambda>_.
      case find_request db (haId inp) of
        None \<Rightarrow> Inl (NotFoundError ''REQUEST_NOT_FOUND_MESSAGE'')
      | Some r \<Rightarrow>
          bind_result (throw_if (isTerminalState (rqState r)) (ValidationError ''REQUEST_ALREADY_TERMINAL_MESSAGE'')) (\<lambda>_.
          bind_result (throw_if (rqState r = INPUT_REQUIRED) (ValidationError ''REQUEST_AWAITING_REPLY_MESSAGE'')) (\<lambda>_.
          let override = (targetActorId r \<noteq> hbActorId by) in
          bind_result (throw_if (override \<and> hbGlobalRole by \<noteq> ADMIN) (ValidationError ''HUMAN_ANSWER_NOT_TARGET_MESSAGE'')) (\<lambda>_.
          bind_result (throw_if (override \<and> override_reason (haOverrideReason inp) = [])
            (ValidationError ''HUMAN_ANSWER_OVERRIDE_REASON_REQUIRED_MESSAGE'')) (\<lambda>_.
          let db1 = add_comment \<lparr>commentId = newComment, commentBody = body, commentIssueId = rqWorkId r,
                      parentCommentId = Some (rqRootCommentId r), commentUserId = hbActorId by\<rparr> db;
              cas = (\<lambda>q. rqId q = rqId r \<and> claimable q \<and> rqState q \<noteq> INPUT_REQUIRED) in
          bind_result (throw_if (count_rows cas (requests db1) = 0) (ValidationError ''REQUEST_ALREADY_TERMINAL_MESSAGE'')) (\<lambda>_.
          let db2 = update_requests cas (\<lambda>q. q\<lparr>answeredCommentId := Some newComment, claimExpiresAt := None,
                      claimTokenHash := None, claimedBy := None, rqState := next\<rparr>) db1 in
          bind_result (recordRequestAudit (human_actor (hbActorId by) override (haOverrideReason inp)) ''answered'' r db2) (\<lambda>db3.
          let db4 = enqueueWorkEvent ''agent.request_answered'' (rqWorkId r) (rqId r) db3;
              db5 = resolveAttentionNotifications [''agent.request_handed_off''] (rqId r) ''answered'' db4 in
          bind_result (after_answer r next (hbActorId by) db5) (\<lambda>db6.
          case find_request db6 (rqId r) of
            None \<Rightarrow> Inl (RecordNotFound ''agentRequest'')
          | Some q \<Rightarrow> Inr ((newComment, q), db6)))))))))))"

definition cancelAgentRequest ::
  "request_db \<Rightarrow> write_actor \<Rightarrow> ident \<Rightarrow> instant \<Rightarrow> (kernel_error, agent_request \<times> request_db) result" where
  "cancelAgentRequest db by i now =
     (let cas = (\<lambda>q. rqId q = i \<and> claimable q) in
      if count_rows cas (requests db) = 0
      then (case find_request db i of
              None \<Rightarrow> Inl (NotFoundError ''REQUEST_NOT_FOUND_MESSAGE'')
            | Some r \<Rightarrow> Inl (ValidationError ''REQUEST_ALREADY_TERMINAL_MESSAGE''))
      else
        let db1 = update_requests cas (\<lambda>q. q\<lparr>canceledAt := Some now, rqState := RQ_CANCELED\<rparr>) db in
        case find_request db1 i of
          None \<Rightarrow> Inl (RecordNotFound ''agentRequest'')
        | Some r \<Rightarrow> bind_result (recordRequestAudit by ''canceled'' r db1) (\<lambda>db2. Inr (r, db2)))"

record reply_input =
  riId :: ident
  riBody :: string
  riBy :: human_by
  riOverrideReason :: "string option"

definition replyToAgentRequest ::
  "ident \<Rightarrow> request_db \<Rightarrow> reply_input \<Rightarrow> (kernel_error, agent_request \<times> request_db) result" where
  "replyToAgentRequest newComment db inp =
     (let body = js_trim (riBody inp); by = riBy inp in
      bind_result (throw_if (body = []) (ValidationError ''ANSWER_REQUIRES_BODY_MESSAGE'')) (\<lambda>_.
      bind_result (throw_if (hbActorKind by \<noteq> HUMAN) (ValidationError ''REPLY_NOT_REQUESTER_MESSAGE'')) (\<lambda>_.
      case find_request db (riId inp) of
        None \<Rightarrow> Inl (NotFoundError ''REQUEST_NOT_FOUND_MESSAGE'')
      | Some r \<Rightarrow>
          bind_result (throw_if (rqState r \<noteq> INPUT_REQUIRED) (ValidationError ''REPLY_REQUIRES_INPUT_REQUIRED_MESSAGE'')) (\<lambda>_.
          let override = (requestedByActorId r \<noteq> hbActorId by) in
          bind_result (throw_if (override \<and> hbGlobalRole by \<noteq> ADMIN) (ValidationError ''REPLY_NOT_REQUESTER_MESSAGE'')) (\<lambda>_.
          bind_result (throw_if (override \<and> override_reason (riOverrideReason inp) = [])
            (ValidationError ''HUMAN_ANSWER_OVERRIDE_REASON_REQUIRED_MESSAGE'')) (\<lambda>_.
          let db1 = add_comment \<lparr>commentId = newComment, commentBody = body, commentIssueId = rqWorkId r,
                      parentCommentId = Some (rqRootCommentId r), commentUserId = hbActorId by\<rparr> db;
              cas = (\<lambda>q. rqId q = rqId r \<and> rqState q = INPUT_REQUIRED) in
          bind_result (throw_if (count_rows cas (requests db1) = 0) (ValidationError ''REPLY_REQUIRES_INPUT_REQUIRED_MESSAGE'')) (\<lambda>_.
          let db2 = update_requests cas (\<lambda>q. q\<lparr>rqState := SUBMITTED, answeredCommentId := None\<rparr>) db1 in
          bind_result (recordRequestAudit (human_actor (hbActorId by) override (riOverrideReason inp)) ''replied'' r db2) (\<lambda>db3.
          let db4 = enqueueWorkEvent ''agent.request_replied'' (rqWorkId r) (rqId r) db3;
              db5 = resolveAttentionNotifications [''agent.request_input_required''] (rqId r) ''replied'' db4 in
          case find_request db5 (rqId r) of
            None \<Rightarrow> Inl (RecordNotFound ''agentRequest'')
          | Some q \<Rightarrow> Inr (q, db5))))))))) "

section \<open>What an operation may do to the request table\<close>

lemma requests_simps [simp]:
  "requests (add_comment c db) = requests db"
  "requests (add_evidence a w es db) = requests db"
  "requests (enqueueWorkEvent t w r db) = requests db"
  "requests (notify t u w r db) = requests db"
  "requests (resolveAttentionNotifications ts r res db) = requests db"
  "requests (update_requests P f db) = update_rows P f (requests db)"
  "requests (add_request q db) = requests db @ [q]"
  by (simp_all add: add_comment_def add_evidence_def enqueueWorkEvent_def notify_def
      resolveAttentionNotifications_def update_requests_def add_request_def)

lemma requests_recordReopen [simp]: "requests (recordReopenIfAny w f t db) = requests db"
  by (simp add: recordReopenIfAny_def update_issue_def split: option.splits)

lemma requests_recordWorkAudit [simp]: "requests (recordWorkAudit a b c w db) = requests db"
  by (simp add: recordWorkAudit_def Let_def split: option.splits)

lemma recordRequestAudit_requests: "recordRequestAudit a e r db = Inr db' \<Longrightarrow> requests db' = requests db"
  by (auto simp: recordRequestAudit_def split: option.splits)

lemma settle_requests: "settleNeedInfoAnswered r by db = Inr db' \<Longrightarrow> requests db' = requests db"
  by (auto simp: settleNeedInfoAnswered_def Let_def split: option.splits if_splits)

lemma askedBack_requests: "notifyRequesterAskedBack r by db = Inr db' \<Longrightarrow> requests db' = requests db"
  by (auto simp: notifyRequesterAskedBack_def Let_def split: option.splits if_splits)

lemma after_answer_requests: "after_answer r next by db = Inr db' \<Longrightarrow> requests db' = requests db"
  by (auto simp: after_answer_def dest!: settle_requests askedBack_requests split: if_splits)

text \<open>
  A row changes only forward: identity, target and work are fixed, the generation never falls, and a
  row in a terminal state keeps its state, answer and claim.
\<close>

definition row_le :: "agent_request \<Rightarrow> agent_request \<Rightarrow> bool" where
  "row_le r r' \<longleftrightarrow>
     rqId r' = rqId r \<and> targetActorId r' = targetActorId r \<and> rqWorkId r' = rqWorkId r \<and>
     requestedByActorId r' = requestedByActorId r \<and> claimGeneration r \<le> claimGeneration r' \<and>
     (isTerminalState (rqState r) \<longrightarrow>
        rqState r' = rqState r \<and> answeredCommentId r' = answeredCommentId r \<and>
        claimGeneration r' = claimGeneration r \<and> claimedBy r' = claimedBy r \<and>
        claimTokenHash r' = claimTokenHash r)"

definition chain_root :: "agent_request \<Rightarrow> ident" where
  "chain_root r = (case rootRequestId r of Some x \<Rightarrow> x | None \<Rightarrow> rqId r)"

definition token_ok :: "(string \<Rightarrow> string) \<Rightarrow> string set \<Rightarrow> agent_request \<Rightarrow> agent_request \<Rightarrow> bool" where
  "token_ok hash toks r r' \<longleftrightarrow>
     claimTokenHash r' = claimTokenHash r \<or> claimTokenHash r' = None \<or>
     (\<exists>t \<in> toks. claimTokenHash r' = Some (hash t))"

definition row_ok :: "(string \<Rightarrow> string) \<Rightarrow> string set \<Rightarrow> agent_request \<Rightarrow> agent_request \<Rightarrow> bool" where
  "row_ok hash toks r r' \<longleftrightarrow> row_le r r' \<and> chain_root r' = chain_root r \<and> token_ok hash toks r r'"

inductive row_change :: "(string \<Rightarrow> string) \<Rightarrow> string set \<Rightarrow> agent_request list \<Rightarrow> agent_request list \<Rightarrow> bool"
  for hash toks where
  updated: "(\<And>r. r \<in> set rows \<Longrightarrow> P r \<Longrightarrow> row_ok hash toks r (f r)) \<Longrightarrow>
    row_change hash toks rows (update_rows P f rows)"
| added: "rqId r \<notin> rqId ` set rows \<Longrightarrow> claimTokenHash r = None \<Longrightarrow>
    chain_root r \<in> insert (rqId r) (rqId ` set rows) \<Longrightarrow>
    (\<And>q. q \<in> set rows \<Longrightarrow> chain_root q = chain_root r \<Longrightarrow> targetActorId q \<noteq> targetActorId r) \<Longrightarrow>
    row_change hash toks rows (rows @ [r])"

text \<open>Identifiers are unique, chains start at existing requests and never ask an actor twice.\<close>

definition rows_ok :: "agent_request list \<Rightarrow> bool" where
  "rows_ok rows \<longleftrightarrow>
     unique_key rqId rows \<and> chain_root ` set rows \<subseteq> rqId ` set rows \<and>
     (\<forall>r \<in> set rows. \<forall>q \<in> set rows. chain_root q = chain_root r \<and> targetActorId q = targetActorId r \<longrightarrow> rqId q = rqId r)"

lemma rows_okD:
  assumes "rows_ok rows"
  shows "unique_key rqId rows" and "chain_root ` set rows \<subseteq> rqId ` set rows"
    and "r \<in> set rows \<Longrightarrow> q \<in> set rows \<Longrightarrow> chain_root q = chain_root r \<Longrightarrow>
      targetActorId q = targetActorId r \<Longrightarrow> rqId q = rqId r"
  using assms unfolding rows_ok_def by blast+

definition rows_le :: "agent_request list \<Rightarrow> agent_request list \<Rightarrow> bool" where
  "rows_le rows rows' \<longleftrightarrow> (\<forall>r \<in> set rows. \<exists>r' \<in> set rows'. row_le r r')"

lemma row_le_refl [simp]: "row_le r r"
  by (simp add: row_le_def)

lemma row_le_trans: "row_le a b \<Longrightarrow> row_le b c \<Longrightarrow> row_le a c"
  unfolding row_le_def by fastforce

lemma rows_le_refl: "rows_le rows rows"
  unfolding rows_le_def using row_le_refl by blast

lemma rows_le_trans: "rows_le a b \<Longrightarrow> rows_le b c \<Longrightarrow> rows_le a c"
  unfolding rows_le_def by (meson row_le_trans)

lemma row_change_le: "row_change hash toks rows rows' \<Longrightarrow> rows_le rows rows'"
proof (induction rule: row_change.induct)
  case (updated rows P f)
  show ?case unfolding rows_le_def
  proof
    fix r assume r: "r \<in> set rows"
    have "(if P r then f r else r) \<in> set (update_rows P f rows)"
      using r by (auto simp: update_rows_def)
    moreover have "row_le r (if P r then f r else r)"
      using updated [OF r] by (simp add: row_ok_def)
    ultimately show "\<exists>r' \<in> set (update_rows P f rows). row_le r r'" by blast
  qed
next
  case (added r rows)
  show ?case unfolding rows_le_def using row_le_refl by fastforce
qed

lemma row_ok_facts:
  "row_ok hash toks r r' \<Longrightarrow> rqId r' = rqId r \<and> targetActorId r' = targetActorId r \<and> chain_root r' = chain_root r"
  by (simp add: row_ok_def row_le_def)

lemma updated_mem:
  assumes "\<And>r. r \<in> set rows \<Longrightarrow> P r \<Longrightarrow> row_ok hash toks r (f r)" and "q \<in> set (update_rows P f rows)"
  shows "\<exists>r \<in> set rows. row_ok hash toks r q"
proof -
  from update_rows_mem [OF assms(2)] obtain r where "r \<in> set rows" "q = (if P r then f r else r)" ..
  with assms(1) show ?thesis
    by (intro bexI [of _ r]) (auto simp: row_ok_def token_ok_def)
qed

lemma map_id_updated:
  "(\<And>r. r \<in> set rows \<Longrightarrow> P r \<Longrightarrow> row_ok hash toks r (f r)) \<Longrightarrow> map rqId (update_rows P f rows) = map rqId rows"
  unfolding update_rows_def by (induction rows) (auto dest: row_ok_facts)

lemma row_change_ok: "row_change hash toks rows rows' \<Longrightarrow> rows_ok rows \<Longrightarrow> rows_ok rows'"
proof (induction rule: row_change.induct)
  case (updated rows P f)
  have mem: "\<exists>r \<in> set rows. row_ok hash toks r q" if "q \<in> set (update_rows P f rows)" for q
    using updated_mem [of rows P hash toks f q] updated.hyps that by blast
  have ids: "map rqId (update_rows P f rows) = map rqId rows"
    using map_id_updated [of rows P hash toks f] updated.hyps by blast
  then have idset: "rqId ` set (update_rows P f rows) = rqId ` set rows" by (metis list.set_map)
  have "chain_root ` set (update_rows P f rows) \<subseteq> chain_root ` set rows"
  proof (rule image_subsetI)
    fix q assume "q \<in> set (update_rows P f rows)"
    from mem [OF this] obtain r where "r \<in> set rows" "row_ok hash toks r q" ..
    then show "chain_root q \<in> chain_root ` set rows" using row_ok_facts by (metis imageI)
  qed
  with updated.prems have roots: "chain_root ` set (update_rows P f rows) \<subseteq> rqId ` set (update_rows P f rows)"
    unfolding idset rows_ok_def by blast
  have asked: "rqId a = rqId b"
    if ab: "a \<in> set (update_rows P f rows)" "b \<in> set (update_rows P f rows)"
      "chain_root a = chain_root b" "targetActorId a = targetActorId b" for a b
  proof -
    from mem [OF ab(1)] obtain a' where a': "a' \<in> set rows" "row_ok hash toks a' a" by blast
    from mem [OF ab(2)] obtain b' where b': "b' \<in> set rows" "row_ok hash toks b' b" by blast
    note fa = row_ok_facts [OF a'(2)] and fb = row_ok_facts [OF b'(2)]
    have "chain_root a' = chain_root b' \<and> targetActorId a' = targetActorId b'"
      using fa fb ab(3,4) by simp
    with updated.prems a'(1) b'(1) have "rqId a' = rqId b'"
      unfolding rows_ok_def by blast
    with fa fb show ?thesis by simp
  qed
  have "unique_key rqId (update_rows P f rows)"
    using rows_okD(1) [OF updated.prems] ids unfolding unique_key_def by simp
  with roots asked show ?case unfolding rows_ok_def by blast
next
  case (added r rows)
  show ?case unfolding rows_ok_def
  proof (intro conjI ballI impI)
    show "unique_key rqId (rows @ [r])"
      using rows_okD(1) [OF added.prems] added.hyps(1) by simp
    show "chain_root ` set (rows @ [r]) \<subseteq> rqId ` set (rows @ [r])"
      using rows_okD(2) [OF added.prems] added.hyps(3) by auto
  next
    fix a b
    assume a: "a \<in> set (rows @ [r])" and b: "b \<in> set (rows @ [r])"
      and same: "chain_root b = chain_root a \<and> targetActorId b = targetActorId a"
    show "rqId b = rqId a"
    proof (cases "a = r \<or> b = r")
      case True
      have "a = r \<longleftrightarrow> b = r"
        using True a b same added.hyps(4) [of a] added.hyps(4) [of b] by fastforce
      with True show ?thesis by simp
    next
      case False
      with a b have "a \<in> set rows" "b \<in> set rows" by auto
      with same show ?thesis using rows_okD(3) [OF added.prems] by blast
    qed
  qed
qed

lemma row_change_tokens:
  assumes "row_change hash toks rows rows'" and "q \<in> set rows'"
  shows "claimTokenHash q = None \<or> (\<exists>t \<in> toks. claimTokenHash q = Some (hash t)) \<or>
    (\<exists>r \<in> set rows. rqId r = rqId q \<and> claimTokenHash q = claimTokenHash r)"
  using assms
proof (induction rule: row_change.induct)
  case (updated rows P f)
  from updated_mem [of rows P hash toks f q] updated.hyps updated.prems obtain r where "r \<in> set rows" "row_ok hash toks r q" by blast
  then show ?case by (auto simp: row_ok_def token_ok_def row_le_def)
next
  case (added r rows)
  then show ?case by auto
qed

section \<open>Each operation is such a change\<close>

lemma claimable_open [simp]: "claimable r \<Longrightarrow> \<not> isTerminalState (rqState r)"
  by (auto simp: claimable_def CLAIMABLE_REQUEST_STATES_def isTerminalState_def TERMINAL_REQUEST_STATES_def)

lemma chain_root_updates [simp]:
  "chain_root (r\<lparr>claimExpiresAt := e\<rparr>) = chain_root r"
  "chain_root (r\<lparr>claimGeneration := g\<rparr>) = chain_root r"
  "chain_root (r\<lparr>claimTokenHash := t\<rparr>) = chain_root r"
  "chain_root (r\<lparr>claimedAt := a\<rparr>) = chain_root r"
  "chain_root (r\<lparr>claimedBy := b\<rparr>) = chain_root r"
  "chain_root (r\<lparr>rqState := s\<rparr>) = chain_root r"
  "chain_root (r\<lparr>answeredCommentId := c\<rparr>) = chain_root r"
  "chain_root (r\<lparr>canceledAt := d\<rparr>) = chain_root r"
  "chain_root (r\<lparr>failureReason := f\<rparr>) = chain_root r"
  by (simp_all add: chain_root_def split: option.splits)

lemma new_request_simps [simp]:
  "rqId (new_request newId inp now) = newId"
  "chain_root (new_request newId inp now) = newId"
  "claimTokenHash (new_request newId inp now) = None"
  "rqState (new_request newId inp now) = SUBMITTED"
  by (simp_all add: new_request_def chain_root_def)

lemmas row_ok_simps = row_ok_def row_le_def token_ok_def

definition renewed_rows where
  "renewed_rows hash inp now e rows =
     update_rows (renewable hash inp now) (\<lambda>r. r\<lparr>claimExpiresAt := Some e\<rparr>) rows"

definition taken_rows where
  "taken_rows hash minted inp now e rows =
     update_rows (takeable inp now)
       (\<lambda>r. r\<lparr>claimExpiresAt := Some e, claimGeneration := claimGeneration r + 1,
              claimTokenHash := Some (hash minted), claimedAt := Some now,
              claimedBy := Some (ciActorId inp), rqState := WORKING\<rparr>) rows"

definition lease_end :: "claim_input \<Rightarrow> instant \<Rightarrow> instant" where
  "lease_end inp now = now + (case ciLeaseMs inp of Some l \<Rightarrow> l | None \<Rightarrow> REQUEST_CLAIM_LEASE_MS)"

lemma claim_cases:
  assumes "claimAgentRequest hash minted db inp now = Inr ((tok, r), db')"
  shows "truthy (ciToken inp) \<and> count_rows (renewable hash inp now) (requests db) = 1 \<and> tok = the (ciToken inp)
      \<and> requests db' = renewed_rows hash inp now (lease_end inp now) (requests db)
      \<and> find_row rqId (ciId inp) (requests db') = Some r
    \<or> count_rows (takeable inp now) (requests db) \<noteq> 0 \<and> tok = minted
      \<and> requests db' = taken_rows hash minted inp now (lease_end inp now) (requests db)
      \<and> find_row rqId (ciId inp) (requests db') = Some r"
proof (cases "truthy (ciToken inp) \<and> count_rows (renewable hash inp now) (requests db) = 1")
  case True
  with assms show ?thesis
    by (auto simp: claimAgentRequest_def Let_def renewed_rows_def lease_end_def find_request_def
        dest!: recordRequestAudit_requests split: option.splits)
next
  case False
  have "count_rows (takeable inp now) (requests db) \<noteq> 0"
    using assms False by (auto simp: claimAgentRequest_def Let_def split: option.splits if_splits)
  moreover define taken where "taken = update_requests (takeable inp now)
      (\<lambda>r. r\<lparr>claimExpiresAt := Some (lease_end inp now), claimGeneration := claimGeneration r + 1,
             claimTokenHash := Some (hash minted), claimedAt := Some now,
             claimedBy := Some (ciActorId inp), rqState := WORKING\<rparr>) db"
  ultimately have "(case find_request taken (ciId inp) of
       None \<Rightarrow> Inl (RecordNotFound ''agentRequest'')
     | Some q \<Rightarrow> bind_result (recordRequestAudit (as_actor db (ciActorId inp)) ''claimed'' q taken)
         (\<lambda>db2. Inr ((minted, q), db2))) = Inr ((tok, r), db')"
    using assms False unfolding claimAgentRequest_def Let_def lease_end_def by (simp only: if_False)
  then have "find_request taken (ciId inp) = Some r" and "tok = minted" and "requests db' = requests taken"
    by (auto dest: recordRequestAudit_requests split: option.splits)
  moreover have "requests taken = taken_rows hash minted inp now (lease_end inp now) (requests db)"
    by (simp add: taken_def taken_rows_def update_requests_def)
  ultimately show ?thesis using \<open>count_rows (takeable inp now) (requests db) \<noteq> 0\<close> by (simp add: find_request_def)
qed

lemma claim_change:
  assumes "claimAgentRequest hash minted db inp now = Inr ((tok, r), db')" and "minted \<in> toks"
  shows "row_change hash toks (requests db) (requests db')"
proof -
  have "row_change hash toks rows (renewed_rows hash inp now e rows)" for rows e
    unfolding renewed_rows_def by (rule row_change.updated) (auto simp: row_ok_simps renewable_def)
  moreover have "row_change hash toks rows (taken_rows hash minted inp now e rows)" for rows e
    unfolding taken_rows_def using assms(2)
    by (intro row_change.updated) (auto simp: row_ok_simps takeable_def)
  ultimately show ?thesis using claim_cases [OF assms(1)] by metis
qed

lemma create_change:
  assumes "createAgentRequest newId db inp now = (r, db')" and "newId \<notin> rqId ` set (requests db)"
    and "rows_ok (requests db)"
  shows "(row_change hash toks)\<^sup>*\<^sup>* (requests db) (requests db')"
proof (cases "requests db' = requests db")
  case False
  with assms(1) have new: "requests db' = requests db @ [new_request newId inp now]"
    by (auto simp: createAgentRequest_def Let_def split: option.splits)
  have "newId \<notin> chain_root ` set (requests db)" using assms(2) rows_okD(2) [OF assms(3)] by blast
  then have "row_change hash toks (requests db) (requests db @ [new_request newId inp now])"
    using assms(2) by (intro row_change.added) auto
  with new show ?thesis by auto
qed simp

lemma record_answer_ok:
  "claimable q \<Longrightarrow> row_ok hash toks q (record_answer c next q)"
  by (auto simp: row_ok_simps record_answer_def Let_def)

lemma answer_Inr:
  assumes "answerAgentRequest hash c db inp now = Inr (x, db')"
  shows "\<exists>r. find_request db (aiId inp) = Some r \<and> \<not> isTerminalState (rqState r)
    \<and> claimedBy r = Some (aiActorId inp) \<and> claimTokenHash r = Some (hash (aiToken inp))
    \<and> later (claimExpiresAt r) now \<and> js_trim (aiBody inp) \<noteq> []
    \<and> requests db' = update_rows (\<lambda>q. rqId q = rqId r \<and> claimedBy q = Some (aiActorId inp)
          \<and> claimTokenHash q = Some (hash (aiToken inp)) \<and> claimable q)
        (record_answer c (answer_state (aiState inp))) (requests db)"
  using assms unfolding answerAgentRequest_def Let_def
  by (auto dest!: recordRequestAudit_requests after_answer_requests split: option.splits)

lemma answer_change:
  assumes "answerAgentRequest hash c db inp now = Inr (x, db')"
  shows "row_change hash toks (requests db) (requests db')"
proof -
  from answer_Inr [OF assms] obtain r :: agent_request where
    "requests db' = update_rows (\<lambda>q. rqId q = rqId r \<and> claimedBy q = Some (aiActorId inp)
          \<and> claimTokenHash q = Some (hash (aiToken inp)) \<and> claimable q)
        (record_answer c (answer_state (aiState inp))) (requests db)" by blast
  then show ?thesis by (auto intro!: row_change.updated record_answer_ok)
qed

lemma human_Inr:
  assumes "answerAgentRequestAsHuman c db inp = Inr (x, db')"
  shows "\<exists>r. find_request db (haId inp) = Some r \<and> \<not> isTerminalState (rqState r) \<and> rqState r \<noteq> INPUT_REQUIRED
    \<and> hbActorKind (haBy inp) = HUMAN
    \<and> (targetActorId r = hbActorId (haBy inp) \<or>
        hbGlobalRole (haBy inp) = ADMIN \<and> override_reason (haOverrideReason inp) \<noteq> [])
    \<and> requests db' = update_rows (\<lambda>q. rqId q = rqId r \<and> claimable q \<and> rqState q \<noteq> INPUT_REQUIRED)
        (\<lambda>q. q\<lparr>answeredCommentId := Some c, claimExpiresAt := None,
                claimTokenHash := None, claimedBy := None, rqState := human_state (haState inp)\<rparr>) (requests db)"
  using assms unfolding answerAgentRequestAsHuman_def Let_def
  by (auto dest!: recordRequestAudit_requests after_answer_requests split: option.splits)

lemma human_change:
  assumes "answerAgentRequestAsHuman c db inp = Inr (x, db')"
  shows "row_change hash toks (requests db) (requests db')"
proof -
  from human_Inr [OF assms] obtain r :: agent_request where
    "requests db' = update_rows (\<lambda>q. rqId q = rqId r \<and> claimable q \<and> rqState q \<noteq> INPUT_REQUIRED)
        (\<lambda>q. q\<lparr>answeredCommentId := Some c, claimExpiresAt := None,
                claimTokenHash := None, claimedBy := None, rqState := human_state (haState inp)\<rparr>) (requests db)"
    by blast
  then show ?thesis by (auto intro!: row_change.updated simp: row_ok_simps)
qed

lemma cancel_change:
  assumes "cancelAgentRequest db by i now = Inr (x, db')"
  shows "row_change hash toks (requests db) (requests db')"
proof -
  have "requests db' = update_rows (\<lambda>q. rqId q = i \<and> claimable q)
      (\<lambda>q. q\<lparr>canceledAt := Some now, rqState := RQ_CANCELED\<rparr>) (requests db)"
    using assms unfolding cancelAgentRequest_def Let_def
    by (auto dest!: recordRequestAudit_requests split: option.splits if_splits)
  then show ?thesis by (auto intro!: row_change.updated simp: row_ok_simps)
qed

lemma input_required_open [simp]: "\<not> isTerminalState INPUT_REQUIRED"
  by (simp add: isTerminalState_def TERMINAL_REQUEST_STATES_def)

lemma reply_change:
  assumes "replyToAgentRequest c db inp = Inr (x, db')"
  shows "row_change hash toks (requests db) (requests db')"
proof -
  from assms obtain r :: agent_request where "requests db' = update_rows (\<lambda>q. rqId q = rqId r \<and> rqState q = INPUT_REQUIRED)
      (\<lambda>q. q\<lparr>rqState := SUBMITTED, answeredCommentId := None\<rparr>) (requests db)"
    unfolding replyToAgentRequest_def Let_def
    by (auto dest!: recordRequestAudit_requests split: option.splits)
  then show ?thesis by (auto intro!: row_change.updated simp: row_ok_simps)
qed

section \<open>Properties\<close>

text \<open>
  The wire spelling of a request state is one-to-one, and only the six spellings are read back.
\<close>

lemma wire_state_roundtrip:
  "fromWireState (toWireState s) = Some s \<and>
   (fromWireState w \<noteq> None \<longleftrightarrow> w \<in> set A2A_REQUEST_STATES) \<and>
   (fromWireState w = Some t \<longrightarrow> toWireState t = w)"
proof (intro conjI impI)
  show "fromWireState (toWireState s) = Some s"
    by (cases s) (simp_all add: fromWireState_def FROM_WIRE_def)
  show "fromWireState w \<noteq> None \<longleftrightarrow> w \<in> set A2A_REQUEST_STATES"
    by (auto simp: fromWireState_def FROM_WIRE_def A2A_REQUEST_STATES_def)
  assume "fromWireState w = Some t"
  then have "(w, t) \<in> set FROM_WIRE" unfolding fromWireState_def by (rule map_of_SomeD)
  then show "toWireState t = w" by (auto simp: FROM_WIRE_def)
qed

lemma count_rows_pos: "count_rows P rows \<noteq> 0 \<longleftrightarrow> (\<exists>r \<in> set rows. P r)"
  by (induction rows) (auto simp: count_rows_def)

lemma find_request_update:
  assumes "unique_key rqId rows" and "r \<in> set rows" and "P r" and "\<And>q. rqId (f q) = rqId q"
  shows "find_row rqId (rqId r) (update_rows P f rows) = Some (f r)"
  using assms by (simp add: find_row_update find_row_unique)

text \<open>A take leaves one row with its identifier, held under its token to the end of its lease.\<close>

lemma taken_row:
  assumes "rows_ok (requests db)"
    and "claimAgentRequest hash minted db inp now = Inr ((minted, r), db')"
    and "\<not> truthy (ciToken inp)"
  shows "find_row rqId (ciId inp) (requests db') = Some r"
    and "\<And>p. p \<in> set (requests db') \<Longrightarrow> rqId p = ciId inp \<Longrightarrow> p = r"
    and "claimedBy r \<noteq> None" and "claimExpiresAt r = Some (lease_end inp now)"
    and "claimTokenHash r = Some (hash minted)"
proof -
  let ?f = "\<lambda>r. r\<lparr>claimExpiresAt := Some (lease_end inp now), claimGeneration := claimGeneration r + 1,
              claimTokenHash := Some (hash minted), claimedAt := Some now,
              claimedBy := Some (ciActorId inp), rqState := WORKING\<rparr>"
  from claim_cases [OF assms(2)] assms(3)
  have pos: "count_rows (takeable inp now) (requests db) \<noteq> 0"
    and db': "requests db' = update_rows (takeable inp now) ?f (requests db)"
    and found: "find_row rqId (ciId inp) (requests db') = Some r"
    unfolding taken_rows_def by blast+
  from pos obtain q where q: "q \<in> set (requests db)" "takeable inp now q" unfolding count_rows_pos ..
  then have qid: "rqId q = ciId inp" by (simp add: takeable_def)
  have ok: "rows_ok (requests db')"
    using claim_change [OF assms(2), of UNIV] assms(1) by (auto intro: row_change_ok)
  have "find_row rqId (rqId q) (requests db') = Some (?f q)"
    unfolding db' using rows_okD(1) [OF assms(1)] q by (intro find_request_update) simp_all
  with found qid have r: "r = ?f q" by simp
  show "find_row rqId (ciId inp) (requests db') = Some r" by (rule found)
  show "p = r" if "p \<in> set (requests db')" "rqId p = ciId inp" for p
    using find_row_unique [OF rows_okD(1) [OF ok] that] found by simp
  show "claimedBy r \<noteq> None" "claimExpiresAt r = Some (lease_end inp now)"
    "claimTokenHash r = Some (hash minted)" unfolding r by simp_all
qed

text \<open>
  C8: a request that was taken is held by exactly one execution until its lease lapses: at any time up
  to the end of the lease, no execution can take it again, whatever actor it runs as, and renewing it
  or answering it needs the token of the take.
\<close>

theorem claim_is_exclusive:
  assumes "rows_ok (requests db)"
    and "claimAgentRequest hash minted db inp now = Inr ((minted, r), db')"
    and "\<not> truthy (ciToken inp)"
    and "inj hash" and "t \<le> lease_end inp now" and "ciId inp2 = ciId inp" and "ciToken inp2 \<noteq> Some minted"
  shows "(\<forall>minted2. \<not> is_ok (claimAgentRequest hash minted2 db' inp2 t)) \<and>
    (\<forall>c ans u. aiId ans = ciId inp \<and> aiToken ans \<noteq> minted \<longrightarrow> \<not> is_ok (answerAgentRequest hash c db' ans u))"
proof -
  note taken = taken_row [OF assms(1-3)]
  have none: "\<not> takeable inp2 t p \<and> \<not> (truthy (ciToken inp2) \<and> renewable hash inp2 t p)"
    if p: "p \<in> set (requests db')" for p
  proof (cases "rqId p = ciId inp")
    case True
    with taken(2) [OF p] taken(3-5) assms(4,5,7) show ?thesis
      by (auto simp: takeable_def renewable_def earlier_def truthy_def inj_eq split: option.splits)
  qed (simp add: takeable_def renewable_def assms(6))
  have "\<not> is_ok (claimAgentRequest hash minted2 db' inp2 t)" for minted2
  proof
    assume "is_ok (claimAgentRequest hash minted2 db' inp2 t)"
    then obtain tok p db2 where "claimAgentRequest hash minted2 db' inp2 t = Inr ((tok, p), db2)"
      by (cases "claimAgentRequest hash minted2 db' inp2 t") (auto elim: is_ok.elims)
    from claim_cases [OF this] none show False
      using count_rows_pos [of "renewable hash inp2 t" "requests db'"] count_rows_pos [of "takeable inp2 t" "requests db'"]
      by auto
  qed
  moreover have "\<not> is_ok (answerAgentRequest hash c db' ans u)"
    if "aiId ans = ciId inp" "aiToken ans \<noteq> minted" for c ans u
  proof
    assume "is_ok (answerAgentRequest hash c db' ans u)"
    then obtain x db2 where "answerAgentRequest hash c db' ans u = Inr (x, db2)"
      by (cases "answerAgentRequest hash c db' ans u") (auto elim: is_ok.elims)
    from answer_Inr [OF this] that taken(1,5) assms(4) show False
      by (auto simp: find_request_def inj_eq)
  qed
  ultimately show ?thesis by blast
qed

definition sample_request :: agent_request where
  "sample_request = new_request ''r1'' \<lparr>crBody = ''why?'', crDeadlineAt = None, crIdempotencyKey = None,
     crPayingPrincipal = None, crRequestedBy = ''u1'', crRootCommentId = ''c1'', crTarget = ''a1'',
     crWorkId = ''i1'', crNeedInfo = False\<rparr> 0"

definition sample_user :: "ident \<Rightarrow> actor_kind \<Rightarrow> user" where
  "sample_user i k = \<lparr>userId = i, userKind = k, globalRole = USER, handle = None, userName = i, email = None,
     deactivatedAt = None, ownerId = None, successorActorId = None\<rparr>"

definition sample_requests :: request_db where
  "sample_requests = \<lparr>issues = [sample_item], links = [], states = [], audits = [], reopens = [], workNotes = [],
     teamRows = [''t1''], policies = [], fieldDefinitions = [], agentTrusts = [], opsAudits = [],
     users = [sample_user ''u1'' HUMAN, sample_user ''a1'' AGENT],
     memberships = [\<lparr>tmTeamId = ''t1'', tmUserId = ''u1'', tmRole = OWNER, tmCreatedAt = 0\<rparr>],
     credentials = [], requests = [sample_request],
     comments = [], evidences = [], events = [], notifications = []\<rparr>"

definition sample_claim :: "string option \<Rightarrow> claim_input" where
  "sample_claim tok = \<lparr>ciActorId = ''a1'', ciToken = tok, ciId = ''r1'', ciLeaseMs = None\<rparr>"

lemma sample_rows_ok: "rows_ok (requests sample_requests)"
  by (simp add: rows_ok_def sample_requests_def sample_request_def)

lemma is_ok_Inr: "is_ok x \<Longrightarrow> \<exists>y. x = Inr y"
  by (cases x) auto

theorem claim_is_exclusive_witness:
  "\<exists>r db'. claimAgentRequest id ''tok1'' sample_requests (sample_claim None) 0 = Inr ((''tok1'', r), db')
     \<and> \<not> is_ok (claimAgentRequest id ''tok2'' db' (sample_claim (Some ''tok0'')) 60000)"
proof -
  have "is_ok (claimAgentRequest id ''tok1'' sample_requests (sample_claim None) 0)" by code_simp
  then obtain tok r db' where c: "claimAgentRequest id ''tok1'' sample_requests (sample_claim None) 0 = Inr ((tok, r), db')"
    by (metis is_ok_Inr surj_pair)
  have "tok = ''tok1''" using claim_cases [OF c] by (simp add: sample_claim_def truthy_def)
  with c have c': "claimAgentRequest id ''tok1'' sample_requests (sample_claim None) 0 = Inr ((''tok1'', r), db')" by simp
  have "\<not> is_ok (claimAgentRequest id ''tok2'' db' (sample_claim (Some ''tok0'')) 60000)"
    using claim_is_exclusive [OF sample_rows_ok c', of 60000 "sample_claim (Some ''tok0'')"]
    by (simp add: sample_claim_def truthy_def lease_end_def REQUEST_CLAIM_LEASE_MS_def)
  with c' show ?thesis by blast
qed

end
