(* ===== verification/Mentions.thy ===== *)
theory Mentions
  imports Prelude
begin

text \<open>
  Which handles a comment mentions (\<^verbatim>\<open>packages/server/src/mention-parser.ts\<close>): code regions are
  replaced by blanks of the same length, then the text is scanned for \<^verbatim>\<open>@handle\<close>. The regular
  expressions of the source are written out as recursive recognisers; a dot of an expression matches
  no carriage return and no line feed.
\<close>

definition backtick :: char where
  "backtick = CHR 0x60"

definition line_feed :: char where
  "line_feed = CHR 0x0A"

definition carriage_return :: char where
  "carriage_return = CHR 0x0D"

definition is_letter :: "char \<Rightarrow> bool" where
  "is_letter c \<longleftrightarrow> is_lower_letter c \<or> is_upper_letter c"

definition is_handle_char :: "char \<Rightarrow> bool" where
  "is_handle_char c \<longleftrightarrow> is_letter c \<or> is_digit c \<or> c = CHR ''_'' \<or> c = CHR ''-''"

section \<open>Handles\<close>

definition HANDLE_PATTERN :: "string \<Rightarrow> bool" where
  "HANDLE_PATTERN s \<longleftrightarrow>
     (case s of
        [] \<Rightarrow> False
      | c # cs \<Rightarrow> (is_lower_letter c \<or> is_digit c) \<and> length cs \<le> 31 \<and>
          list_all (\<lambda>d. is_lower_letter d \<or> is_digit d \<or> d = CHR ''_'' \<or> d = CHR ''-'') cs)"

definition isValidHandle :: "string \<Rightarrow> bool" where
  "isValidHandle = HANDLE_PATTERN"

definition normalizeHandle :: "string \<Rightarrow> string" where
  "normalizeHandle v =
     (let s = js_trim v in js_lower (if js_starts_with s ''@'' then drop 1 s else s))"

section \<open>Code regions\<close>

text \<open>\<^verbatim>\<open>FENCE_PATTERN\<close>: the run of fence characters and the text after it.\<close>

definition FENCE_PATTERN :: "string \<Rightarrow> (string \<times> string) option" where
  "FENCE_PATTERN line =
     (let spaces = takeWhile (\<lambda>c. c = CHR '' '') line; rest = drop (length spaces) line in
      case rest of
        [] \<Rightarrow> None
      | c # cs \<Rightarrow>
          let run = takeWhile (\<lambda>d. d = c) rest; info = drop (length run) rest in
          if length spaces \<le> 3 \<and> (c = backtick \<or> c = CHR ''~'') \<and> 3 \<le> length run
             \<and> list_all (\<lambda>d. d \<noteq> carriage_return \<and> d \<noteq> line_feed) info
          then Some (run, info) else None)"

text \<open>Where the next run of exactly \<open>n\<close> backticks starts.\<close>

function find_run :: "nat \<Rightarrow> string \<Rightarrow> nat option" where
  "find_run n [] = None"
| "find_run n (c # s) =
     (if c \<noteq> backtick then map_option Suc (find_run n s)
      else let k = length (takeWhile (\<lambda>d. d = backtick) (c # s)) in
        if k = n then Some 0 else map_option (\<lambda>m. m + k) (find_run n (drop k (c # s))))"
  by pat_completeness auto
termination by (relation "measure (\<lambda>(n, s). length s)") auto

function maskInlineCode :: "string \<Rightarrow> string" where
  "maskInlineCode [] = []"
| "maskInlineCode (c # s) =
     (if c \<noteq> backtick then c # maskInlineCode s
      else let n = length (takeWhile (\<lambda>d. d = backtick) (c # s)); rest = drop n (c # s) in
        case find_run n rest of
          None \<Rightarrow> c # s
        | Some m \<Rightarrow> replicate (n + m + n) CHR '' '' @ maskInlineCode (drop (m + n) rest))"
  by pat_completeness auto
termination by (relation "measure length") auto

definition closes :: "string \<Rightarrow> string \<Rightarrow> bool" where
  "closes openFence line =
     (case FENCE_PATTERN line of
        None \<Rightarrow> False
      | Some (run, info) \<Rightarrow> hd run = hd openFence \<and> length openFence \<le> length run \<and> js_trim info = [])"

fun mask_lines :: "string option \<Rightarrow> string list \<Rightarrow> string list" where
  "mask_lines fence [] = []"
| "mask_lines (Some f) (l # ls) =
     replicate (length l) CHR '' '' # mask_lines (if closes f l then None else Some f) ls"
| "mask_lines None (l # ls) =
     (case FENCE_PATTERN l of
        Some (run, info) \<Rightarrow> replicate (length l) CHR '' '' # mask_lines (Some run) ls
      | None \<Rightarrow> maskInlineCode l # mask_lines None ls)"

definition maskCodeRegions :: "string \<Rightarrow> string" where
  "maskCodeRegions body = js_join [line_feed] (mask_lines None (js_split line_feed body))"

section \<open>Mentions\<close>

text \<open>
  A handle of at most 32 characters after an at sign, which no further handle character follows; the
  rest of the text is where the next match may begin.
\<close>

definition handle_at :: "string \<Rightarrow> (string \<times> string) option" where
  "handle_at s =
     (case s of
        [] \<Rightarrow> None
      | c # cs \<Rightarrow>
          let h = takeWhile is_handle_char s in
          if (is_letter c \<or> is_digit c) \<and> length h \<le> 32 then Some (h, drop (length h) s) else None)"

definition blocks_mention :: "char \<Rightarrow> bool" where
  "blocks_mention c \<longleftrightarrow> is_letter c \<or> is_digit c \<or> c \<in> {CHR ''_'', CHR ''@'', CHR ''.'', CHR ''-'', CHR ''/''}"

definition after_at :: "string \<Rightarrow> (string \<times> string) option" where
  "after_at s = (case s of c # t \<Rightarrow> if c = CHR ''@'' then handle_at t else None | [] \<Rightarrow> None)"

lemma handle_at_shorter: "handle_at s = Some (h, rest) \<Longrightarrow> length rest \<le> length s"
  by (auto simp: handle_at_def Let_def split: list.splits if_splits)

lemma after_at_shorter: "after_at s = Some (h, rest) \<Longrightarrow> length rest < length s"
  by (auto simp: after_at_def dest: handle_at_shorter split: list.splits if_splits)

function scan_mentions :: "string \<Rightarrow> string list" where
  "scan_mentions [] = []"
| "scan_mentions (c # s) =
     (case (if blocks_mention c then None else after_at s) of
        Some (h, rest) \<Rightarrow> h # scan_mentions rest
      | None \<Rightarrow> scan_mentions s)"
  by pat_completeness auto
termination
  by (relation "measure length") (auto dest!: after_at_shorter split: if_splits)

definition MENTION_PATTERN :: "string \<Rightarrow> string list" where
  "MENTION_PATTERN s =
     (case after_at s of Some (h, rest) \<Rightarrow> h # scan_mentions rest | None \<Rightarrow> scan_mentions s)"

definition extractMentionHandles :: "string \<Rightarrow> string list" where
  "extractMentionHandles body =
     js_uniq (filter isValidHandle (map js_lower (MENTION_PATTERN (maskCodeRegions body))))"

section \<open>Masking keeps every offset\<close>

lemma find_run_bound: "find_run n s = Some m \<Longrightarrow> m + n \<le> length s"
proof (induction n s arbitrary: m rule: find_run.induct)
  case (1 n)
  then show ?case by simp
next
  case (2 n c s)
  let ?k = "length (takeWhile (\<lambda>d. d = backtick) (c # s))"
  have k: "?k \<le> length (c # s)" by (rule length_takeWhile_le)
  show ?case
  proof (cases "c = backtick")
    case False
    with "2.prems" obtain j where "find_run n s = Some j" "m = Suc j" by auto
    with "2.IH"(1) [OF False] show ?thesis by fastforce
  next
    case True
    show ?thesis
    proof (cases "?k = n")
      case True
      with \<open>c = backtick\<close> "2.prems" k show ?thesis by (simp add: Let_def split: if_splits)
    next
      case False
      with \<open>c = backtick\<close> "2.prems" obtain j where j: "find_run n (drop ?k (c # s)) = Some j" "m = j + ?k"
        by (auto simp: Let_def)
      with "2.IH"(2) [of ?k] True False have "j + n \<le> length (drop ?k (c # s))" by simp
      with j k show ?thesis by simp
    qed
  qed
qed

lemma length_maskInlineCode: "length (maskInlineCode s) = length s"
proof (induction s rule: maskInlineCode.induct)
  case 1
  then show ?case by simp
next
  case (2 c s)
  let ?n = "length (takeWhile (\<lambda>d. d = backtick) (c # s))"
  have n: "?n \<le> length (c # s)" by (rule length_takeWhile_le)
  show ?case
  proof (cases "c = backtick")
    case False
    with 2 show ?thesis by simp
  next
    case True
    show ?thesis
    proof (cases "find_run ?n (drop ?n (c # s))")
      case None
      with True show ?thesis by (simp add: Let_def)
    next
      case (Some m)
      then have "m + ?n \<le> length (drop ?n (c # s))" by (rule find_run_bound)
      with n have "m + ?n + ?n \<le> length (c # s)" by simp
      moreover from 2(2) [OF _ refl refl Some] True
      have "length (maskInlineCode (drop (m + ?n) (drop ?n (c # s)))) = length (drop (m + ?n) (drop ?n (c # s)))"
        by simp
      ultimately show ?thesis using True Some by (simp add: Let_def del: takeWhile.simps drop_Cons')
    qed
  qed
qed

lemma mask_lines_lengths: "map length (mask_lines f ls) = map length ls"
  by (induction f ls rule: mask_lines.induct) (auto simp: length_maskInlineCode split: option.splits)

lemma length_js_join:
  "map length xs = map length ys \<Longrightarrow> length (js_join sep xs) = length (js_join sep ys)"
proof (induction sep xs arbitrary: ys rule: js_join.induct)
  case (2 sep s)
  then obtain s' where "ys = [s']" "length s = length s'" by (cases ys) auto
  then show ?case by simp
next
  case (3 sep s t ss)
  then obtain s' t' ss' where ys: "ys = s' # t' # ss'" "length s = length s'" "length t = length t'"
      "map length ss = map length ss'"
    by (cases ys; cases "tl ys") auto
  with "3.IH" [of "t' # ss'"] show ?case by simp
qed simp

text \<open>
  Replacing code by blanks keeps the length of the text, so every offset found in the masked text
  is an offset of the comment.
\<close>

lemma maskCodeRegions_length: "length (maskCodeRegions body) = length body"
proof -
  have "length (maskCodeRegions body) = length (js_join [line_feed] (js_split line_feed body))"
    unfolding maskCodeRegions_def by (rule length_js_join) (rule mask_lines_lengths)
  then show ?thesis by (simp add: js_join_split)
qed

section \<open>Which handles are found\<close>

lemma extract_valid: "h \<in> set (extractMentionHandles body) \<Longrightarrow> isValidHandle h"
  by (simp add: extractMentionHandles_def)

lemma handle_chars_not_backtick: "is_handle_char c \<Longrightarrow> c \<noteq> backtick \<and> c \<noteq> line_feed \<and> c \<noteq> CHR ''~''"
  by (auto simp: is_handle_char_def is_letter_def js_simps backtick_def line_feed_def)

lemma valid_handle_chars: "isValidHandle h \<Longrightarrow> list_all is_handle_char h"
  by (cases h) (auto simp: isValidHandle_def HANDLE_PATTERN_def is_handle_char_def is_letter_def list_all_iff)

lemma lower_handle: "isValidHandle h \<Longrightarrow> js_lower h = h"
proof -
  assume "isValidHandle h"
  then have "\<forall>c \<in> set h. is_lower_letter c \<or> is_digit c \<or> c = CHR ''_'' \<or> c = CHR ''-''"
    by (cases h) (auto simp: isValidHandle_def HANDLE_PATTERN_def list_all_iff)
  then have "\<forall>c \<in> set h. to_lower_char c = c"
    by (auto simp: to_lower_char_def is_lower_letter_def is_digit_def Let_def)
  then show ?thesis by (simp add: js_lower_def map_idI)
qed

lemma maskInlineCode_plain: "backtick \<notin> set s \<Longrightarrow> maskInlineCode s = s"
  by (induction s) auto

lemma js_split_plain: "d \<notin> set s \<Longrightarrow> js_split d s = [s]"
  by (induction s) auto

lemma js_split_join_lines:
  "ls \<noteq> [] \<Longrightarrow> (\<And>l. l \<in> set ls \<Longrightarrow> d \<notin> set l) \<Longrightarrow> js_split d (js_join [d] ls) = ls"
proof (induction "[d]" ls rule: js_join.induct)
  case (3 s t ss)
  have split: "js_split d (s @ d # r) = s # js_split d r" if "d \<notin> set s" for s r
    using that by (induction s) (auto split: list.splits)
  from 3 show ?case by (simp add: split)
qed (auto simp: js_split_plain)

lemma handle_at_all:
  assumes "isValidHandle h"
  shows "handle_at h = Some (h, [])"
proof -
  from assms have "takeWhile is_handle_char h = h"
    using valid_handle_chars by (auto simp: list_all_iff takeWhile_eq_all_conv)
  with assms show ?thesis
    by (cases h) (auto simp: handle_at_def isValidHandle_def HANDLE_PATTERN_def is_letter_def)
qed

lemma mask_mention:
  assumes "isValidHandle h"
  shows "maskCodeRegions (CHR ''@'' # h) = CHR ''@'' # h"
proof -
  have set: "\<forall>c \<in> set (CHR ''@'' # h). c \<noteq> backtick \<and> c \<noteq> line_feed"
    using valid_handle_chars [OF assms] handle_chars_not_backtick
    by (auto simp: list_all_iff backtick_def line_feed_def)
  then have "js_split line_feed (CHR ''@'' # h) = [CHR ''@'' # h]"
    by (intro js_split_plain) auto
  moreover have "FENCE_PATTERN (CHR ''@'' # h) = None"
    by (simp add: FENCE_PATTERN_def Let_def backtick_def)
  moreover have "maskInlineCode (CHR ''@'' # h) = CHR ''@'' # h"
    using set by (intro maskInlineCode_plain) auto
  ultimately show ?thesis by (simp add: maskCodeRegions_def)
qed

text \<open>
  The handles found are valid and listed once each, and a comment that is just a mention of a
  valid handle yields that handle.
\<close>

lemma mention_of_handle:
  "distinct (extractMentionHandles body) \<and> (\<forall>h \<in> set (extractMentionHandles body). isValidHandle h)
   \<and> (isValidHandle h \<longrightarrow> extractMentionHandles (CHR ''@'' # h) = [h])"
proof (intro conjI impI)
  assume h: "isValidHandle h"
  have "MENTION_PATTERN (CHR ''@'' # h) = [h]"
    by (simp add: MENTION_PATTERN_def after_at_def handle_at_all [OF h])
  with h show "extractMentionHandles (CHR ''@'' # h) = [h]"
    by (simp add: extractMentionHandles_def mask_mention lower_handle js_uniq_def)
qed (auto simp: extractMentionHandles_def)

section \<open>Fenced code\<close>

text \<open>The scan does not look across a line feed: the mentions of a text are those of its lines.\<close>

lemma after_at_line: "after_at (s @ line_feed # r) = map_option (\<lambda>(h, rest). (h, rest @ line_feed # r)) (after_at s)"
proof -
  have lf: "\<not> is_handle_char line_feed" "\<not> is_letter line_feed" "\<not> is_digit line_feed" "line_feed \<noteq> CHR ''@''"
    by code_simp+
  have "handle_at (t @ line_feed # r) = map_option (\<lambda>(h, rest). (h, rest @ line_feed # r)) (handle_at t)" for t
  proof (cases t)
    case Nil
    with lf show ?thesis by (simp add: handle_at_def)
  next
    case (Cons c cs)
    have tw: "takeWhile is_handle_char (t @ line_feed # r) = takeWhile is_handle_char t" using lf(1) by (rule takeWhile_tail)
    have "drop (length (takeWhile is_handle_char t)) (t @ line_feed # r) = drop (length (takeWhile is_handle_char t)) t @ line_feed # r"
      using length_takeWhile_le [of is_handle_char t] by simp
    with tw Cons show ?thesis by (simp only: handle_at_def Let_def) simp
  qed
  with lf show ?thesis by (cases s) (auto simp: after_at_def)
qed

lemma scan_line: "scan_mentions (s @ line_feed # r) = scan_mentions s @ MENTION_PATTERN r"
proof (induction s rule: scan_mentions.induct)
  case 1
  have "\<not> blocks_mention line_feed" by code_simp
  then show ?case by (simp add: MENTION_PATTERN_def)
next
  case (2 c s)
  show ?case
  proof (cases "if blocks_mention c then None else after_at s")
    case None
    with 2(1) [OF None] show ?thesis by (cases "blocks_mention c") (simp_all add: after_at_line)
  next
    case (Some p)
    obtain h rest where p: "p = (h, rest)" by (cases p)
    with Some 2(2) [OF Some, of h rest] show ?thesis
      by (cases "blocks_mention c") (simp_all add: after_at_line)
  qed
qed

lemma mentions_line: "MENTION_PATTERN (s @ line_feed # r) = MENTION_PATTERN s @ MENTION_PATTERN r"
proof (cases "after_at s")
  case None
  then have "MENTION_PATTERN (s @ line_feed # r) = scan_mentions (s @ line_feed # r)" by (simp add: MENTION_PATTERN_def after_at_line)
  with None show ?thesis by (simp add: scan_line MENTION_PATTERN_def [of s])
next
  case (Some p)
  obtain h rest where p: "p = (h, rest)" by (cases p)
  with Some have "MENTION_PATTERN (s @ line_feed # r) = h # scan_mentions (rest @ line_feed # r)" by (simp add: MENTION_PATTERN_def after_at_line)
  with Some p show ?thesis by (simp add: scan_line MENTION_PATTERN_def [of s])
qed

lemma mentions_join: "MENTION_PATTERN (js_join [line_feed] ls) = concat (map MENTION_PATTERN ls)"
proof (induction "[line_feed]" ls rule: js_join.induct)
  case 1
  show ?case by (simp add: MENTION_PATTERN_def after_at_def)
qed (simp_all add: mentions_line)

lemma mentions_blank: "MENTION_PATTERN (replicate n CHR '' '') = []"
proof -
  have at: "after_at (replicate k CHR '' '') = None" for k by (cases k) (simp_all add: after_at_def)
  have "scan_mentions (replicate k CHR '' '') = []" for k by (induction k) (simp_all add: at)
  with at show ?thesis by (simp add: MENTION_PATTERN_def)
qed

text \<open>
  The reference: the lines outside every fence. A line that opens a fence, the lines up to the one that closes it and
  that line are dropped; an open fence runs to the end.
\<close>

fun prose_lines :: "string option \<Rightarrow> string list \<Rightarrow> string list" where
  "prose_lines fence [] = []"
| "prose_lines (Some f) (l # ls) = prose_lines (if closes f l then None else Some f) ls"
| "prose_lines None (l # ls) =
     (case FENCE_PATTERN l of Some (run, info) \<Rightarrow> prose_lines (Some run) ls | None \<Rightarrow> l # prose_lines None ls)"

definition line_handles :: "string \<Rightarrow> string list" where
  "line_handles l = filter isValidHandle (map js_lower (MENTION_PATTERN (maskInlineCode l)))"

lemma masked_mentions:
  "concat (map MENTION_PATTERN (mask_lines f ls)) = concat (map (MENTION_PATTERN \<circ> maskInlineCode) (prose_lines f ls))"
  by (induction f ls rule: prose_lines.induct) (auto simp: mentions_blank split: option.splits)

lemma extract_lines:
  "extractMentionHandles body = js_uniq (concat (map line_handles (prose_lines None (js_split line_feed body))))"
  by (simp add: extractMentionHandles_def maskCodeRegions_def mentions_join masked_mentions line_handles_def [abs_def]
      map_concat filter_concat comp_def)

text \<open>What a fence line is: up to three blanks, three or more backticks or tildes, then text without a line end.\<close>

lemma fence_line_iff:
  "FENCE_PATTERN line = Some (run, info) \<longleftrightarrow>
     (\<exists>k n c. k \<le> 3 \<and> 3 \<le> n \<and> (c = backtick \<or> c = CHR ''~'') \<and> run = replicate n c \<and> line = replicate k CHR '' '' @ run @ info \<and>
        (info = [] \<or> hd info \<noteq> c) \<and> carriage_return \<notin> set info \<and> line_feed \<notin> set info)" (is "?l = ?r")
proof
  assume ?l
  define sp where "sp = takeWhile (\<lambda>c. c = CHR '' '') line"
  define rest where "rest = drop (length sp) line"
  from \<open>?l\<close> obtain c cs where c: "rest = c # cs"
    unfolding FENCE_PATTERN_def Let_def sp_def [symmetric] rest_def [symmetric] by (cases rest) auto
  with \<open>?l\<close> have r: "run = takeWhile (\<lambda>d. d = c) rest" "info = drop (length run) rest" "length sp \<le> 3" "c = backtick \<or> c = CHR ''~''"
      "3 \<le> length run" "carriage_return \<notin> set info" "line_feed \<notin> set info"
    unfolding FENCE_PATTERN_def Let_def sp_def [symmetric] rest_def [symmetric]
    by (auto simp: list_all_iff split: if_splits)
  have same: "takeWhile (\<lambda>d. d = x) xs = replicate (length (takeWhile (\<lambda>d. d = x) xs)) x" for x :: char and xs
    by (induction xs) auto
  have sp: "sp = replicate (length sp) CHR '' ''" unfolding sp_def by (rule same)
  have run: "run = replicate (length run) c" unfolding r(1) by (rule same)
  have info: "info = dropWhile (\<lambda>d. d = c) rest" unfolding r(2) r(1) by (simp add: dropWhile_eq_drop)
  have "line = sp @ rest" unfolding rest_def sp_def by (simp add: dropWhile_eq_drop [symmetric])
  moreover have "rest = run @ info" unfolding r(1) info by simp
  ultimately have "line = replicate (length sp) CHR '' '' @ run @ info" using sp by simp
  moreover have "info = [] \<or> hd info \<noteq> c" using hd_dropWhile [of "\<lambda>d. d = c" rest] info by auto
  ultimately show ?r using r run by (intro exI [of _ "length sp"] exI [of _ "length run"] exI [of _ c]) blast
next
  assume ?r
  then obtain k n c where a: "k \<le> 3" "3 \<le> n" "c = backtick \<or> c = CHR ''~''" "run = replicate n c"
      "line = replicate k CHR '' '' @ run @ info" "info = [] \<or> hd info \<noteq> c" "carriage_return \<notin> set info" "line_feed \<notin> set info" by blast
  have nb: "c \<noteq> CHR '' ''" using a(3) by (auto simp: backtick_def)
  have tail: "takeWhile (\<lambda>d. d = x) (replicate m x @ ys) = replicate m x" if "ys = [] \<or> hd ys \<noteq> x" for x :: char and m ys
    using that by (induction m) (cases ys; auto)+
  obtain cs where cs: "run @ info = c # cs" using a(2,4) by (cases n) auto
  have sp: "takeWhile (\<lambda>d. d = CHR '' '') line = replicate k CHR '' ''"
    unfolding a(5) by (rule tail) (use cs nb in simp)
  then have rest: "drop (length (takeWhile (\<lambda>d. d = CHR '' '') line)) line = c # cs" by (simp add: a(5) cs)
  have "takeWhile (\<lambda>d. d = c) (run @ info) = run" unfolding a(4) by (rule tail [OF a(6)])
  then have run: "takeWhile (\<lambda>d. d = c) (c # cs) = run" "drop (length run) (c # cs) = info" by (simp_all add: cs [symmetric])
  have "list_all (\<lambda>d. d \<noteq> carriage_return \<and> d \<noteq> line_feed) info" using a(7,8) by (auto simp: list_all_iff)
  moreover have "length run = n" using a(4) by simp
  ultimately show ?l unfolding FENCE_PATTERN_def Let_def rest list.case run using a(1-3) sp by simp
qed

text \<open>
  C35: nothing in a fenced block is a mention, wherever the block stands: the handles of a comment are those of its lines
  outside every fence, each read by itself with its code spans blanked, in order and once each. A fence opens with
  at most three blanks and three or more backticks or tildes, and its text has no carriage return.
\<close>

theorem fenced_code_silent:
  "extractMentionHandles body = js_uniq (concat (map line_handles (prose_lines None (js_split line_feed body)))) \<and>
   (FENCE_PATTERN line = Some (run, info) \<longleftrightarrow>
     (\<exists>k n c. k \<le> 3 \<and> 3 \<le> n \<and> (c = backtick \<or> c = CHR ''~'') \<and> run = replicate n c \<and> line = replicate k CHR '' '' @ run @ info \<and>
        (info = [] \<or> hd info \<noteq> c) \<and> carriage_return \<notin> set info \<and> line_feed \<notin> set info))"
  by (rule conjI [OF extract_lines fence_line_iff])

lemma fenced_comment:
  "js_split line_feed (js_join [line_feed] [''see @bob'', ''  ~~~ts'', ''@mia'', ''~~~'', ''and @zoe'']) =
     [''see @bob'', ''  ~~~ts'', ''@mia'', ''~~~'', ''and @zoe'']"
  "prose_lines None [''see @bob'', ''  ~~~ts'', ''@mia'', ''~~~'', ''and @zoe''] = [''see @bob'', ''and @zoe'']"
  "line_handles ''see @bob'' = [''bob'']" "line_handles ''and @zoe'' = [''zoe'']"
  by code_simp+

theorem fenced_code_silent_witness:
  "extractMentionHandles (js_join [line_feed] [''see @bob'', ''  ~~~ts'', ''@mia'', ''~~~'', ''and @zoe'']) = [''bob'', ''zoe'']"
  unfolding conjunct1 [OF fenced_code_silent] fenced_comment by (simp add: fenced_comment js_uniq_def)

section \<open>Fences with carriage returns\<close>

lemma fence_no_return: "FENCE_PATTERN (l @ [carriage_return]) = None"
proof (rule ccontr)
  assume "FENCE_PATTERN (l @ [carriage_return]) \<noteq> None"
  then obtain run info where "FENCE_PATTERN (l @ [carriage_return]) = Some (run, info)" by auto
  then obtain k n c where a: "l @ [carriage_return] = replicate k CHR '' '' @ replicate n c @ info" "carriage_return \<notin> set info"
      "c = backtick \<or> c = CHR ''~''"
    unfolding fence_line_iff by blast
  have "carriage_return \<in> set (replicate k CHR '' '' @ replicate n c @ info)" unfolding a(1) [symmetric] by simp
  with a(2,3) show False by (auto simp: carriage_return_def backtick_def split: if_splits)
qed

lemma prose_returns: "prose_lines None (map (\<lambda>l. l @ [carriage_return]) ls) = map (\<lambda>l. l @ [carriage_return]) ls"
  by (induction ls) (simp_all add: fence_no_return)

lemma line_handles_return:
  assumes "isValidHandle h"
  shows "line_handles (CHR ''@'' # h @ [carriage_return]) = [h]"
proof -
  note hc = valid_handle_chars [OF assms]
  have "backtick \<notin> set (CHR ''@'' # h @ [carriage_return])"
    using hc handle_chars_not_backtick by (auto simp: list_all_iff backtick_def carriage_return_def)
  note plain = maskInlineCode_plain [OF this]
  have ret: "\<not> is_handle_char carriage_return" by code_simp
  have "takeWhile is_handle_char (h @ [carriage_return]) = h"
    using takeWhile_tail [where P = is_handle_char, OF ret, of h "[]"] hc by (simp add: list_all_iff takeWhile_eq_all_conv)
  with assms have "handle_at (h @ [carriage_return]) = Some (h, [carriage_return])"
    by (cases h) (auto simp: handle_at_def isValidHandle_def HANDLE_PATTERN_def is_letter_def Let_def simp del: takeWhile.simps)
  then have "MENTION_PATTERN (CHR ''@'' # h @ [carriage_return]) = [h]"
    by (simp add: MENTION_PATTERN_def after_at_def)
  with assms show ?thesis by (simp only: line_handles_def plain) (simp add: lower_handle)
qed

text \<open>
  C36: in a comment whose lines end with a carriage return and a line feed no fence hides anything: a line that is a
  mention mentions, whatever fences stand around it.
\<close>

theorem returns_defeat_fences:
  assumes "isValidHandle h" and "CHR ''@'' # h \<in> set ls" and "\<forall>l \<in> set ls. line_feed \<notin> set l"
  shows "h \<in> set (extractMentionHandles (js_join [line_feed] (map (\<lambda>l. l @ [carriage_return]) ls)))"
proof -
  have "js_split line_feed (js_join [line_feed] (map (\<lambda>l. l @ [carriage_return]) ls)) = map (\<lambda>l. l @ [carriage_return]) ls"
    using assms(2,3) by (intro js_split_join_lines) (auto simp: line_feed_def carriage_return_def)
  then have e: "extractMentionHandles (js_join [line_feed] (map (\<lambda>l. l @ [carriage_return]) ls)) =
      js_uniq (concat (map line_handles (map (\<lambda>l. l @ [carriage_return]) ls)))"
    by (simp add: extract_lines prose_returns)
  show ?thesis unfolding e using assms(2) line_handles_return [OF assms(1)] by (force simp: set_js_uniq)
qed

theorem returns_defeat_fences_witness:
  "''mia'' \<in> set (extractMentionHandles (js_join [line_feed] (map (\<lambda>l. l @ [carriage_return]) [''~~~'', ''@mia'', ''~~~''])))"
proof (rule returns_defeat_fences)
  show "isValidHandle ''mia''" by code_simp
  show "\<forall>l \<in> set [''~~~'', ''@mia'', ''~~~'']. line_feed \<notin> set l" by code_simp
qed simp

end
