(* ===== verification/Request_Handoff.thy ===== *)
theory Request_Handoff
  imports Agent_Requests Mentions
begin

text \<open>
  What happens to a request nobody answered (\<^verbatim>\<open>packages/server/src/agent-request-handoff.ts\<close>,
  \<^verbatim>\<open>agent-request-expiry.ts\<close>) and to a question for a named person
  (\<^verbatim>\<open>need-info-service.ts\<close>): an overdue request fails and is handed to a successor in a new
  request on the same thread, within a chain that never asks the same actor twice and goes to a
  human at its limits.

  The sweeping service actor and the identifiers of new rows are arguments; the dash in the texts of
  the notices is written with two hyphens.
\<close>

section \<open>Picking a successor\<close>

definition MAX_HANDOFF_HOPS :: int where
  "MAX_HANDOFF_HOPS = 3"

definition CHAIN_TOTAL_MS :: int where
  "CHAIN_TOTAL_MS = 72 * 60 * 60000"

definition HANDOFF_DEADLINE_MS :: int where
  "HANDOFF_DEADLINE_MS = 24 * 60 * 60000"

datatype successor_source = successor | owner_of_target | team_owner

record successor_pick =
  pickActor :: user
  pickSource :: successor_source

definition canAnswerOnTeam :: "request_db \<Rightarrow> user \<Rightarrow> ident \<Rightarrow> instant \<Rightarrow> bool" where
  "canAnswerOnTeam db u team now =
     (if userKind u = HUMAN
      then globalRole u = ADMIN \<or>
        (case find (\<lambda>m. tmTeamId m = team \<and> tmUserId m = userId u) (memberships db) of
           None \<Rightarrow> False | Some m \<Rightarrow> tmRole m = EDITOR \<or> tmRole m = OWNER)
      else \<exists>c \<in> set (credentials db). (acExpiresAt c = None \<or> later (acExpiresAt c) now)
        \<and> acRevokedAt c = None \<and> ''answer'' \<in> set (acScopes c) \<and> acTeamId c = team \<and> acUserId c = userId u)"

record pick_input =
  piForceHuman :: bool
  piNow :: instant
  piTeamId :: ident
  piVisited :: "ident list"

type_synonym skipped = "(ident \<times> string) list"

definition consider_actor ::
  "request_db \<Rightarrow> pick_input \<Rightarrow> ident option \<times> successor_source \<Rightarrow> successor_pick option \<times> skipped" where
  "consider_actor db inp cand =
     (if \<not> truthy (fst cand) then (None, [])
      else let i = the (fst cand) in
        if i \<in> set (piVisited inp) then (None, [(i, ''already in this chain'')])
        else case find_user db i of
          None \<Rightarrow> (None, [])
        | Some u \<Rightarrow>
            if deactivatedAt u \<noteq> None then (None, [(i, ''deactivated'')])
            else if userKind u = SERVICE then (None, [(i, ''a service; nothing to ask'')])
            else if piForceHuman inp \<and> userKind u \<noteq> HUMAN
            then (None, [(i, ''chain limit reached; escalating to a human'')])
            else if \<not> canAnswerOnTeam db u (piTeamId inp) (piNow inp)
            then (None, [(i, if userKind u = HUMAN then ''cannot write on this team (viewer only or not a member)''
                             else ''no credential on this team with the answer scope'')])
            else (Some \<lparr>pickActor = u, pickSource = snd cand\<rparr>, []))"

fun first_pick ::
  "request_db \<Rightarrow> pick_input \<Rightarrow> (ident option \<times> successor_source) list \<Rightarrow> successor_pick option \<times> skipped" where
  "first_pick db inp [] = (None, [])"
| "first_pick db inp (c # cs) =
     (case consider_actor db inp c of
        (Some p, sk) \<Rightarrow> (Some p, sk)
      | (None, sk) \<Rightarrow> (case first_pick db inp cs of (p, sk') \<Rightarrow> (p, sk @ sk')))"

definition team_owners :: "request_db \<Rightarrow> ident \<Rightarrow> ident list" where
  "team_owners db team =
     map tmUserId (List.take 5 (sort_key tmCreatedAt
       (filter (\<lambda>m. tmRole m = OWNER \<and> tmTeamId m = team \<and>
          (case find_user db (tmUserId m) of
             None \<Rightarrow> False | Some u \<Rightarrow> userKind u = HUMAN \<and> deactivatedAt u = None)) (memberships db))))"

definition pickSuccessor :: "request_db \<Rightarrow> user \<Rightarrow> pick_input \<Rightarrow> successor_pick option \<times> skipped" where
  "pickSuccessor db target inp =
     first_pick db inp
       ([(successorActorId target, successor), (ownerId target, owner_of_target)]
        @ map (\<lambda>i. (Some i, team_owner)) (team_owners db (piTeamId inp)))"

section \<open>Handing a request on\<close>

definition handoff_request ::
  "ident \<Rightarrow> agent_request \<Rightarrow> ident \<Rightarrow> user \<Rightarrow> instant \<Rightarrow> instant \<Rightarrow> agent_request" where
  "handoff_request newId r rootId u chainDeadline now =
     \<lparr>rqId = newId, rqWorkId = rqWorkId r, rqRootCommentId = rqRootCommentId r,
      targetActorId = userId u, requestedByActorId = requestedByActorId r, rqBody = rqBody r,
      rqState = SUBMITTED,
      deadlineAt = (if userKind u = HUMAN then now + HANDOFF_DEADLINE_MS
                    else min (now + HANDOFF_DEADLINE_MS) chainDeadline),
      canceledAt = None, claimedBy = None, claimedAt = None, claimExpiresAt = None,
      claimGeneration = 0, claimTokenHash = None, answeredCommentId = None, failureReason = None,
      payingPrincipal = payingPrincipal r, idempotencyKey = Some (''handoff:'' @ rqId r),
      rootRequestId = Some rootId, handedOffFromId = Some (rqId r), hopCount = hopCount r + 1,
      chainDeadlineAt = Some chainDeadline, needInfo = False, budgetUnits = None, rqCreatedAt = now\<rparr>"

definition in_chain :: "ident \<Rightarrow> agent_request \<Rightarrow> bool" where
  "in_chain rootId q \<longleftrightarrow> rqId q = rootId \<or> rootRequestId q = Some rootId"

record handoff_result =
  hrNext :: "agent_request option"
  hrPick :: "successor_pick option"
  hrSkipped :: skipped

definition handOffRequest ::
  "ident \<Rightarrow> request_db \<Rightarrow> agent_request \<Rightarrow> user \<Rightarrow> issue \<Rightarrow> instant \<Rightarrow> handoff_result \<times> request_db" where
  "handOffRequest newId db r target work now =
     (let rootId = chain_root r;
          visited = map targetActorId (filter (in_chain rootId) (requests db)) @ [targetActorId r];
          chainDeadline = (case chainDeadlineAt r of Some d \<Rightarrow> d | None \<Rightarrow> rqCreatedAt r + CHAIN_TOTAL_MS);
          forceHuman = (hopCount r + 1 \<ge> MAX_HANDOFF_HOPS \<or> now \<ge> chainDeadline);
          (pick, sk) = pickSuccessor db target
            \<lparr>piForceHuman = forceHuman, piNow = now, piTeamId = teamId work, piVisited = visited\<rparr>;
          db1 = update_requests (\<lambda>q. rqId q = rqId r) (\<lambda>q. q\<lparr>rootRequestId := Some rootId\<rparr>) db
      in case pick of
           None \<Rightarrow> (\<lparr>hrNext = None, hrPick = None, hrSkipped = sk\<rparr>, db1)
         | Some p \<Rightarrow>
             let next = handoff_request newId r rootId (pickActor p) chainDeadline now
             in (\<lparr>hrNext = Some next, hrPick = Some p, hrSkipped = sk\<rparr>,
                 enqueueWorkEvent ''agent.request_handed_off'' (issueId work) (rqId next) (add_request next db1)))"

definition name_of :: "string option \<Rightarrow> string \<Rightarrow> string" where
  "name_of h n = (if truthy h then ''@'' @ the h else n)"

definition describePick :: "successor_pick \<Rightarrow> string" where
  "describePick p =
     name_of (handle (pickActor p)) (userName (pickActor p)) @
     (case pickSource p of
        successor \<Rightarrow> '' (its declared successor)''
      | owner_of_target \<Rightarrow> '' (its owner)''
      | team_owner \<Rightarrow> '' (a team owner)'')"

section \<open>Expiry\<close>

definition EXPIRY_BATCH_SIZE :: nat where
  "EXPIRY_BATCH_SIZE = 50"

definition DEADLINE_FAILURE_REASON :: string where
  "DEADLINE_FAILURE_REASON = ''No answer within the deadline.''"

definition newlines :: string where
  "newlines = [char_of (10 :: nat), char_of (10 :: nat)]"

definition notice_head :: "string \<Rightarrow> string" where
  "notice_head asked = ''**'' @ asked @ '' has not replied within the deadline.**'' @ newlines @
     ''This says only that no answer arrived in time -- not that the agent is unavailable.'' @ newlines"

definition buildHandoffNotice :: "string option \<Rightarrow> string \<Rightarrow> string \<Rightarrow> skipped \<Rightarrow> string" where
  "buildHandoffNotice askedHandle askedName handedTo sk =
     (let asked = name_of askedHandle askedName;
          note = (if sk \<noteq> [] then newlines @ ''Skipped on the way: '' @ js_join ''; '' (map snd sk) @ ''.'' else [])
      in notice_head asked @ ''Handed to '' @ handedTo @
           '', who will answer in their own name from the record -- not as '' @ asked @ ''.'' @ note)"

definition buildExpiryNotice ::
  "string option \<Rightarrow> string \<Rightarrow> string option \<Rightarrow> string option \<Rightarrow> string list \<Rightarrow> string" where
  "buildExpiryNotice askedHandle askedName successorHandle successorName contacts =
     (let asked = name_of askedHandle askedName in
      notice_head asked @
      (if truthy successorName
       then ''Its declared successor is '' @ name_of successorHandle (the successorName) @
            '' -- ask there, or re-ask '' @ asked @ ''.''
       else if contacts \<noteq> []
       then ''No successor is declared for '' @ asked @ ''. Ask '' @ js_join '' or '' contacts @ '', or re-ask '' @ asked @ ''.''
       else ''No successor is declared for '' @ asked @
            '', and no human contact is recorded for its team. Re-ask '' @ asked @ '', or declare a successor.''))"

definition listTeamContacts :: "request_db \<Rightarrow> ident \<Rightarrow> string list" where
  "listTeamContacts db team =
     List.take 3 (concat (map (\<lambda>m. case find_user db (tmUserId m) of
         Some u \<Rightarrow> if userKind u = HUMAN then [userName u] else [] | None \<Rightarrow> [])
       (filter (\<lambda>m. tmRole m = OWNER \<and> tmTeamId m = team) (memberships db))))"

definition service_actor :: "ident \<Rightarrow> write_actor" where
  "service_actor i = \<lparr>actorId = Some i, actorKind = SERVICE, reason = None, surface = None\<rparr>"

definition overdue :: "ident \<Rightarrow> instant \<Rightarrow> agent_request \<Rightarrow> bool" where
  "overdue i now r \<longleftrightarrow> rqId r = i \<and> deadlineAt r \<le> now \<and> claimable r"

definition hand_on ::
  "ident \<Rightarrow> request_db \<Rightarrow> agent_request \<Rightarrow> user \<Rightarrow> issue \<Rightarrow> instant \<Rightarrow> handoff_result \<times> request_db" where
  "hand_on newId db r target work now =
     (if needInfo r
      then (\<lparr>hrNext = None, hrPick = None, hrSkipped = []\<rparr>,
            resolveAttentionNotifications [''needinfo.requested''] (rqId r) ''expired'' db)
      else handOffRequest newId db r target work now)"

definition expiry_notifications ::
  "request_db \<Rightarrow> agent_request \<Rightarrow> issue \<Rightarrow> handoff_result \<Rightarrow> request_db" where
  "expiry_notifications db r work h =
     (let db1 = (case (hrNext h, hrPick h) of
                   (Some n, Some p) \<Rightarrow> if userKind (pickActor p) = HUMAN
                      then notify ''agent.request_handed_off'' (userId (pickActor p)) (issueId work) (rqId n) db else db
                 | _ \<Rightarrow> db)
      in case find_user db (requestedByActorId r) of
           None \<Rightarrow> db1
         | Some asker \<Rightarrow>
             if userKind asker = HUMAN \<and>
                (case hrPick h of None \<Rightarrow> True | Some p \<Rightarrow> userId asker \<noteq> userId (pickActor p))
             then notify ''agent.request_expired'' (userId asker) (issueId work) (rqId r) db1 else db1)"

definition expireOneRequest ::
  "ident \<Rightarrow> ident \<Rightarrow> ident \<Rightarrow> request_db \<Rightarrow> ident \<Rightarrow> instant \<Rightarrow> (kernel_error, bool \<times> request_db) result" where
  "expireOneRequest sweeper newId newComment db i now =
     (if count_rows (overdue i now) (requests db) = 0 then Inr (False, db)
      else
        let db1 = update_requests (overdue i now)
              (\<lambda>q. q\<lparr>failureReason := Some DEADLINE_FAILURE_REASON, rqState := FAILED\<rparr>) db in
        case find_request db1 i of
          None \<Rightarrow> Inl (RecordNotFound ''agentRequest'')
        | Some r \<Rightarrow>
        case (find_user db1 (targetActorId r), find_issue db1 (rqWorkId r)) of
          (Some target, Some work) \<Rightarrow>
            (let (h, db2) = hand_on newId db1 r target work now;
                 body = (case hrPick h of
                   Some p \<Rightarrow> buildHandoffNotice (handle target) (userName target) (describePick p) (hrSkipped h)
                 | None \<Rightarrow> buildExpiryNotice (handle target) (userName target) None None (listTeamContacts db2 (teamId work)))
             in bind_result (recordRequestAudit (service_actor sweeper) ''expired'' r db2) (\<lambda>db3.
                bind_result (case hrNext h of None \<Rightarrow> Inr db3
                  | Some n \<Rightarrow> recordRequestAudit (service_actor sweeper) ''handed-off'' n db3) (\<lambda>db4.
                let db5 = add_comment \<lparr>commentId = newComment, commentBody = body, commentIssueId = issueId work,
                            parentCommentId = Some (rqRootCommentId r), commentUserId = sweeper\<rparr> db4;
                    db6 = enqueueWorkEvent ''agent.request_expired'' (issueId work) (rqId r) db5
                in Inr (True, expiry_notifications db6 r work h))))
        | _ \<Rightarrow> Inl (RecordNotFound ''agentRequest''))"

text \<open>
  A sweep takes the overdue requests of one batch, the longest overdue first, each in its own
  transaction; the identifiers for the rows of the \<open>k\<close>-th are drawn from a supply.
\<close>

fun expire_each ::
  "ident \<Rightarrow> (nat \<Rightarrow> ident \<times> ident) \<Rightarrow> nat \<Rightarrow> ident list \<Rightarrow> instant \<Rightarrow> nat \<Rightarrow> request_db
   \<Rightarrow> (kernel_error, nat \<times> request_db) result" where
  "expire_each sweeper fresh k [] now n db = Inr (n, db)"
| "expire_each sweeper fresh k (i # is) now n db =
     bind_result (expireOneRequest sweeper (fst (fresh k)) (snd (fresh k)) db i now) (\<lambda>(b, db1).
       expire_each sweeper fresh (Suc k) is now (if b then n + 1 else n) db1)"

definition expireOverdueAgentRequests ::
  "ident \<Rightarrow> (nat \<Rightarrow> ident \<times> ident) \<Rightarrow> request_db \<Rightarrow> instant \<Rightarrow> (kernel_error, nat \<times> request_db) result" where
  "expireOverdueAgentRequests sweeper fresh db now =
     expire_each sweeper fresh 0
       (map rqId (List.take EXPIRY_BATCH_SIZE (sort_key deadlineAt
         (filter (\<lambda>r. deadlineAt r \<le> now \<and> claimable r) (requests db))))) now 0 db"

section \<open>Questions for a named person\<close>

definition NEEDINFO_DEADLINE_MS :: int where
  "NEEDINFO_DEADLINE_MS = 7 * 24 * 60 * 60000"

definition OPEN_STATES :: "agent_request_state list" where
  "OPEN_STATES = [SUBMITTED, WORKING]"

record needinfo_input =
  niBy :: human_by
  niIdempotencyKey :: "string option"
  niQuestion :: string
  niTarget :: string
  niWorkId :: ident

text \<open>An actor named by identifier, handle or email; a deactivated one resolves to nothing.\<close>

definition UUID :: "string \<Rightarrow> bool" where
  "UUID s \<longleftrightarrow> is_uuid s"

definition resolveActorRef :: "request_db \<Rightarrow> string \<Rightarrow> user option" where
  "resolveActorRef db ref =
     (let v = js_trim ref;
          actor = (if v = [] then None
                   else if UUID v then find_user db v
                   else if js_includes v ''@'' \<and> \<not> js_starts_with v ''@''
                   then find (\<lambda>u. email u = Some (js_lower v)) (users db)
                   else find (\<lambda>u. handle u = Some (normalizeHandle v)) (users db))
      in case actor of Some u \<Rightarrow> if deactivatedAt u = None then Some u else None | None \<Rightarrow> None)"

definition requestNeedInfo ::
  "ident \<Rightarrow> ident \<Rightarrow> request_db \<Rightarrow> needinfo_input \<Rightarrow> instant
   \<Rightarrow> (kernel_error, agent_request \<times> request_db) result" where
  "requestNeedInfo newId newComment db inp now =
     (let question = js_trim (niQuestion inp); by = niBy inp;
          existing = (if truthy (niIdempotencyKey inp)
                      then find (\<lambda>r. idempotencyKey r = niIdempotencyKey inp) (requests db) else None) in
      bind_result (throw_if (question = []) (ValidationError ''NEEDINFO_QUESTION_REQUIRED_MESSAGE'')) (\<lambda>_.
      case existing of
        Some r \<Rightarrow>
          if \<not> needInfo r \<or> rqWorkId r \<noteq> niWorkId inp \<or> requestedByActorId r \<noteq> hbActorId by
          then Inl (ValidationError ''NEEDINFO_IDEMPOTENCY_MISMATCH_MESSAGE'')
          else Inr (r, db)
      | None \<Rightarrow>
      case find_issue db (niWorkId inp) of
        None \<Rightarrow> Inl (NotFoundError ''ISSUE_NOT_FOUND_MESSAGE'')
      | Some work \<Rightarrow>
      case resolveActorRef db (niTarget inp) of
        None \<Rightarrow> Inl (NotFoundError ''NEEDINFO_TARGET_NOT_FOUND_MESSAGE'')
      | Some target \<Rightarrow>
          bind_result (throw_if (userId target = hbActorId by) (ValidationError ''NEEDINFO_TARGET_SELF_MESSAGE'')) (\<lambda>_.
          bind_result (throw_if (userKind target = SERVICE) (ValidationError ''NEEDINFO_TARGET_SERVICE_MESSAGE'')) (\<lambda>_.
          bind_result (throw_if (hbActorKind by \<noteq> HUMAN \<and> userKind target \<noteq> HUMAN)
            (ValidationError ''NEEDINFO_AGENT_TO_AGENT_MESSAGE'')) (\<lambda>_.
          bind_result (throw_if (\<not> canAnswerOnTeam db target (teamId work) now)
            (ValidationError ''NEEDINFO_TARGET_CANNOT_ANSWER_MESSAGE'')) (\<lambda>_.
          bind_result (throw_if (\<exists>r \<in> set (requests db). needInfo r \<and> rqState r \<in> set OPEN_STATES
              \<and> targetActorId r = userId target \<and> rqWorkId r = issueId work)
            (ValidationError ''NEEDINFO_ALREADY_OPEN_MESSAGE'')) (\<lambda>_.
          let db1 = add_comment \<lparr>commentId = newComment,
                      commentBody = ''**Needinfo for '' @ userName target @ '':** '' @ question,
                      commentIssueId = issueId work, parentCommentId = None, commentUserId = hbActorId by\<rparr> db;
              (r, db2) = createAgentRequest newId db1
                \<lparr>crBody = question, crDeadlineAt = Some (now + NEEDINFO_DEADLINE_MS),
                 crIdempotencyKey = niIdempotencyKey inp, crPayingPrincipal = None,
                 crRequestedBy = hbActorId by, crRootCommentId = newComment, crTarget = userId target,
                 crWorkId = issueId work, crNeedInfo = True\<rparr> now in
          bind_result (recordRequestAudit \<lparr>actorId = Some (hbActorId by), actorKind = hbActorKind by,
              reason = None, surface = None\<rparr> ''needinfo'' r db2) (\<lambda>db3.
          Inr (r, notify ''needinfo.requested'' (userId target) (issueId work) (rqId r)
                 (enqueueWorkEvent ''needinfo.requested'' (issueId work) (rqId r) db3))))))))))"

fun answer_open ::
  "agent_request list \<Rightarrow> comment \<Rightarrow> actor_kind \<Rightarrow> nat \<Rightarrow> request_db \<Rightarrow> (kernel_error, nat \<times> request_db) result" where
  "answer_open [] c k n db = Inr (n, db)"
| "answer_open (r # rs) c k n db =
     (let cas = (\<lambda>q. rqId q = rqId r \<and> rqState q \<in> set OPEN_STATES) in
      if count_rows cas (requests db) = 0 then answer_open rs c k n db
      else
        let db1 = update_requests cas (\<lambda>q. q\<lparr>answeredCommentId := (if n = 0 then Some (commentId c) else None),
              claimExpiresAt := None, claimTokenHash := None, claimedBy := None, rqState := RQ_COMPLETED\<rparr>) db in
        bind_result (recordRequestAudit \<lparr>actorId = Some (commentUserId c), actorKind = k,
          reason = Some ''answered by a comment on the work'', surface = None\<rparr> ''answered'' r db1) (\<lambda>db2.
        bind_result (settleNeedInfoAnswered r (commentUserId c) db2) (\<lambda>db3.
        answer_open rs c k (n + 1) db3)))"

definition answerNeedInfoByComment ::
  "comment \<Rightarrow> request_db \<Rightarrow> (kernel_error, nat \<times> request_db) result" where
  "answerNeedInfoByComment c db =
     answer_open (sort_key rqCreatedAt (filter (\<lambda>r. needInfo r \<and> rqState r \<in> set OPEN_STATES \<and>
         targetActorId r = commentUserId c \<and> rqWorkId r = commentIssueId c) (requests db)))
       c (case find_user db (commentUserId c) of Some u \<Rightarrow> userKind u | None \<Rightarrow> HUMAN) 0 db"

definition withdrawNeedInfo ::
  "request_db \<Rightarrow> human_by \<Rightarrow> ident \<Rightarrow> string option \<Rightarrow> instant \<Rightarrow> (kernel_error, agent_request \<times> request_db) result" where
  "withdrawNeedInfo db by i rsn now =
     (case find_request db i of
        None \<Rightarrow> Inl (NotFoundError ''REQUEST_NOT_FOUND_MESSAGE'')
      | Some r \<Rightarrow>
          bind_result (throw_if (\<not> needInfo r) (ValidationError ''NEEDINFO_NOT_A_NEEDINFO_MESSAGE'')) (\<lambda>_.
          let why = override_reason rsn; override = (requestedByActorId r \<noteq> hbActorId by);
              cas = (\<lambda>q. rqId q = rqId r \<and> (rqState q \<in> set OPEN_STATES \<or> rqState q = INPUT_REQUIRED)) in
          bind_result (throw_if (override \<and> (hbActorKind by \<noteq> HUMAN \<or> hbGlobalRole by \<noteq> ADMIN))
            (ValidationError ''NEEDINFO_WITHDRAW_NOT_REQUESTER_MESSAGE'')) (\<lambda>_.
          bind_result (throw_if (override \<and> why = []) (ValidationError ''NEEDINFO_WITHDRAW_REASON_REQUIRED_MESSAGE'')) (\<lambda>_.
          bind_result (throw_if (count_rows cas (requests db) = 0) (ValidationError ''NEEDINFO_CLOSED_MESSAGE'')) (\<lambda>_.
          let db1 = update_requests cas (\<lambda>q. q\<lparr>canceledAt := Some now, claimExpiresAt := None,
                      claimTokenHash := None, claimedBy := None, rqState := RQ_CANCELED\<rparr>) db in
          bind_result (recordRequestAudit \<lparr>actorId = Some (hbActorId by), actorKind = hbActorKind by,
              reason = (if why = [] then None else Some (if override then ''override: '' @ why else why)),
              surface = None\<rparr> ''canceled'' r db1) (\<lambda>db2.
          let db3 = resolveAttentionNotifications [''needinfo.requested''] (rqId r) ''withdrawn''
                      (enqueueWorkEvent ''needinfo.withdrawn'' (rqWorkId r) (rqId r) db2) in
          case find_request db3 (rqId r) of
            None \<Rightarrow> Inl (RecordNotFound ''agentRequest'')
          | Some q \<Rightarrow> Inr (q, db3)))))))"

section \<open>Whom a request is handed to\<close>

definition eligible :: "request_db \<Rightarrow> pick_input \<Rightarrow> user \<Rightarrow> bool" where
  "eligible db inp u \<longleftrightarrow>
     userId u \<notin> set (piVisited inp) \<and> deactivatedAt u = None \<and> userKind u \<noteq> SERVICE \<and>
     (piForceHuman inp \<longrightarrow> userKind u = HUMAN) \<and> canAnswerOnTeam db u (piTeamId inp) (piNow inp)"

lemma find_user_id: "find_user db i = Some u \<Longrightarrow> userId u = i \<and> u \<in> set (users db)"
  by (auto simp: find_user_def dest: find_row_Some)

lemma consider_actor_Some:
  "consider_actor db inp c = (Some p, sk) \<Longrightarrow>
     find_user db (the (fst c)) = Some (pickActor p) \<and> eligible db inp (pickActor p)"
  by (auto simp: consider_actor_def Let_def eligible_def dest: find_user_id split: if_splits option.splits)


lemma first_pick_Some:
  "first_pick db inp cs = (Some p, sk) \<Longrightarrow>
     eligible db inp (pickActor p) \<and> (\<exists>c \<in> set cs. find_user db (the (fst c)) = Some (pickActor p))"
proof (induction cs arbitrary: sk)
  case (Cons c cs)
  show ?case
  proof (cases "consider_actor db inp c")
    case (Pair o_pick sk1)
    show ?thesis
    proof (cases o_pick)
      case None
      with Pair Cons.prems obtain sk2 where "first_pick db inp cs = (Some p, sk2)"
        by (auto split: prod.splits)
      with Cons.IH show ?thesis by auto
    next
      case (Some p')
      with Pair Cons.prems have "p' = p" by simp
      with Pair Some consider_actor_Some show ?thesis by fastforce
    qed
  qed
qed simp


section \<open>Hand-offs keep chains free of repetition\<close>

lemma handoff_request_simps [simp]:
  "rqId (handoff_request n r rt u d now) = n"
  "chain_root (handoff_request n r rt u d now) = rt"
  "claimTokenHash (handoff_request n r rt u d now) = None"
  "targetActorId (handoff_request n r rt u d now) = userId u"
  by (simp_all add: handoff_request_def chain_root_def)

lemma chain_root_in_chain: "chain_root q = chain_root r \<Longrightarrow> in_chain (chain_root r) q"
  by (auto simp: chain_root_def in_chain_def split: option.splits)

lemma link_change:
  assumes "\<And>q. q \<in> set rows \<Longrightarrow> rqId q = i \<Longrightarrow> chain_root q = rt"
  shows "row_change hash toks rows (update_rows (\<lambda>q. rqId q = i) (\<lambda>q. q\<lparr>rootRequestId := Some rt\<rparr>) rows)"
  using assms
  by (intro row_change.updated) (simp add: row_ok_simps chain_root_def [of "rootRequestId_update f q" for f q])

lemma handoff_cases:
  assumes "handOffRequest newId db r target work now = (h, db')"
  shows "\<exists>inp sk. pickSuccessor db target inp = (hrPick h, sk)
    \<and> set (piVisited inp) = insert (targetActorId r) (targetActorId ` {q \<in> set (requests db). in_chain (chain_root r) q})
    \<and> piTeamId inp = teamId work \<and> piNow inp = now
    \<and> (piForceHuman inp \<longleftrightarrow> hopCount r + 1 \<ge> MAX_HANDOFF_HOPS \<or>
         now \<ge> (case chainDeadlineAt r of Some d \<Rightarrow> d | None \<Rightarrow> rqCreatedAt r + CHAIN_TOTAL_MS))
    \<and> (let linked = update_rows (\<lambda>q. rqId q = rqId r) (\<lambda>q. q\<lparr>rootRequestId := Some (chain_root r)\<rparr>) (requests db) in
       case hrPick h of
         None \<Rightarrow> hrNext h = None \<and> requests db' = linked
       | Some p \<Rightarrow> (\<exists>d. hrNext h = Some (handoff_request newId r (chain_root r) (pickActor p) d now)) \<and>
           requests db' = linked @ [the (hrNext h)])"
proof -
  let ?dl = "case chainDeadlineAt r of Some d \<Rightarrow> d | None \<Rightarrow> rqCreatedAt r + CHAIN_TOTAL_MS"
  let ?inp = "\<lparr>piForceHuman = hopCount r + 1 \<ge> MAX_HANDOFF_HOPS \<or> now \<ge> ?dl, piNow = now, piTeamId = teamId work,
     piVisited = map targetActorId (filter (in_chain (chain_root r)) (requests db)) @ [targetActorId r]\<rparr>"
  obtain p sk where p: "pickSuccessor db target ?inp = (p, sk)" by (cases "pickSuccessor db target ?inp")
  have "hrPick h = p \<and> (let linked = update_rows (\<lambda>q. rqId q = rqId r) (\<lambda>q. q\<lparr>rootRequestId := Some (chain_root r)\<rparr>) (requests db) in
       case p of
         None \<Rightarrow> hrNext h = None \<and> requests db' = linked
       | Some p \<Rightarrow> (\<exists>d. hrNext h = Some (handoff_request newId r (chain_root r) (pickActor p) d now)) \<and>
           requests db' = linked @ [the (hrNext h)])"
    using assms p unfolding handOffRequest_def Let_def by (auto split: option.splits)
  with p show ?thesis by (intro exI [of _ ?inp] exI [of _ sk]) auto
qed

lemma handoff_change:
  assumes "handOffRequest newId db r target work now = (h, db')" and "rows_ok (requests db)"
    and "r \<in> set (requests db)" and "newId \<notin> rqId ` set (requests db)"
  shows "(row_change hash toks)\<^sup>*\<^sup>* (requests db) (requests db')"
proof -
  let ?linked = "update_rows (\<lambda>q. rqId q = rqId r) (\<lambda>q. q\<lparr>rootRequestId := Some (chain_root r)\<rparr>) (requests db)"
  from handoff_cases [OF assms(1)] obtain inp sk where
      pick: "pickSuccessor db target inp = (hrPick h, sk)"
    and visited: "set (piVisited inp) = insert (targetActorId r) (targetActorId ` {q \<in> set (requests db). in_chain (chain_root r) q})"
    and res: "case hrPick h of
         None \<Rightarrow> hrNext h = None \<and> requests db' = ?linked
       | Some p \<Rightarrow> (\<exists>d. hrNext h = Some (handoff_request newId r (chain_root r) (pickActor p) d now)) \<and>
           requests db' = ?linked @ [the (hrNext h)]"
    unfolding Let_def by blast
  have root_eq: "chain_root q = chain_root r" if "q \<in> set (requests db)" "rqId q = rqId r" for q
    using unique_key_inj [OF rows_okD(1) [OF assms(2)] that(1) assms(3) that(2)] by simp
  have link: "row_change hash toks (requests db) ?linked"
    using root_eq by (rule link_change)
  show ?thesis
  proof (cases "hrPick h")
    case None
    with res link show ?thesis by simp
  next
    case (Some p)
    with res obtain d where new: "requests db' = ?linked @ [handoff_request newId r (chain_root r) (pickActor p) d now]"
      by auto
    have ids: "rqId ` set ?linked = rqId ` set (requests db)"
      by (rule key_image_update_rows) simp
    have "userId (pickActor p) \<notin> set (piVisited inp)"
      using pick Some first_pick_Some unfolding pickSuccessor_def eligible_def by metis
    then have fresh: "targetActorId q \<noteq> userId (pickActor p)"
      if q: "q \<in> set ?linked" "chain_root q = chain_root r" for q
    proof -
      from update_rows_mem [OF q(1)] obtain q' where q': "q' \<in> set (requests db)"
        "q = (if rqId q' = rqId r then q'\<lparr>rootRequestId := Some (chain_root r)\<rparr> else q')" ..
      then have "targetActorId q = targetActorId q'" by simp
      moreover have "chain_root q' = chain_root r"
        using q' q(2) root_eq by (cases "rqId q' = rqId r") auto
      ultimately have "targetActorId q \<in> set (piVisited inp)"
        using visited q'(1) chain_root_in_chain by auto
      with \<open>userId (pickActor p) \<notin> set (piVisited inp)\<close> show ?thesis by auto
    qed
    have "chain_root r \<in> rqId ` set (requests db)" using rows_okD(2) [OF assms(2)] assms(3) by blast
    then have "row_change hash toks ?linked (?linked @ [handoff_request newId r (chain_root r) (pickActor p) d now])"
      using assms(4) ids fresh by (intro row_change.added) auto
    with link new show ?thesis by (auto intro: rtranclp.intros)
  qed
qed

lemma expiry_notifications_requests [simp]: "requests (expiry_notifications db r w h) = requests db"
  by (simp add: expiry_notifications_def Let_def split: option.splits)

lemma hand_on_change:
  assumes "hand_on newId db r target work now = (h, db')" and "rows_ok (requests db)"
    and "r \<in> set (requests db)" and "newId \<notin> rqId ` set (requests db)"
  shows "(row_change hash toks)\<^sup>*\<^sup>* (requests db) (requests db')"
proof (cases "needInfo r")
  case True
  with assms(1) have "requests db' = requests db" by (auto simp: hand_on_def)
  then show ?thesis by simp
next
  case False
  with assms handoff_change show ?thesis by (auto simp: hand_on_def)
qed

definition failed_rows :: "ident \<Rightarrow> instant \<Rightarrow> agent_request list \<Rightarrow> agent_request list" where
  "failed_rows i now rows = update_rows (overdue i now)
     (\<lambda>q. q\<lparr>failureReason := Some DEADLINE_FAILURE_REASON, rqState := FAILED\<rparr>) rows"

lemma failed_change: "row_change hash toks rows (failed_rows i now rows)"
  unfolding failed_rows_def by (rule row_change.updated) (auto simp: row_ok_simps overdue_def)

lemma expire_Inr:
  assumes "expireOneRequest sweeper newId newComment db i now = Inr (True, db')"
  shows "\<exists>r target work h db1 db2. requests db1 = failed_rows i now (requests db) \<and>
     find_row rqId i (requests db1) = Some r \<and> hand_on newId db1 r target work now = (h, db2) \<and>
     requests db' = requests db2"
proof -
  let ?db1 = "update_requests (overdue i now) (\<lambda>q. q\<lparr>failureReason := Some DEADLINE_FAILURE_REASON, rqState := FAILED\<rparr>) db"
  from assms obtain r target work where
      r: "find_request ?db1 i = Some r" and tw: "find_user ?db1 (targetActorId r) = Some target"
        "find_issue ?db1 (rqWorkId r) = Some work"
    unfolding expireOneRequest_def Let_def by (auto split: if_splits option.splits)
  obtain h db2 where h: "hand_on newId ?db1 r target work now = (h, db2)" by (cases "hand_on newId ?db1 r target work now")
  have "requests db' = requests db2"
    using assms r tw h unfolding expireOneRequest_def Let_def
    by (auto dest!: recordRequestAudit_requests split: if_splits option.splits)
  with r h show ?thesis
    by (intro exI [of _ r] exI [of _ target] exI [of _ work] exI [of _ h] exI [of _ ?db1] exI [of _ db2])
      (simp add: find_request_def failed_rows_def)
qed

lemma expire_change:
  assumes "expireOneRequest sweeper newId newComment db i now = Inr (b, db')" and "rows_ok (requests db)"
    and "newId \<notin> rqId ` set (requests db)"
  shows "(row_change hash toks)\<^sup>*\<^sup>* (requests db) (requests db')"
proof (cases b)
  case False
  with assms(1) have "db' = db"
    unfolding expireOneRequest_def Let_def by (auto split: if_splits option.splits prod.splits)
  then show ?thesis by simp
next
  case True
  with assms(1) have "expireOneRequest sweeper newId newComment db i now = Inr (True, db')" by simp
  from expire_Inr [OF this] obtain r target work h and db1 db2 :: request_db where
      db1: "requests db1 = failed_rows i now (requests db)" and r: "find_row rqId i (requests db1) = Some r"
    and h: "hand_on newId db1 r target work now = (h, db2)" and db': "requests db' = requests db2"
    by blast
  have ok: "rows_ok (requests db1)" unfolding db1 using failed_change assms(2) by (rule row_change_ok)
  have "rqId ` set (requests db1) = rqId ` set (requests db)"
    unfolding db1 failed_rows_def by (rule key_image_update_rows) simp
  with assms(3) have fresh: "newId \<notin> rqId ` set (requests db1)" by simp
  have "(row_change hash toks)\<^sup>*\<^sup>* (requests db1) (requests db2)"
    using hand_on_change [OF h ok _ fresh] find_row_Some [OF r] by blast
  with db1 db' failed_change show ?thesis by (metis converse_rtranclp_into_rtranclp)
qed

section \<open>Runs of request operations\<close>

lemma needinfo_change:
  assumes "requestNeedInfo newId newComment db inp now = Inr (r, db')" and "rows_ok (requests db)"
    and "newId \<notin> rqId ` set (requests db)"
  shows "(row_change hash toks)\<^sup>*\<^sup>* (requests db) (requests db')"
proof (cases "db' = db")
  case False
  have "\<exists>db1 ci db2. requests db1 = requests db \<and> createAgentRequest newId db1 ci now = (r, db2) \<and> requests db' = requests db2"
    using assms(1) False unfolding requestNeedInfo_def Let_def
    by (auto dest!: recordRequestAudit_requests split: option.splits if_splits prod.splits)
      (metis requests_simps(1))+
  then obtain db1 ci db2 where "requests db1 = requests db"
      and c: "createAgentRequest newId db1 ci now = (r, db2)" and "requests db' = requests db2"
    by blast
  with assms(2,3) create_change [OF c] show ?thesis by simp
qed simp

lemma open_not_terminal: "rqState q \<in> set OPEN_STATES \<or> rqState q = INPUT_REQUIRED \<Longrightarrow> \<not> isTerminalState (rqState q)"
  by (auto simp: OPEN_STATES_def isTerminalState_def TERMINAL_REQUEST_STATES_def)

lemma answer_open_change:
  "answer_open rs c k n db = Inr (m, db') \<Longrightarrow> (row_change hash toks)\<^sup>*\<^sup>* (requests db) (requests db')"
proof (induction rs arbitrary: n db)
  case (Cons r rs)
  let ?cas = "\<lambda>q. rqId q = rqId r \<and> rqState q \<in> set OPEN_STATES"
  let ?f = "\<lambda>q. q\<lparr>answeredCommentId := (if n = 0 then Some (commentId c) else None),
              claimExpiresAt := None, claimTokenHash := None, claimedBy := None, rqState := RQ_COMPLETED\<rparr>"
  show ?case
  proof (cases "count_rows ?cas (requests db) = 0")
    case True
    with Cons show ?thesis by (simp add: Let_def)
  next
    case False
    with Cons.prems obtain db2 db3 where
        a: "recordRequestAudit \<lparr>actorId = Some (commentUserId c), actorKind = k,
          reason = Some ''answered by a comment on the work'', surface = None\<rparr> ''answered'' r (update_requests ?cas ?f db) = Inr db2"
      and b: "settleNeedInfoAnswered r (commentUserId c) db2 = Inr db3" and rest: "answer_open rs c k (n + 1) db3 = Inr (m, db')"
      by (auto simp: Let_def)
    have "requests db3 = update_rows ?cas ?f (requests db)"
      using settle_requests [OF b] recordRequestAudit_requests [OF a] by simp
    moreover have "row_change hash toks (requests db) (update_rows ?cas ?f (requests db))"
      by (rule row_change.updated) (auto simp: row_ok_simps open_not_terminal)
    ultimately have "row_change hash toks (requests db) (requests db3)" by simp
    from this Cons.IH [OF rest] show ?thesis by (rule converse_rtranclp_into_rtranclp)
  qed
qed simp

lemma withdraw_change:
  assumes "withdrawNeedInfo db by i rsn now = Inr (x, db')"
  shows "row_change hash toks (requests db) (requests db')"
proof -
  from assms obtain r :: agent_request where "requests db' =
      update_rows (\<lambda>q. rqId q = rqId r \<and> (rqState q \<in> set OPEN_STATES \<or> rqState q = INPUT_REQUIRED))
        (\<lambda>q. q\<lparr>canceledAt := Some now, claimExpiresAt := None,
                claimTokenHash := None, claimedBy := None, rqState := RQ_CANCELED\<rparr>) (requests db)"
    unfolding withdrawNeedInfo_def Let_def
    by (auto dest!: recordRequestAudit_requests split: option.splits)
  then show ?thesis by (auto intro!: row_change.updated simp: row_ok_simps open_not_terminal)
qed

text \<open>The operations of the service, minting tokens from a given set.\<close>

inductive request_step :: "(string \<Rightarrow> string) \<Rightarrow> string set \<Rightarrow> request_db \<Rightarrow> request_db \<Rightarrow> bool" for hash toks where
  create: "newId \<notin> rqId ` set (requests db) \<Longrightarrow> createAgentRequest newId db ci now = (r, db') \<Longrightarrow>
    request_step hash toks db db'"
| claim: "minted \<in> toks \<Longrightarrow> claimAgentRequest hash minted db cl now = Inr ((tok, r), db') \<Longrightarrow>
    request_step hash toks db db'"
| answer: "answerAgentRequest hash c db ans now = Inr (x, db') \<Longrightarrow> request_step hash toks db db'"
| answer_human: "answerAgentRequestAsHuman c db hinp = Inr (x, db') \<Longrightarrow> request_step hash toks db db'"
| cancel: "cancelAgentRequest db by i now = Inr (r, db') \<Longrightarrow> request_step hash toks db db'"
| reply: "replyToAgentRequest c db rinp = Inr (r, db') \<Longrightarrow> request_step hash toks db db'"
| expire: "newId \<notin> rqId ` set (requests db) \<Longrightarrow>
    expireOneRequest sweeper newId c db i now = Inr (b, db') \<Longrightarrow> request_step hash toks db db'"
| ask: "newId \<notin> rqId ` set (requests db) \<Longrightarrow> requestNeedInfo newId c db ninp now = Inr (r, db') \<Longrightarrow>
    request_step hash toks db db'"
| comment: "answerNeedInfoByComment cm db = Inr (n, db') \<Longrightarrow> request_step hash toks db db'"
| withdraw: "withdrawNeedInfo db hb i rsn now = Inr (r, db') \<Longrightarrow> request_step hash toks db db'"

lemma request_step_rows:
  assumes "request_step hash toks db db'" and "rows_ok (requests db)"
  shows "(row_change hash toks)\<^sup>*\<^sup>* (requests db) (requests db')"
  using assms
proof cases
  case create
  then show ?thesis using create_change assms(2) by blast
next
  case claim
  then show ?thesis using claim_change by (blast intro: r_into_rtranclp)
next
  case answer
  then show ?thesis using answer_change by (blast intro: r_into_rtranclp)
next
  case answer_human
  then show ?thesis using human_change by (blast intro: r_into_rtranclp)
next
  case cancel
  then show ?thesis using cancel_change by (blast intro: r_into_rtranclp)
next
  case reply
  then show ?thesis using reply_change by (blast intro: r_into_rtranclp)
next
  case expire
  then show ?thesis using expire_change assms(2) by blast
next
  case ask
  then show ?thesis using needinfo_change assms(2) by blast
next
  case comment
  then show ?thesis using answer_open_change unfolding answerNeedInfoByComment_def by blast
next
  case withdraw
  then show ?thesis using withdraw_change by (blast intro: r_into_rtranclp)
qed

text \<open>The row changes themselves form a step system, on which the operations build.\<close>

interpretation row_runs: step_system "row_change hash toks" rows_ok rows_le for hash toks
  by unfold_locales (auto intro: row_change_ok row_change_le rows_le_refl rows_le_trans)

definition requests_ok :: "request_db \<Rightarrow> bool" where
  "requests_ok db \<longleftrightarrow> rows_ok (requests db)"

definition requests_forward :: "request_db \<Rightarrow> request_db \<Rightarrow> bool" where
  "requests_forward db db' \<longleftrightarrow> rows_le (requests db) (requests db')"

interpretation request_runs: step_system "request_step hash toks" requests_ok requests_forward for hash toks
proof
  show "requests_ok t" if "requests_ok s" "request_step hash toks s t" for s t
    using that request_step_rows row_runs.run_inv unfolding requests_ok_def by blast
  show "requests_forward s t" if "requests_ok s" "request_step hash toks s t" for s t
    using that request_step_rows row_runs.run_mono unfolding requests_ok_def requests_forward_def by blast
qed (auto simp: requests_forward_def intro: rows_le_refl rows_le_trans)

lemma row_changes_tokens:
  assumes "(row_change hash toks)\<^sup>*\<^sup>* rows rows'" and "q \<in> set rows'"
  shows "claimTokenHash q = None \<or> (\<exists>t \<in> toks. claimTokenHash q = Some (hash t)) \<or>
    (\<exists>r \<in> set rows. rqId r = rqId q \<and> claimTokenHash q = claimTokenHash r)"
  using assms
proof (induction arbitrary: q rule: rtranclp_induct)
  case (step rows1 rows2)
  from row_change_tokens [OF step.hyps(2) step.prems]
  consider "claimTokenHash q = None" | "\<exists>t \<in> toks. claimTokenHash q = Some (hash t)"
    | r where "r \<in> set rows1" "rqId r = rqId q" "claimTokenHash q = claimTokenHash r"
    by (elim disjE bexE conjE) auto
  then show ?case
  proof cases
    case 3
    then show ?thesis using step.IH [of r] by metis
  qed blast+
qed blast

lemma request_run_tokens:
  assumes "(request_step hash toks)\<^sup>*\<^sup>* db db'" and "requests_ok db" and "q \<in> set (requests db')"
  shows "claimTokenHash q = None \<or> (\<exists>t \<in> toks. claimTokenHash q = Some (hash t)) \<or>
    (\<exists>r \<in> set (requests db). rqId r = rqId q \<and> claimTokenHash q = claimTokenHash r)"
proof -
  have "(row_change hash toks)\<^sup>*\<^sup>* (requests db) (requests db')"
    using assms(1)
  proof (induction rule: rtranclp_induct)
    case (step a b)
    have "rows_ok (requests a)"
      using request_runs.run_inv [OF step.hyps(1) assms(2)] by (simp add: requests_ok_def)
    from request_step_rows [OF step.hyps(2) this] step.IH show ?case by (rule rtranclp_trans [rotated])
  qed simp
  then show ?thesis using assms(3) by (rule row_changes_tokens)
qed

lemma sample_step:
  "\<exists>db'. request_step id {''tok1''} sample_requests db' \<and> length (requests db') = 1"
proof -
  have "is_ok (claimAgentRequest id ''tok1'' sample_requests (sample_claim None) 0)" by code_simp
  then obtain tok r db' where c: "claimAgentRequest id ''tok1'' sample_requests (sample_claim None) 0 = Inr ((tok, r), db')"
    by (metis is_ok_Inr surj_pair)
  have "request_step id {''tok1''} sample_requests db'" by (rule request_step.claim [OF _ c]) simp
  moreover have "length (requests db') = 1"
    using claim_cases [OF c]
    by (auto simp: renewed_rows_def taken_rows_def update_rows_def sample_requests_def)
  ultimately show ?thesis by blast
qed




section \<open>Properties\<close>

text \<open>
  C15: over any sequence of the service's operations a request that has completed, failed or been
  cancelled stays exactly so, with its answer and its last claim, claim generations never fall, no
  request disappears, and no chain asks the same actor twice.
\<close>

theorem request_runs_forward:
  assumes "(request_step hash toks)\<^sup>*\<^sup>* db db'" and "rows_ok (requests db)"
  shows "rows_ok (requests db') \<and> (\<forall>r \<in> set (requests db). \<exists>r' \<in> set (requests db'). row_le r r')"
  using request_runs.run_inv [OF assms(1)] request_runs.run_mono [OF assms(1)] assms(2)
  by (simp add: requests_ok_def requests_forward_def rows_le_def)

theorem request_runs_forward_witness:
  "\<exists>db'. request_step id {''tok1''} sample_requests db' \<and> rows_ok (requests db')"
proof -
  from sample_step obtain db' where d: "request_step id {''tok1''} sample_requests db'" by blast
  then have "(request_step id {''tok1''})\<^sup>*\<^sup>* sample_requests db'" by (rule r_into_rtranclp)
  from request_runs_forward [OF this sample_rows_ok] d show ?thesis by blast
qed

text \<open>
  C7: an execution whose claim was superseded can never act on the request again: once the request no
  longer carries the hash of its token, and as long as that token is not minted anew, no later state
  of the system lets it answer.
\<close>

theorem stale_token_never_answers:
  assumes "(request_step hash toks)\<^sup>*\<^sup>* db db'" and "rows_ok (requests db)" and "inj hash" and "stale \<notin> toks"
    and "\<forall>r \<in> set (requests db). rqId r = i \<longrightarrow> claimTokenHash r \<noteq> Some (hash stale)"
    and "aiId ans = i" and "aiToken ans = stale"
  shows "\<not> is_ok (answerAgentRequest hash c db' ans now)"
proof
  assume "is_ok (answerAgentRequest hash c db' ans now)"
  then obtain x db2 where "answerAgentRequest hash c db' ans now = Inr (x, db2)"
    by (metis is_ok_Inr surj_pair)
  from answer_Inr [OF this] obtain r where r: "find_request db' i = Some r" "claimTokenHash r = Some (hash stale)"
    using assms(6,7) by blast
  then have mem: "r \<in> set (requests db')" "rqId r = i"
    unfolding find_request_def by (auto dest: find_row_Some)
  from request_run_tokens [OF assms(1) _ mem(1)] assms(2) r(2)
  have "(\<exists>t \<in> toks. hash stale = hash t) \<or>
      (\<exists>q \<in> set (requests db). rqId q = i \<and> claimTokenHash q = Some (hash stale))"
    using mem(2) by (auto simp: requests_ok_def)
  with assms(3,4,5) show False by (auto simp: inj_eq)
qed

theorem stale_token_never_answers_witness:
  "\<exists>db'. request_step id {''tok1''} sample_requests db' \<and>
     \<not> is_ok (answerAgentRequest id ''c9'' db' \<lparr>aiActorId = ''a1'', aiBody = ''done'', aiToken = ''tok0'',
        aiEvidence = [], aiId = ''r1'', aiState = None\<rparr> 1)"
proof -
  from sample_step obtain db' where d: "request_step id {''tok1''} sample_requests db'" by blast
  then have "(request_step id {''tok1''})\<^sup>*\<^sup>* sample_requests db'" by (rule r_into_rtranclp)
  then have "\<not> is_ok (answerAgentRequest id ''c9'' db' \<lparr>aiActorId = ''a1'', aiBody = ''done'', aiToken = ''tok0'',
        aiEvidence = [], aiId = ''r1'', aiState = None\<rparr> 1)"
    by (rule stale_token_never_answers [OF _ sample_rows_ok, where stale = "''tok0''" and i = "''r1''"])
      (simp_all add: sample_requests_def sample_request_def)
  with d show ?thesis by blast
qed






text \<open>
  C34: expiring is idempotent: once a sweep has settled a request, sweeping the same request again at
  any time changes nothing.
\<close>

theorem expire_once:
  assumes "expireOneRequest sweeper newId c db i now = Inr (True, db')" and "rows_ok (requests db)"
    and "newId \<notin> rqId ` set (requests db)"
  shows "expireOneRequest sweeper2 newId2 c2 db' i later_on = Inr (False, db')"
proof -
  from expire_Inr [OF assms(1)] obtain r target work h and db1 db2 :: request_db where
      db1: "requests db1 = failed_rows i now (requests db)" and r: "find_row rqId i (requests db1) = Some r"
    and h: "hand_on newId db1 r target work now = (h, db2)" and db': "requests db' = requests db2" by blast
  from r have mem: "r \<in> set (requests db1)" "rqId r = i" by (auto dest: find_row_Some)
  from assms(1) have "count_rows (overdue i now) (requests db) \<noteq> 0"
    unfolding expireOneRequest_def by (auto split: if_splits)
  then obtain q where q: "q \<in> set (requests db)" "overdue i now q" unfolding count_rows_pos ..
  have "find_row rqId (rqId q) (requests db1) =
      Some (q\<lparr>failureReason := Some DEADLINE_FAILURE_REASON, rqState := FAILED\<rparr>)"
    unfolding db1 failed_rows_def using rows_okD(1) [OF assms(2)] q by (intro find_request_update) simp_all
  with r q have failed: "rqState r = FAILED" by (simp add: overdue_def)
  have "(row_change id UNIV)\<^sup>*\<^sup>* (requests db1) (requests db2)"
  proof (rule hand_on_change [OF h _ mem(1)])
    show "rows_ok (requests db1)" unfolding db1 using failed_change assms(2) by (rule row_change_ok)
    show "newId \<notin> rqId ` set (requests db1)"
      unfolding db1 failed_rows_def using assms(3) by (subst key_image_update_rows) simp_all
  qed
  then have le: "rows_le (requests db1) (requests db')" and ok: "rows_ok (requests db')"
    unfolding db' using row_runs.run_mono row_runs.run_inv failed_change [of id UNIV "requests db" i now] assms(2)
    by (metis db1 row_change_ok)+
  from le mem(1) obtain r' where r': "r' \<in> set (requests db')" "row_le r r'" unfolding rows_le_def by blast
  have terminal: "isTerminalState FAILED" by (simp add: isTerminalState_def TERMINAL_REQUEST_STATES_def)
  have "\<not> overdue i later_on p" if p: "p \<in> set (requests db')" for p
  proof
    assume ov: "overdue i later_on p"
    then have "rqId p = rqId r'" using r'(2) mem(2) by (simp add: overdue_def row_le_def)
    then have "p = r'" using unique_key_inj [OF rows_okD(1) [OF ok] p r'(1)] by simp
    with r'(2) failed terminal have "isTerminalState (rqState p)" by (simp add: row_le_def)
    with ov show False by (simp add: overdue_def)
  qed
  then have "count_rows (overdue i later_on) (requests db') = 0"
    using count_rows_pos [of "overdue i later_on" "requests db'"] by blast
  then show ?thesis by (simp add: expireOneRequest_def)
qed

theorem expire_once_witness:
  "\<exists>db'. expireOneRequest ''svc'' ''r2'' ''c2'' sample_requests ''r1'' 86400000 = Inr (True, db')
     \<and> expireOneRequest ''svc'' ''r3'' ''c3'' db' ''r1'' 99999999 = Inr (False, db')"
proof -
  have "is_ok (expireOneRequest ''svc'' ''r2'' ''c2'' sample_requests ''r1'' 86400000)" by code_simp
  then obtain b db' where e: "expireOneRequest ''svc'' ''r2'' ''c2'' sample_requests ''r1'' 86400000 = Inr (b, db')"
    by (metis is_ok_Inr surj_pair)
  have "count_rows (overdue ''r1'' 86400000) (requests sample_requests) \<noteq> 0" by code_simp
  with e have b unfolding expireOneRequest_def Let_def by (auto split: option.splits prod.splits)
  with e have e': "expireOneRequest ''svc'' ''r2'' ''c2'' sample_requests ''r1'' 86400000 = Inr (True, db')" by simp
  have "''r2'' \<notin> rqId ` set (requests sample_requests)" by code_simp
  from expire_once [OF e' sample_rows_ok this] e' show ?thesis by blast
qed

end
