(* ===== verification/Cron.thy ===== *)
theory Cron
  imports Prelude
begin

text \<open>
  The clock behind a scheduled work item (\<^verbatim>\<open>packages/server/src/work-schedule-cron.ts\<close>): parsing of
  a five-field expression, matching an instant, and the search for the next matching minute.

  The wall clock of an instant in a time zone is \<^verbatim>\<open>Intl.DateTimeFormat\<close>; it is a parameter
  \<open>clock\<close> of the model, of which only this is assumed: the minute it shows is at most 59. An hour that
  cannot match is jumped over by the minutes left on its clock. Where the offset of the zone changes in the middle of a
  wall-clock hour (Pacific/Chatham goes from 02:45 to 03:45) the jump leaves the hour it was computed for;
  \<open>undisturbed\<close> says of a minute that no such jump can pass over it.
\<close>

record cron_fields =
  cMinute :: "nat list"
  cHour :: "nat list"
  cDayOfMonth :: "nat list option"
  cMonth :: "nat list"
  cDayOfWeek :: "nat list option"

record wall_clock =
  wMinute :: nat
  wHour :: nat
  wDayOfMonth :: nat
  wMonth :: nat
  wDayOfWeek :: nat

section \<open>Parsing\<close>

text \<open>
  The pieces of a part: the start (\<open>None\<close> for a star), the end of a range and the step. \<open>None\<close>
  overall when the part does not have the form of the source's regular expression.
\<close>

definition all_digits :: "string \<Rightarrow> bool" where
  "all_digits s \<longleftrightarrow> s \<noteq> [] \<and> list_all is_digit s"

definition split_at :: "char \<Rightarrow> string \<Rightarrow> string \<times> string option" where
  "split_at d s =
     (let a = takeWhile (\<lambda>c. c \<noteq> d) s in
      (a, if length a < length s then Some (drop (Suc (length a)) s) else None))"

definition read_part :: "string \<Rightarrow> (nat option \<times> nat option \<times> nat option) option" where
  "read_part part =
     (let (range, stepText) = split_at CHR ''/'' part; (startText, endText) = split_at CHR ''-'' range;
          ok = (\<lambda>t. case t of None \<Rightarrow> True | Some s \<Rightarrow> all_digits s)
      in if (startText = ''*'' \<or> all_digits startText) \<and> ok endText \<and> ok stepText
         then Some (if startText = ''*'' then None else Some (digits_value 0 startText),
                    map_option (digits_value 0) endText, map_option (digits_value 0) stepText)
         else None)"

text \<open>\<open>start, start + step, \<dots>\<close> up to \<open>end\<close>.\<close>

definition stepped :: "nat \<Rightarrow> nat \<Rightarrow> nat \<Rightarrow> nat list" where
  "stepped start fin step = filter (\<lambda>v. (v - start) mod step = 0) [start..<Suc fin]"

text \<open>\<^verbatim>\<open>Number\<close> of so many digits is infinite, and no integer.\<close>

definition too_large :: "nat \<Rightarrow> bool" where
  "too_large k \<longleftrightarrow> 2 ^ 1024 - 2 ^ 970 \<le> int k"

definition part_values :: "nat \<Rightarrow> nat \<Rightarrow> string \<Rightarrow> nat list option" where
  "part_values lo hi part =
     (case read_part part of
        None \<Rightarrow> None
      | Some (s, e, st) \<Rightarrow>
          let step = (case st of Some k \<Rightarrow> k | None \<Rightarrow> 1);
              start = (case s of Some k \<Rightarrow> k | None \<Rightarrow> lo);
              fin = (case e of Some k \<Rightarrow> k | None \<Rightarrow> if s = None then hi else if st \<noteq> None then hi else start)
          in if (case st of Some k \<Rightarrow> too_large k | None \<Rightarrow> False) \<or> step < 1 \<or> start < lo \<or> fin > hi \<or> start > fin then None
             else Some (stepped start fin step))"

fun parts_values :: "nat \<Rightarrow> nat \<Rightarrow> string list \<Rightarrow> nat list option" where
  "parts_values lo hi [] = Some []"
| "parts_values lo hi (p # ps) =
     (case (part_values lo hi p, parts_values lo hi ps) of
        (Some a, Some b) \<Rightarrow> Some (a @ b) | _ \<Rightarrow> None)"

text \<open>The outer \<open>None\<close> is the thrown error, the inner one the unrestricted field.\<close>

definition parseField :: "string \<Rightarrow> nat \<Rightarrow> nat \<Rightarrow> nat list option option" where
  "parseField field lo hi =
     (if field = ''*'' then Some None
      else map_option Some (parts_values lo hi (js_split CHR '','' field)))"

text \<open>\<^verbatim>\<open>split(/\s+/)\<close> of a trimmed text.\<close>

function split_spaces :: "string \<Rightarrow> string list" where
  "split_spaces s =
     (let a = takeWhile (\<lambda>c. \<not> is_space c) s; r = dropWhile (\<lambda>c. \<not> is_space c) s in
      if r = [] then [a] else a # split_spaces (dropWhile is_space r))"
  by pat_completeness auto
termination
proof (relation "measure length", goal_cases)
  case (2 s a r)
  then have "r \<noteq> []" and r: "r = dropWhile (\<lambda>c. \<not> is_space c) s" by simp_all
  then have "is_space (hd r)" using hd_dropWhile [of "\<lambda>c. \<not> is_space c" s] by simp
  with \<open>r \<noteq> []\<close> have "length (dropWhile is_space r) < length r"
    by (cases r) (simp_all add: length_dropWhile_le le_imp_less_Suc)
  also have "length r \<le> length s" unfolding r by (rule length_dropWhile_le)
  finally show ?case by simp
qed simp

declare split_spaces.simps [simp del]

definition sunday_zero :: "nat list \<Rightarrow> nat list" where
  "sunday_zero xs = (if 7 \<in> set xs then filter (\<lambda>v. v \<noteq> 7) xs @ [0] else xs)"

definition CRON_FORMAT_MESSAGE :: string where
  "CRON_FORMAT_MESSAGE = ''A schedule is five cron fields: minute hour day-of-month month day-of-week (e.g. '' @ [CHR 0x22] @ ''0 9 * * 1-5'' @ [CHR 0x22] @ '').''"

definition or_all :: "nat list option \<Rightarrow> nat list \<Rightarrow> nat list" where
  "or_all v full = (case v of None \<Rightarrow> full | Some xs \<Rightarrow> xs)"

definition parseCron :: "string \<Rightarrow> cron_fields option" where
  "parseCron expression =
     (case split_spaces (js_trim expression) of
        [minute, hour, dayOfMonth, month, dayOfWeek] \<Rightarrow>
          (case (parseField dayOfWeek 0 7, parseField minute 0 59, parseField hour 0 23,
                 parseField dayOfMonth 1 31, parseField month 1 12) of
             (Some dow, Some mi, Some ho, Some dm, Some mo) \<Rightarrow>
               Some \<lparr>cMinute = or_all mi [0..<60], cHour = or_all ho [0..<24], cDayOfMonth = dm,
                     cMonth = or_all mo [1..<13], cDayOfWeek = map_option sunday_zero dow\<rparr>
           | _ \<Rightarrow> None)
      | _ \<Rightarrow> None)"

section \<open>Matching\<close>

definition field_has :: "nat list option \<Rightarrow> nat \<Rightarrow> bool" where
  "field_has f v \<longleftrightarrow> (case f of None \<Rightarrow> True | Some xs \<Rightarrow> v \<in> set xs)"

definition day_ok :: "cron_fields \<Rightarrow> wall_clock \<Rightarrow> bool" where
  "day_ok f c =
     (let domOk = field_has (cDayOfMonth f) (wDayOfMonth c); dowOk = field_has (cDayOfWeek f) (wDayOfWeek c) in
      if cDayOfMonth f \<noteq> None \<and> cDayOfWeek f \<noteq> None then domOk \<or> dowOk else domOk \<and> dowOk)"

definition matches :: "cron_fields \<Rightarrow> wall_clock \<Rightarrow> bool" where
  "matches f c \<longleftrightarrow>
     \<not> (wMinute c \<notin> set (cMinute f) \<or> wHour c \<notin> set (cHour f) \<or> wMonth c \<notin> set (cMonth f)) \<and> day_ok f c"

section \<open>The next match\<close>

text \<open>
  The result of the loop is \<open>Some (Some t)\<close> for a match, \<open>Some None\<close> when the limit is passed,
  and \<open>None\<close> when it never ends.
\<close>

partial_function (option) next_loop ::
  "(instant \<Rightarrow> wall_clock) \<Rightarrow> cron_fields \<Rightarrow> instant \<Rightarrow> instant \<Rightarrow> instant option option" where
  "next_loop clock f limit t =
     (if t < limit then
        (if wMonth (clock t) \<notin> set (cMonth f) \<or> \<not> day_ok f (clock t) \<or> wHour (clock t) \<notin> set (cHour f)
         then next_loop clock f limit (t + (60 - int (wMinute (clock t))) * 60000)
         else if wMinute (clock t) \<in> set (cMinute f) then Some (Some t)
         else next_loop clock f limit (t + 60000))
      else Some None)"

definition first_minute :: "instant \<Rightarrow> instant" where
  "first_minute after = after div 60000 * 60000 + 60000"

definition search_limit :: "instant \<Rightarrow> instant" where
  "search_limit t = t + 2 * 366 * 24 * 60 * 60000"

text \<open>The thrown format error is \<open>Inl\<close>.\<close>

definition nextMatch ::
  "(instant \<Rightarrow> wall_clock) \<Rightarrow> string \<Rightarrow> instant \<Rightarrow> string + instant option option" where
  "nextMatch clock expression after =
     (case parseCron expression of
        None \<Rightarrow> Inl CRON_FORMAT_MESSAGE
      | Some f \<Rightarrow> Inr (next_loop clock f (search_limit (first_minute after)) (first_minute after)))"

section \<open>Parsed fields are in range\<close>

lemma stepped_bounds: "v \<in> set (stepped a b k) \<Longrightarrow> a \<le> v \<and> v \<le> b"
  by (auto simp: stepped_def)

lemma part_values_bounds: "part_values lo hi p = Some xs \<Longrightarrow> v \<in> set xs \<Longrightarrow> lo \<le> v \<and> v \<le> hi"
  by (auto simp: part_values_def Let_def dest!: stepped_bounds split: option.splits if_splits)

lemma parts_values_bounds: "parts_values lo hi ps = Some xs \<Longrightarrow> v \<in> set xs \<Longrightarrow> lo \<le> v \<and> v \<le> hi"
proof (induction ps arbitrary: xs)
  case (Cons p ps)
  then obtain a b where "part_values lo hi p = Some a" "parts_values lo hi ps = Some b" "xs = a @ b"
    by (auto split: option.splits)
  with Cons part_values_bounds show ?case by auto
qed simp

lemma parseField_bounds: "parseField s lo hi = Some (Some xs) \<Longrightarrow> v \<in> set xs \<Longrightarrow> lo \<le> v \<and> v \<le> hi"
  by (auto simp: parseField_def split: if_splits dest: parts_values_bounds)

lemma or_all_bounds:
  assumes "parseField s lo hi = Some r" and "v \<in> set (or_all r [lo..<Suc hi])"
  shows "lo \<le> v \<and> v \<le> hi"
proof (cases r)
  case None
  with assms(2) show ?thesis by (auto simp: or_all_def)
next
  case (Some xs)
  with assms parseField_bounds show ?thesis by (auto simp: or_all_def)
qed

lemma parseCron_Some:
  assumes "parseCron e = Some f"
  shows "\<exists>mi ho dm mo dw a b c d g. parseField mi 0 59 = Some a \<and> parseField ho 0 23 = Some b \<and>
    parseField dm 1 31 = Some c \<and> parseField mo 1 12 = Some d \<and> parseField dw 0 7 = Some g \<and>
    f = \<lparr>cMinute = or_all a [0..<60], cHour = or_all b [0..<24], cDayOfMonth = c, cMonth = or_all d [1..<13],
         cDayOfWeek = map_option sunday_zero g\<rparr>"
  using assms unfolding parseCron_def by (simp split: list.splits option.splits) blast

lemma sunday_zero_bounds:
  assumes "\<And>v. v \<in> set xs \<Longrightarrow> v \<le> 7" and "v \<in> set (sunday_zero xs)"
  shows "v \<le> 6"
proof -
  have "v \<noteq> 7" using assms(2) by (auto simp: sunday_zero_def split: if_splits)
  moreover have "v \<le> 7" using assms by (auto simp: sunday_zero_def split: if_splits)
  ultimately show ?thesis by simp
qed

text \<open>
  Every accepted expression has its minutes in 0 to 59, hours in 0 to 23, days in 1 to 31, months
  in 1 to 12 and weekdays in 0 to 6, Sunday being 0 whether it was written 0 or 7.
\<close>

lemma parseCron_bounds:
  assumes "parseCron e = Some f"
  shows "(\<forall>v \<in> set (cMinute f). v \<le> 59) \<and> (\<forall>v \<in> set (cHour f). v \<le> 23) \<and>
    (\<forall>xs. cDayOfMonth f = Some xs \<longrightarrow> (\<forall>v \<in> set xs. 1 \<le> v \<and> v \<le> 31)) \<and>
    (\<forall>v \<in> set (cMonth f). 1 \<le> v \<and> v \<le> 12) \<and>
    (\<forall>xs. cDayOfWeek f = Some xs \<longrightarrow> (\<forall>v \<in> set xs. v \<le> 6))"
proof -
  from parseCron_Some [OF assms] obtain mi ho dm mo dw a b c d g where
      p: "parseField mi 0 59 = Some a" "parseField ho 0 23 = Some b" "parseField dm 1 31 = Some c"
        "parseField mo 1 12 = Some d" "parseField dw 0 7 = Some g"
    and f: "f = \<lparr>cMinute = or_all a [0..<60], cHour = or_all b [0..<24], cDayOfMonth = c, cMonth = or_all d [1..<13],
         cDayOfWeek = map_option sunday_zero g\<rparr>" by blast
  have "\<forall>v \<in> set (or_all a [0..<60]). v \<le> 59" using or_all_bounds [OF p(1)] by auto
  moreover have "\<forall>v \<in> set (or_all b [0..<24]). v \<le> 23" using or_all_bounds [OF p(2)] by auto
  moreover have "\<forall>v \<in> set (or_all d [1..<13]). 1 \<le> v \<and> v \<le> 12" using or_all_bounds [OF p(4)] by auto
  moreover have "\<forall>xs. c = Some xs \<longrightarrow> (\<forall>v \<in> set xs. 1 \<le> v \<and> v \<le> 31)" using parseField_bounds [of dm 1 31] p(3) by auto
  moreover have "v \<le> 6" if "g = Some ys" "v \<in> set (sunday_zero ys)" for ys v
    using sunday_zero_bounds [OF _ that(2)] parseField_bounds [of dw 0 7 ys] p(5) that(1) by auto
  ultimately show ?thesis unfolding f by auto
qed

section \<open>The search finds the first match\<close>

text \<open>
  A minute is undisturbed when every earlier minute from which the rest of its wall-clock hour reaches beyond it
  shows the same hour, day, month and weekday.
\<close>

definition undisturbed :: "(instant \<Rightarrow> wall_clock) \<Rightarrow> instant \<Rightarrow> bool" where
  "undisturbed clock u \<longleftrightarrow>
     (\<forall>t. 60000 dvd t \<and> t \<le> u \<and> u < t + (60 - int (wMinute (clock t))) * 60000 \<longrightarrow>
        clock t = (clock u)\<lparr>wMinute := wMinute (clock t)\<rparr>)"

lemma minute_offset:
  assumes "60000 dvd (t :: int)" "60000 dvd u" "t \<le> u"
  obtains k :: nat where "u = t + int k * 60000"
proof -
  from assms obtain q where q: "u - t = 60000 * q" using dvd_diff by blast
  with assms(3) have "0 \<le> q" by simp
  with q have "u = t + int (nat q) * 60000" by simp
  then show ?thesis by (rule that)
qed

lemma day_ok_minute: "day_ok f (c\<lparr>wMinute := m\<rparr>) = day_ok f c"
  by (simp add: day_ok_def)

lemma skipped_hour:
  assumes "60000 dvd t" and "wMonth (clock t) \<notin> set (cMonth f) \<or> \<not> day_ok f (clock t) \<or> wHour (clock t) \<notin> set (cHour f)"
    and "undisturbed clock u" and "t \<le> u" and "u < t + (60 - int (wMinute (clock t))) * 60000"
  shows "\<not> matches f (clock u)"
proof
  assume m: "matches f (clock u)"
  from assms(1,3,4,5) have c: "clock t = (clock u)\<lparr>wMinute := wMinute (clock t)\<rparr>" unfolding undisturbed_def by blast
  have "wMonth (clock t) = wMonth (clock u)" "wHour (clock t) = wHour (clock u)" "day_ok f (clock t) = day_ok f (clock u)"
    using arg_cong [OF c, of wMonth] arg_cong [OF c, of wHour] arg_cong [OF c, of "day_ok f"] by (simp_all add: day_ok_minute)
  with m assms(2) show False by (auto simp: matches_def)
qed

text \<open>
  What the search promises from \<open>t\<close> to its limit: a matching minute before which no undisturbed minute matches,
  or nothing, when none before the limit does.
\<close>

definition first_match :: "(instant \<Rightarrow> wall_clock) \<Rightarrow> cron_fields \<Rightarrow> instant \<Rightarrow> instant \<Rightarrow> instant option \<Rightarrow> bool" where
  "first_match clock f t limit r \<longleftrightarrow>
     (case r of
        Some x \<Rightarrow> t \<le> x \<and> x < limit \<and> 60000 dvd x \<and> matches f (clock x) \<and>
          (\<forall>u. 60000 dvd u \<and> t \<le> u \<and> u < x \<and> undisturbed clock u \<longrightarrow> \<not> matches f (clock u))
      | None \<Rightarrow> (\<forall>u. 60000 dvd u \<and> t \<le> u \<and> u < limit \<and> undisturbed clock u \<longrightarrow> \<not> matches f (clock u)))"

lemma first_match_later:
  assumes "first_match clock f t' limit r" and "t < t'"
    and "\<And>u. 60000 dvd u \<Longrightarrow> t \<le> u \<Longrightarrow> u < t' \<Longrightarrow> undisturbed clock u \<Longrightarrow> \<not> matches f (clock u)"
  shows "first_match clock f t limit r"
proof (cases r)
  case None
  have "\<not> matches f (clock u)" if "60000 dvd u" "t \<le> u" "u < limit" "undisturbed clock u" for u
    using assms(1,3) that None by (cases "u < t'") (auto simp: first_match_def)
  with None show ?thesis by (simp add: first_match_def)
next
  case (Some x)
  have "\<not> matches f (clock u)" if "60000 dvd u" "t \<le> u" "u < x" "undisturbed clock u" for u
    using assms(1,3) that Some by (cases "u < t'") (auto simp: first_match_def)
  with Some assms(1,2) show ?thesis by (simp add: first_match_def)
qed

lemma next_loop_correct:
  assumes "\<forall>t. wMinute (clock t) \<le> 59" and "60000 dvd t"
  shows "\<exists>r. next_loop clock f limit t = Some r \<and> first_match clock f t limit r"
  using assms(2)
proof (induction "nat (limit - t)" arbitrary: t rule: less_induct)
  case less
  let ?c = "clock t"
  show ?case
  proof (cases "t < limit")
    case False
    then show ?thesis by (subst next_loop.simps) (auto simp: first_match_def)
  next
    case lim: True
    show ?thesis
    proof (cases "wMonth ?c \<notin> set (cMonth f) \<or> \<not> day_ok f ?c \<or> wHour ?c \<notin> set (cHour f)")
      case True
      let ?t = "t + (60 - int (wMinute ?c)) * 60000"
      have "wMinute ?c \<le> 59" using assms(1) by blast
      then have t: "t < ?t" by simp
      moreover have "60000 dvd ?t" using less.prems by simp
      ultimately obtain r where r: "next_loop clock f limit ?t = Some r" "first_match clock f ?t limit r"
        using less.hyps [of ?t] lim by auto
      have "first_match clock f t limit r"
        using first_match_later [OF r(2) t] skipped_hour [where clock = clock and t = t, OF less.prems True] by blast
      with r(1) lim True show ?thesis by (subst next_loop.simps) simp
    next
      case day: False
      show ?thesis
      proof (cases "wMinute ?c \<in> set (cMinute f)")
        case True
        with day have "matches f ?c" by (simp add: matches_def)
        with lim day True less.prems show ?thesis by (subst next_loop.simps) (auto simp: first_match_def)
      next
        case False
        have "60000 dvd t + 60000" using less.prems by simp
        then obtain r where r: "next_loop clock f limit (t + 60000) = Some r" "first_match clock f (t + 60000) limit r"
          using less.hyps [of "t + 60000"] lim by auto
        have none: "\<not> matches f (clock u)" if "60000 dvd u" "t \<le> u" "u < t + 60000" for u
        proof -
          from minute_offset [OF less.prems that(1,2)] obtain k where "u = t + int k * 60000" .
          with that(3) have "u = t" by simp
          with False show ?thesis by (simp add: matches_def)
        qed
        have "first_match clock f t limit r" by (rule first_match_later [OF r(2) _ none]) auto
        with r(1) lim day False show ?thesis by (subst next_loop.simps) simp
      qed
    qed
  qed
qed

text \<open>
  C21: the search for the next match always ends, in any zone whose clock shows minutes up to 59. It returns a matching
  minute strictly after the given instant and within two years such that no undisturbed minute in between matches, or
  nothing when no undisturbed minute of the two years does: jumping over the hours that cannot match loses a minute only
  where the zone changes its offset in the middle of a wall-clock hour.
\<close>

theorem nextMatch_first:
  assumes "\<forall>t. wMinute (clock t) \<le> 59" and "parseCron e = Some f"
  shows "\<exists>r. nextMatch clock e after = Inr (Some r) \<and>
    first_match clock f (first_minute after) (search_limit (first_minute after)) r \<and>
    after < first_minute after \<and> first_minute after \<le> after + 60000"
proof -
  have "60000 dvd first_minute after" by (simp add: first_minute_def)
  from next_loop_correct [OF assms(1) this] obtain r where
    "next_loop clock f (search_limit (first_minute after)) (first_minute after) = Some r"
    "first_match clock f (first_minute after) (search_limit (first_minute after)) r" by blast
  moreover have "after < first_minute after \<and> first_minute after \<le> after + 60000"
    unfolding first_minute_def by (simp add: div_mult_mod_eq minus_mod_eq_div_mult [symmetric])
  ultimately show ?thesis using assms(2) by (simp add: nextMatch_def)
qed

text \<open>The clock of UTC without a calendar: days counted from the epoch in months of thirty days.\<close>

definition day_clock :: "instant \<Rightarrow> wall_clock" where
  "day_clock t =
     (let m = t div 60000; d = m div 1440 in
      \<lparr>wMinute = nat (m mod 60), wHour = nat (m div 60 mod 24), wDayOfMonth = nat (d mod 30 + 1),
       wMonth = nat (d div 30 mod 12 + 1), wDayOfWeek = nat ((d + 4) mod 7)\<rparr>)"

lemma within_hour:
  assumes "(m :: int) mod 60 + k \<le> 59" and "0 \<le> k"
  shows "(m + k) mod 60 = m mod 60 + k" and "(m + k) div 60 = m div 60"
proof -
  have "0 \<le> m mod 60 + k" "m mod 60 + k < 60" using assms by simp_all
  then have "(m mod 60 + k) mod 60 = m mod 60 + k" "(m mod 60 + k) div 60 = 0" by simp_all
  moreover have "m + k = m div 60 * 60 + (m mod 60 + k)" by simp
  ultimately show "(m + k) mod 60 = m mod 60 + k" "(m + k) div 60 = m div 60"
    by (metis mod_mult_self3, metis add.right_neutral div_mult_self3 zero_neq_numeral)
qed

lemma day_clock_minute: "wMinute (day_clock t) \<le> 59"
  by (simp add: day_clock_def Let_def nat_le_iff)

lemma day_clock_undisturbed:
  assumes "60000 dvd u"
  shows "undisturbed day_clock u"
  unfolding undisturbed_def
proof (intro allI impI, elim conjE)
  fix t :: int
  assume t: "60000 dvd t" "t \<le> u" "u < t + (60 - int (wMinute (day_clock t))) * 60000"
  have step: "day_clock (t + int k * 60000) = (day_clock t)\<lparr>wMinute := wMinute (day_clock t) + k\<rparr>"
    if "wMinute (day_clock t) + k \<le> 59" for t k
  proof -
    let ?m = "t div 60000"
    have m: "(t + int k * 60000) div 60000 = ?m + int k" by simp
    have k: "?m mod 60 + int k \<le> 59" using that by (simp add: day_clock_def Let_def)
    note mod = within_hour(1) [OF k of_nat_0_le_iff] and hour = within_hour(2) [OF k of_nat_0_le_iff]
    have "(?m + int k) div 1440 = (?m + int k) div 60 div 24" by (simp add: zdiv_zmult2_eq [symmetric])
    also have "\<dots> = ?m div 1440" unfolding hour by (simp add: zdiv_zmult2_eq [symmetric])
    finally have day: "(?m + int k) div 1440 = ?m div 1440" .
    show ?thesis
      unfolding day_clock_def Let_def m mod hour day by (simp add: nat_add_distrib)
  qed
  from minute_offset [OF t(1) assms t(2)] obtain k where k: "u = t + int k * 60000" .
  with t(3) have "wMinute (day_clock t) + k \<le> 59" by simp
  from step [OF this] k show "day_clock t = (day_clock u)\<lparr>wMinute := wMinute (day_clock t)\<rparr>" by simp
qed

theorem nextMatch_first_witness:
  "\<exists>f r. parseCron ''30 9 * * 1'' = Some f \<and> nextMatch day_clock ''30 9 * * 1'' 0 = Inr (Some r) \<and>
     first_match day_clock f 60000 (search_limit 60000) r \<and> undisturbed day_clock 60000"
proof -
  have "parseCron ''30 9 * * 1'' \<noteq> None" by code_simp
  then obtain f where f: "parseCron ''30 9 * * 1'' = Some f" by auto
  from nextMatch_first [OF _ f, of day_clock 0] f show ?thesis
    by (auto simp: first_minute_def day_clock_minute day_clock_undisturbed)
qed

end
