(* ===== verification/Delivery_Policy.thy ===== *)
theory Delivery_Policy
  imports Json Kernel_Data
begin

text \<open>
  Delivery packages (\<^verbatim>\<open>packages/server/src/delivery-policy.ts\<close>): a finite implementation plan is
  read from untyped data, every unit is checked against the contract of its work, and the dependency
  graph of the units is searched for cycles; a unit's own contract is a slice of the approved one.
  A dash in a message is written with a hyphen.
\<close>

definition DELIVERY_ACTIONS :: "string list" where
  "DELIVERY_ACTIONS = [''edit'', ''test'', ''pull_request'', ''merge'', ''deploy'']"

record technical_check =
  workflowId :: rat
  job :: string

record delivery_unit =
  unitKey :: string
  unitTitle :: string
  unitCriteria :: "nat list"
  unitPaths :: "string list"
  unitActions :: "string list"
  dependsOn :: "string list"
  executor :: "(string \<times> rat) option" \<comment> \<open>the agent and its attempts\<close>
  unitChecks :: "technical_check list"

record delivery_policy =
  dpUnits :: "delivery_unit list"
  dpEnvironments :: "string list"

record delivery_contract =
  dcAcceptance :: "string option"
  dcScope :: "string option"
  dcConstraints :: "string option"
  dcRepository :: "string option"
  dcVerification :: "string option"

section \<open>Reading untyped data\<close>

definition object :: "json \<Rightarrow> string list \<Rightarrow> (kernel_error, (string \<times> json) list) result" where
  "object v keys =
     (case v of
        JObj kvs \<Rightarrow>
          if \<exists>k \<in> fst ` set kvs. k \<notin> set keys
          then Inl (ValidationError ''Unknown delivery policy field; new goals require a candidate change.'')
          else Inr kvs
      | _ \<Rightarrow> Inl (ValidationError ''Delivery policy must contain objects.''))"

definition text_of :: "json \<Rightarrow> string option" where
  "text_of v = (case v of JStr s \<Rightarrow> Some s | _ \<Rightarrow> None)"

definition blank_text :: "json \<Rightarrow> bool" where
  "blank_text v = (case text_of v of None \<Rightarrow> True | Some s \<Rightarrow> js_trim s = [])"

definition strings :: "json option \<Rightarrow> string \<Rightarrow> bool \<Rightarrow> (kernel_error, string list) result" where
  "strings v field nonempty =
     (case v of
        Some (JArr items) \<Rightarrow>
          if length items > 100 \<or> list_ex blank_text items
          then Inl (ValidationError (''Invalid delivery '' @ field @ ''.''))
          else let result = js_uniq (map (\<lambda>i. js_trim (the (text_of i))) items) in
            if nonempty \<and> result = [] then Inl (ValidationError (''Delivery '' @ field @ '' must not be empty.''))
            else Inr result
      | _ \<Rightarrow> Inl (ValidationError (''Invalid delivery '' @ field @ ''.'')))"

text \<open>\<^verbatim>\<open>value ?? []\<close>.\<close>

definition or_empty :: "json option \<Rightarrow> json option" where
  "or_empty v = (case v of None \<Rightarrow> Some (JArr []) | Some JNull \<Rightarrow> Some (JArr []) | Some j \<Rightarrow> Some j)"

text \<open>Lines end with a line feed, after an optional carriage return, which trimming removes.\<close>

definition deliveryCriteria :: "delivery_contract \<Rightarrow> string list" where
  "deliveryCriteria c =
     filter (\<lambda>l. l \<noteq> []) (map js_trim (js_split CHR 0x0A (case dcAcceptance c of Some s \<Rightarrow> s | None \<Rightarrow> [])))"

definition is_name_char :: "char \<Rightarrow> bool" where
  "is_name_char c \<longleftrightarrow> is_lower_letter c \<or> is_upper_letter c \<or> is_digit c"

definition environment_name :: "string \<Rightarrow> bool" where
  "environment_name s =
     (case s of [] \<Rightarrow> False
      | c # cs \<Rightarrow> is_name_char c \<and> length cs \<le> 63 \<and>
          list_all (\<lambda>d. is_name_char d \<or> d \<in> {CHR ''.'', CHR ''_'', CHR ''-''}) cs)"

definition unit_key_name :: "string \<Rightarrow> bool" where
  "unit_key_name s =
     (case s of [] \<Rightarrow> False
      | c # cs \<Rightarrow> is_lower_letter c \<and> length cs \<le> 63 \<and>
          list_all (\<lambda>d. is_lower_letter d \<or> is_digit d \<or> d \<in> {CHR ''_'', CHR ''-''}) cs)"

definition literal_path :: "string \<Rightarrow> bool" where
  "literal_path path \<longleftrightarrow>
     \<not> (js_starts_with path ''/'' \<or> list_ex (\<lambda>c. c \<in> {CHR 0x5C, CHR ''*'', CHR ''?'', CHR ''['', CHR '']'', CHR 0x00}) path
        \<or> list_ex (\<lambda>part. part = [] \<or> part = ''.'' \<or> part = ''..'')
            (js_split CHR ''/'' (if js_ends_with path ''/'' then butlast path else path)))"

section \<open>Units\<close>

definition criterion :: "nat \<Rightarrow> json \<Rightarrow> nat option" where
  "criterion n v =
     (case v of
        JNum q \<Rightarrow> if is_integer q \<and> 0 \<le> q \<and> q < of_nat n then Some (nat \<lfloor>q\<rfloor>) else None
      | _ \<Rightarrow> None)"

definition read_criteria :: "nat \<Rightarrow> json option \<Rightarrow> (kernel_error, nat list) result" where
  "read_criteria n v =
     (let e = ValidationError ''Unit criteria must reference existing acceptance lines.'' in
      case v of
        Some (JArr items) \<Rightarrow>
          if items = [] \<or> list_ex (\<lambda>i. criterion n i = None) items then Inl e
          else Inr (js_uniq (map (\<lambda>i. the (criterion n i)) items))
      | _ \<Rightarrow> Inl e)"

definition read_executor :: "json option \<Rightarrow> json option \<Rightarrow> (kernel_error, (string \<times> rat) option) result" where
  "read_executor agent attempts =
     bind_result (case agent of
         None \<Rightarrow> Inr None
       | Some (JStr s) \<Rightarrow> if is_uuid s then Inr (Some s) else Inl (ValidationError ''An executor must be an explicit agent ID.'')
       | Some v \<Rightarrow> Inl (ValidationError ''An executor must be an explicit agent ID.'')) (\<lambda>ex.
     bind_result (case attempts of
         None \<Rightarrow> Inr 1
       | Some (JNum n) \<Rightarrow>
           if is_safe_integer n \<and> 1 \<le> n \<and> n \<le> 10 \<and> ex \<noteq> None then Inr n
           else Inl (ValidationError ''Executor attempts must be between 1 and 10 with an explicit agent.'')
       | Some v \<Rightarrow> Inl (ValidationError ''Executor attempts must be between 1 and 10 with an explicit agent.'')) (\<lambda>n.
     Inr (map_option (\<lambda>s. (s, n)) ex)))"

definition read_check :: "json \<Rightarrow> (kernel_error, technical_check) result" where
  "read_check raw =
     bind_result (object raw [''workflowId'', ''job'']) (\<lambda>check.
     let e = ValidationError ''Technical checks need a workflow ID and exact job name.'' in
     case (obj_get ''workflowId'' check, obj_get ''job'' check) of
       (Some (JNum w), Some (JStr j)) \<Rightarrow>
         if \<not> is_safe_integer w \<or> w < 1 \<or> js_trim j = [] \<or> length j > 200 then Inl e
         else Inr \<lparr>workflowId = w, job = js_trim j\<rparr>
     | _ \<Rightarrow> Inl e)"

definition read_checks :: "json option \<Rightarrow> (kernel_error, technical_check list) result" where
  "read_checks v =
     (case or_empty v of
        Some (JArr raws) \<Rightarrow>
          if length raws > 100 then Inl (ValidationError ''Invalid technical checks.'') else map_result read_check raws
      | _ \<Rightarrow> Inl (ValidationError ''Invalid technical checks.''))"

definition UNIT_FIELDS :: "string list" where
  "UNIT_FIELDS = [''key'', ''title'', ''criteria'', ''paths'', ''actions'', ''dependsOn'', ''checks'',
     ''executorActorId'', ''maxAttempts'']"

definition read_unit :: "nat \<Rightarrow> string list \<Rightarrow> json \<Rightarrow> (kernel_error, delivery_unit) result" where
  "read_unit n environments rawUnit =
     bind_result (object rawUnit UNIT_FIELDS) (\<lambda>unit.
     let key = (case obj_get ''key'' unit of Some v \<Rightarrow> text_of v | None \<Rightarrow> None);
         title = (case obj_get ''title'' unit of Some v \<Rightarrow> text_of v | None \<Rightarrow> None) in
     bind_result (throw_if (case key of None \<Rightarrow> True | Some k \<Rightarrow> \<not> unit_key_name k)
       (ValidationError ''Invalid delivery unit key.'')) (\<lambda>_.
     bind_result (throw_if (case title of None \<Rightarrow> True | Some t \<Rightarrow> js_trim t = [] \<or> length t > 250)
       (ValidationError ''An implementation unit needs a title.'')) (\<lambda>_.
     bind_result (read_criteria n (obj_get ''criteria'' unit)) (\<lambda>criteria.
     bind_result (read_executor (obj_get ''executorActorId'' unit) (obj_get ''maxAttempts'' unit)) (\<lambda>ex.
     bind_result (strings (obj_get ''paths'' unit) ''paths'' True) (\<lambda>paths.
     bind_result (throw_if (\<not> list_all literal_path paths)
       (ValidationError ''A delivery path must be a literal repository-relative path or directory prefix.'')) (\<lambda>_.
     bind_result (strings (obj_get ''actions'' unit) ''actions'' True) (\<lambda>actions.
     bind_result (throw_if (\<not> set actions \<subseteq> set DELIVERY_ACTIONS) (ValidationError ''Unknown delivery action.'')) (\<lambda>_.
     bind_result (throw_if (''deploy'' \<in> set actions \<and> environments = [])
       (ValidationError ''Deployment requires explicit approved environments.'')) (\<lambda>_.
     bind_result (read_checks (obj_get ''checks'' unit)) (\<lambda>checks.
     bind_result (strings (or_empty (obj_get ''dependsOn'' unit)) ''predecessors'' False) (\<lambda>deps.
     Inr \<lparr>unitKey = the key, unitTitle = js_trim (the title), unitCriteria = criteria, unitPaths = paths,
          unitActions = actions, dependsOn = deps, executor = ex, unitChecks = checks\<rparr>))))))))))))"

section \<open>The dependency graph\<close>

definition find_unit :: "delivery_unit list \<Rightarrow> string \<Rightarrow> delivery_unit option" where
  "find_unit units k = find_row unitKey k units"

lemma open_keys_shrink:
  assumes "k \<notin> set visiting" and "find_unit units k = Some u"
  shows "card (unitKey ` set units - set (k # visiting)) < card (unitKey ` set units - set visiting)"
proof (rule psubset_card_mono)
  from assms(2) have "k \<in> unitKey ` set units" by (auto simp: find_unit_def dest: find_row_Some)
  with assms(1) show "unitKey ` set units - set (k # visiting) \<subset> unitKey ` set units - set visiting" by auto
qed simp

text \<open>
  \<^verbatim>\<open>visit\<close> threads the set of finished keys; the keys on the path to the current one are an
  argument, since each call removes the key it adds. It is finite because the path holds
  distinct keys of units.
\<close>

function (sequential) visit ::
  "delivery_unit list \<Rightarrow> string list \<Rightarrow> string list \<Rightarrow> string \<Rightarrow> (kernel_error, string list) result"
  and visit_all ::
  "delivery_unit list \<Rightarrow> string list \<Rightarrow> string list \<Rightarrow> string list \<Rightarrow> (kernel_error, string list) result" where
  "visit units visiting visited k =
     (if k \<in> set visiting then Inl (ValidationError ''Delivery dependency cycle.'')
      else if k \<in> set visited then Inr visited
      else case find_unit units k of
             None \<Rightarrow> Inl (ValidationError ''Unknown delivery predecessor.'')
           | Some u \<Rightarrow>
               (case visit_all units (k # visiting) visited (dependsOn u) of
                  Inl e \<Rightarrow> Inl e
                | Inr visited' \<Rightarrow> Inr (k # visited')))"
| "visit_all units visiting visited [] = Inr visited"
| "visit_all units visiting visited (k # ks) =
     (case visit units visiting visited k of
        Inl e \<Rightarrow> Inl e
      | Inr visited' \<Rightarrow> visit_all units visiting visited' ks)"
  by pat_completeness auto

termination
  by (relation "inv_image (less_than <*lex*> less_than)
      (\<lambda>x. case x of Inl (units, visiting, visited, k) \<Rightarrow> (card (unitKey ` set units - set visiting), 0)
        | Inr (units, visiting, visited, ks) \<Rightarrow> (card (unitKey ` set units - set visiting), Suc (length ks)))")
    (auto dest: open_keys_shrink)

definition read_units ::
  "nat \<Rightarrow> string list \<Rightarrow> json option \<Rightarrow> (kernel_error, delivery_unit list) result" where
  "read_units n environments v =
     (let e = ValidationError ''A delivery policy needs 1-100 implementation units.'' in
      case v of
        Some (JArr raws) \<Rightarrow>
          if raws = [] \<or> length raws > 100 then Inl e else map_result (read_unit n environments) raws
      | _ \<Rightarrow> Inl e)"

definition parseDeliveryPolicy ::
  "json \<Rightarrow> delivery_contract \<Rightarrow> (kernel_error, delivery_policy) result" where
  "parseDeliveryPolicy raw contract =
     (let present = (\<lambda>v. case v of None \<Rightarrow> False | Some s \<Rightarrow> js_trim s \<noteq> []) in
      bind_result (throw_if (\<not> present (dcRepository contract) \<or> \<not> present (dcScope contract) \<or> \<not> present (dcAcceptance contract))
        (ValidationError ''A delivery package needs repository, scope and acceptance.'')) (\<lambda>_.
      bind_result (object raw [''units'', ''environments'']) (\<lambda>v.
      bind_result (strings (or_empty (obj_get ''environments'' v)) ''environments'' False) (\<lambda>environments.
      bind_result (throw_if (\<not> list_all environment_name environments) (ValidationError ''Use explicit environment names.'')) (\<lambda>_.
      bind_result (read_units (length (deliveryCriteria contract)) environments (obj_get ''units'' v)) (\<lambda>units.
      bind_result (throw_if (\<not> distinct (map unitKey units)) (ValidationError ''Delivery unit keys must be unique.'')) (\<lambda>_.
      bind_result (visit_all units [] [] (map unitKey units)) (\<lambda>_.
      bind_result (throw_if (\<exists>u \<in> set units. \<exists>k \<in> set (dependsOn u).
          case find_unit units k of None \<Rightarrow> False | Some p \<Rightarrow> unitChecks p = [])
        (ValidationError ''A technical predecessor needs approved CI checks.'')) (\<lambda>_.
      Inr \<lparr>dpUnits = units, dpEnvironments = environments\<rparr>)))))))))"

definition executionContract ::
  "delivery_policy \<Rightarrow> string \<Rightarrow> delivery_contract \<Rightarrow> (kernel_error, string \<times> delivery_contract) result" where
  "executionContract policy k contract =
     (case find (\<lambda>u. unitKey u = k) (dpUnits policy) of
        None \<Rightarrow> Inl (ValidationError ''This implementation unit was not approved.'')
      | Some u \<Rightarrow>
          Inr (unitTitle u,
               contract\<lparr>dcAcceptance := Some (js_join [CHR 0x0A] (map (\<lambda>i. deliveryCriteria contract ! i) (unitCriteria u)))\<rparr>))"

section \<open>The search accepts exactly the acyclic plans\<close>

definition dependency :: "delivery_unit list \<Rightarrow> (string \<times> string) set" where
  "dependency units = {(k, d). \<exists>u. find_unit units k = Some u \<and> d \<in> set (dependsOn u)}"

text \<open>The finished keys, latest first: what a key depends on was finished before it.\<close>

fun finished_order :: "delivery_unit list \<Rightarrow> string list \<Rightarrow> bool" where
  "finished_order units [] = True"
| "finished_order units (k # ks) \<longleftrightarrow>
     (\<exists>u. find_unit units k = Some u \<and> set (dependsOn u) \<subseteq> set ks) \<and> finished_order units ks"

lemma finished_order_closed:
  assumes "finished_order units ks" and "k \<in> set ks" and "(k, d) \<in> (dependency units)\<^sup>+"
  shows "d \<in> set ks"
proof -
  have step: "b \<in> set ks" if "a \<in> set ks" and "(a, b) \<in> dependency units" for a b
    using assms(1) that by (induction ks) (auto simp: dependency_def)
  show ?thesis using assms(3,2) by (induction rule: trancl_induct) (auto dest: step)
qed

lemma finished_order_acyclic:
  "finished_order units ks \<Longrightarrow> k \<in> set ks \<Longrightarrow> (k, k) \<notin> (dependency units)\<^sup>+"
proof (induction ks)
  case (Cons h ks)
  show ?case
  proof (cases "k \<in> set ks")
    case False
    with Cons.prems have "h = k" by simp
    with Cons.prems have deps: "\<And>d. (k, d) \<in> dependency units \<Longrightarrow> d \<in> set ks"
      by (auto simp: dependency_def)
    show ?thesis
    proof
      assume "(k, k) \<in> (dependency units)\<^sup>+"
      then obtain d where "(k, d) \<in> dependency units" and "d = k \<or> (d, k) \<in> (dependency units)\<^sup>+"
        by (meson tranclD rtranclD)
      with deps finished_order_closed[of units ks d k] Cons.prems False show False by auto
    qed
  qed (use Cons in auto)
qed simp

lemma visit_finishes:
  "visit units visiting visited k = Inr r \<Longrightarrow> finished_order units visited \<Longrightarrow>
     finished_order units r \<and> insert k (set visited) \<subseteq> set r"
  "visit_all units visiting visited ks = Inr r \<Longrightarrow> finished_order units visited \<Longrightarrow>
     finished_order units r \<and> set ks \<union> set visited \<subseteq> set r"
proof (induction units visiting visited k and units visiting visited ks arbitrary: r and r
    rule: visit_visit_all.induct)
  case (1 units visiting visited k)
  show ?case
  proof (cases "k \<in> set visited")
    case False
    with "1.prems" obtain u v where u: "k \<notin> set visiting" "find_unit units k = Some u"
      and v: "visit_all units (k # visiting) visited (dependsOn u) = Inr v" "r = k # v"
      by (auto split: if_splits option.splits sum.splits)
    with "1.IH"[OF u(1) False u(2) v(1) "1.prems"(2)] show ?thesis by auto
  qed (use "1.prems" in \<open>auto split: if_splits\<close>)
next
  case (3 units visiting visited k ks)
  from "3.prems" obtain v where v: "visit units visiting visited k = Inr v"
      "visit_all units visiting v ks = Inr r"
    by (auto split: sum.splits)
  from "3.IH"(1)[OF v(1) "3.prems"(2)] have "finished_order units v" by simp
  with "3.IH"(1)[OF v(1) "3.prems"(2)] "3.IH"(2)[OF v(1) v(2)] show ?case by auto
qed simp

text \<open>A failed search has met a key nobody declared or walked back to a key on its own path.\<close>

definition broken_plan :: "delivery_unit list \<Rightarrow> string set \<Rightarrow> bool" where
  "broken_plan units start \<longleftrightarrow>
     (\<exists>k \<in> (dependency units)\<^sup>* `` start. find_unit units k = None \<or> (k, k) \<in> (dependency units)\<^sup>+)"

lemma broken_plan_step:
  "broken_plan units {d} \<Longrightarrow> (k, d) \<in> dependency units \<Longrightarrow> broken_plan units {k}"
  unfolding broken_plan_def by (blast intro: converse_rtrancl_into_rtrancl)

lemma visit_fails:
  "visit units visiting visited k = Inl e \<Longrightarrow> \<forall>v \<in> set visiting. (v, k) \<in> (dependency units)\<^sup>+ \<Longrightarrow>
     broken_plan units {k}"
  "visit_all units visiting visited ks = Inl e \<Longrightarrow>
     \<forall>v \<in> set visiting. \<forall>k \<in> set ks. (v, k) \<in> (dependency units)\<^sup>+ \<Longrightarrow> \<exists>k \<in> set ks. broken_plan units {k}"
proof (induction units visiting visited k and units visiting visited ks rule: visit_visit_all.induct)
  case (1 units visiting visited k)
  show ?case
  proof (cases "k \<in> set visiting \<or> find_unit units k = None")
    case True
    with "1.prems"(2) show ?thesis unfolding broken_plan_def by blast
  next
    case False
    with "1.prems"(1) obtain u where u: "k \<notin> set visiting" "k \<notin> set visited" "find_unit units k = Some u"
      and v: "visit_all units (k # visiting) visited (dependsOn u) = Inl e"
      by (auto split: if_splits option.splits sum.splits)
    have dep: "(k, d) \<in> dependency units" if "d \<in> set (dependsOn u)" for d
      using that u(3) by (auto simp: dependency_def)
    have "\<forall>w \<in> set (k # visiting). \<forall>d \<in> set (dependsOn u). (w, d) \<in> (dependency units)\<^sup>+"
      using "1.prems"(2) dep by (auto intro: trancl_into_trancl)
    from "1.IH"[OF u v this] dep show ?thesis by (blast intro: broken_plan_step)
  qed
next
  case (3 units visiting visited k ks)
  then show ?case by (auto split: sum.splits)
qed simp


lemma find_unit_key: "find_unit units k = None \<longleftrightarrow> k \<notin> unitKey ` set units"
  by (auto simp: find_unit_def find_row_None)

lemma find_unit_distinct:
  "distinct (map unitKey units) \<Longrightarrow> u \<in> set units \<Longrightarrow> find_unit units (unitKey u) = Some u"
  by (simp add: find_unit_def find_row_unique unique_key_def)

lemma reachable_declared:
  assumes "Range (dependency units) \<subseteq> K" and "a \<in> K" and "(a, b) \<in> (dependency units)\<^sup>*"
  shows "b \<in> K"
  using assms(3,2,1) by (induction rule: rtrancl_induct) auto

lemma search_sound:
  assumes "visit_all units [] [] (map unitKey units) = Inr r"
  shows "Range (dependency units) \<subseteq> unitKey ` set units" and "acyclic (dependency units)"
proof -
  from visit_finishes(2)[OF assms] have r: "finished_order units r" "unitKey ` set units \<subseteq> set r" by auto
  have declared: "find_unit units k \<noteq> None" if "k \<in> set r" for k
    using r(1) that by (induction r) auto
  have known: "k \<in> unitKey ` set units" if "(k, d) \<in> dependency units" for k d
    using that find_unit_key[of units k] by (auto simp: dependency_def)
  show "Range (dependency units) \<subseteq> unitKey ` set units"
  proof
    fix d assume "d \<in> Range (dependency units)"
    then obtain k where k: "(k, d) \<in> dependency units" by auto
    with known r(2) have "k \<in> set r" by auto
    with k finished_order_closed[OF r(1)] have "d \<in> set r" by blast
    with declared show "d \<in> unitKey ` set units" by (auto simp: find_unit_key)
  qed
  show "acyclic (dependency units)"
    unfolding acyclic_def using finished_order_acyclic[OF r(1)] known r(2) by (meson subsetD tranclD)
qed

text \<open>
  C19: The dependency search of a delivery plan accepts a list of units exactly when every
  predecessor a unit names is declared and no unit depends on itself, directly or through others; the
  search always ends.
\<close>

theorem plan_search_exact:
  "is_ok (visit_all units [] [] (map unitKey units)) \<longleftrightarrow>
     Range (dependency units) \<subseteq> unitKey ` set units \<and> acyclic (dependency units)"
proof (cases "visit_all units [] [] (map unitKey units)")
  case (Inl e)
  from visit_fails(2)[OF Inl] obtain k where "k \<in> unitKey ` set units" and "broken_plan units {k}" by auto
  then obtain b where b: "(k, b) \<in> (dependency units)\<^sup>*"
      "find_unit units b = None \<or> (b, b) \<in> (dependency units)\<^sup>+"
    unfolding broken_plan_def by auto
  have "\<not> (Range (dependency units) \<subseteq> unitKey ` set units \<and> acyclic (dependency units))"
    using reachable_declared[OF _ \<open>k \<in> unitKey ` set units\<close> b(1)] b(2)
    by (auto simp: find_unit_key acyclic_def)
  then show ?thesis using Inl by simp
next
  case (Inr r)
  then show ?thesis using search_sound[OF Inr] by simp
qed

section \<open>What an approved policy guarantees\<close>

definition unit_ok :: "delivery_contract \<Rightarrow> string list \<Rightarrow> delivery_unit \<Rightarrow> bool" where
  "unit_ok contract environments u \<longleftrightarrow>
     unit_key_name (unitKey u) \<and> unitTitle u \<noteq> [] \<and>
     unitCriteria u \<noteq> [] \<and> distinct (unitCriteria u) \<and>
     (\<forall>i \<in> set (unitCriteria u). i < length (deliveryCriteria contract)) \<and>
     unitPaths u \<noteq> [] \<and> list_all literal_path (unitPaths u) \<and>
     unitActions u \<noteq> [] \<and> set (unitActions u) \<subseteq> set DELIVERY_ACTIONS \<and>
     (''deploy'' \<in> set (unitActions u) \<longrightarrow> environments \<noteq> []) \<and>
     (\<forall>a n. executor u = Some (a, n) \<longrightarrow> is_uuid a \<and> 1 \<le> n \<and> n \<le> 10) \<and>
     (\<forall>c \<in> set (unitChecks u). 1 \<le> workflowId c \<and> job c \<noteq> [])"

lemma read_criteria_ok:
  "read_criteria n v = Inr is \<Longrightarrow> is \<noteq> [] \<and> distinct is \<and> (\<forall>i \<in> set is. i < n)"
  by (fastforce simp: read_criteria_def criterion_def list_ex_iff Let_def nat_less_iff floor_less_iff
      split: option.splits json.splits if_splits)

lemma read_executor_ok:
  "read_executor a m = Inr (Some (x, n)) \<Longrightarrow> is_uuid x \<and> 1 \<le> n \<and> n \<le> 10"
  by (auto simp: read_executor_def split: option.splits json.splits if_splits)

lemma strings_ok: "strings v f True = Inr ss \<Longrightarrow> ss \<noteq> []"
  by (auto simp: strings_def Let_def split: option.splits json.splits if_splits)

lemma read_check_ok:
  assumes "read_check raw = Inr c"
  shows "1 \<le> workflowId c \<and> job c \<noteq> []"
proof -
  from assms obtain kvs where k: "object raw [''workflowId'', ''job''] = Inr kvs"
    by (auto simp: read_check_def)
  show ?thesis
  proof (cases "\<exists>w j. obj_get ''workflowId'' kvs = Some (JNum w) \<and> obj_get ''job'' kvs = Some (JStr j)")
    case True
    with assms k show ?thesis by (auto simp: read_check_def Let_def split: if_splits)
  next
    case False
    with assms k show ?thesis
      by (cases "obj_get ''workflowId'' kvs"; cases "the (obj_get ''workflowId'' kvs)";
          cases "obj_get ''job'' kvs"; cases "the (obj_get ''job'' kvs)")
         (simp_all add: read_check_def)
  qed
qed

lemma read_checks_ok: "read_checks v = Inr cs \<Longrightarrow> c \<in> set cs \<Longrightarrow> 1 \<le> workflowId c \<and> job c \<noteq> []"
  by (auto simp: read_checks_def split: option.splits json.splits if_splits
      dest!: map_result_Inr_set read_check_ok)

lemma read_unit_ok:
  assumes "read_unit (length (deliveryCriteria contract)) environments raw = Inr u"
  shows "unit_ok contract environments u"
  using assms unfolding read_unit_def unit_ok_def Let_def
  by (auto dest: read_criteria_ok read_executor_ok strings_ok read_checks_ok split: option.splits)


lemma read_units_ok:
  assumes "read_units (length (deliveryCriteria contract)) environments v = Inr units"
  shows "1 \<le> length units" and "length units \<le> 100"
    and "\<And>u. u \<in> set units \<Longrightarrow> unit_ok contract environments u"
proof -
  from assms obtain raws where raws: "raws \<noteq> []" "length raws \<le> 100"
      "map_result (read_unit (length (deliveryCriteria contract)) environments) raws = Inr units"
    by (auto simp: read_units_def Let_def split: option.splits json.splits if_splits)
  then show "1 \<le> length units" "length units \<le> 100"
    using map_result_Inr_length[OF raws(3)] by (auto simp: Suc_le_eq)
  show "unit_ok contract environments u" if "u \<in> set units" for u
    using that raws(3) by (auto dest!: map_result_Inr_set intro: read_unit_ok)
qed

text \<open>The contract of a unit names exactly the acceptance lines the unit was given.\<close>

lemma js_split_append: "d \<notin> set p \<Longrightarrow> js_split d (p @ d # s) = p # js_split d s"
  by (induction p) auto

lemma js_split_join:
  "ps \<noteq> [] \<Longrightarrow> (\<And>p. p \<in> set ps \<Longrightarrow> d \<notin> set p) \<Longrightarrow> js_split d (js_join [d] ps) = ps"
proof (induction "[d]" ps rule: js_join.induct)
  case (2 s)
  then have "d \<notin> set s" by simp
  then show ?case by (induction s) auto
qed (simp_all add: js_split_append)

lemma trim_subset: "set (js_trim s) \<subseteq> set s"
  by (auto simp: js_trim_def dest!: set_dropWhileD)

lemma criteria_line:
  "l \<in> set (deliveryCriteria c) \<Longrightarrow> l \<noteq> [] \<and> CHR 0x0A \<notin> set l \<and> js_trim l = l"
  using trim_subset by (fastforce simp: deliveryCriteria_def dest: js_split_no_sep)

lemma deliveryCriteria_of_text:
  "deliveryCriteria (c\<lparr>dcAcceptance := Some s\<rparr>) = filter (\<lambda>l. l \<noteq> []) (map js_trim (js_split CHR 0x0A s))"
  by (simp add: deliveryCriteria_def)

lemma sliced_criteria:
  assumes "unitCriteria u \<noteq> []" and "\<forall>i \<in> set (unitCriteria u). i < length (deliveryCriteria c)"
  shows "deliveryCriteria (c\<lparr>dcAcceptance := Some (js_join [CHR 0x0A] (map (\<lambda>i. deliveryCriteria c ! i) (unitCriteria u)))\<rparr>)
    = map (\<lambda>i. deliveryCriteria c ! i) (unitCriteria u)"
proof -
  let ?ls = "map (\<lambda>i. deliveryCriteria c ! i) (unitCriteria u)"
  have ls: "l \<noteq> [] \<and> CHR 0x0A \<notin> set l \<and> js_trim l = l" if "l \<in> set ?ls" for l
    using that assms(2) by (intro criteria_line[where c = c]) auto
  have "js_split CHR 0x0A (js_join [CHR 0x0A] ?ls) = ?ls"
    using assms(1) ls by (intro js_split_join) auto
  moreover have "map js_trim ?ls = ?ls" using ls by (intro map_idI) auto
  moreover have "filter (\<lambda>l. l \<noteq> []) ?ls = ?ls" using ls by (intro filter_True) auto
  ultimately show ?thesis by (simp only: deliveryCriteria_of_text)
qed


text \<open>
  C18: An approved delivery policy has between one and a hundred units with distinct keys; each
  unit is well formed (its criteria name existing acceptance lines, its paths are literal and
  relative, a deployment has an approved environment, an executor's attempts are bounded), depends only
  on declared units that have technical checks, and no unit depends on itself through others. The
  execution contract of a unit exists, differs from the approved one in its acceptance alone, and
  its criteria are exactly the approved lines the unit was given.
\<close>

theorem parseDeliveryPolicy_ok:
  assumes "parseDeliveryPolicy raw contract = Inr policy"
  shows "1 \<le> length (dpUnits policy) \<and> length (dpUnits policy) \<le> 100 \<and>
    distinct (map unitKey (dpUnits policy)) \<and> acyclic (dependency (dpUnits policy)) \<and>
    (\<forall>u \<in> set (dpUnits policy).
       unit_ok contract (dpEnvironments policy) u \<and>
       (\<forall>d \<in> set (dependsOn u). \<exists>p \<in> set (dpUnits policy). unitKey p = d \<and> unitChecks p \<noteq> []) \<and>
       (\<exists>c. executionContract policy (unitKey u) contract = Inr (unitTitle u, c) \<and>
          c\<lparr>dcAcceptance := dcAcceptance contract\<rparr> = contract \<and>
          deliveryCriteria c = map (\<lambda>i. deliveryCriteria contract ! i) (unitCriteria u)))"
proof -
  let ?us = "dpUnits policy" and ?es = "dpEnvironments policy"
  from assms obtain v r where u: "read_units (length (deliveryCriteria contract)) ?es v = Inr ?us"
    and d: "distinct (map unitKey ?us)" and r: "visit_all ?us [] [] (map unitKey ?us) = Inr r"
    and ci: "\<forall>u \<in> set ?us. \<forall>k \<in> set (dependsOn u).
        \<not> (case find_unit ?us k of None \<Rightarrow> False | Some p \<Rightarrow> unitChecks p = [])"
    unfolding parseDeliveryPolicy_def Let_def
    by clarsimp
  note units = read_units_ok[OF u]
  have dep: "\<exists>p \<in> set ?us. unitKey p = k \<and> unitChecks p \<noteq> []" if "u \<in> set ?us" "k \<in> set (dependsOn u)" for u k
  proof -
    from that d have "(unitKey u, k) \<in> dependency ?us" by (auto simp: dependency_def find_unit_distinct)
    with search_sound(1)[OF r] obtain p where p: "p \<in> set ?us" "unitKey p = k" by auto
    then have "find_unit ?us k = Some p" using find_unit_distinct[OF d] by blast
    moreover have "\<not> (case find_unit ?us k of None \<Rightarrow> False | Some p \<Rightarrow> unitChecks p = [])"
      using ci that by blast
    ultimately show ?thesis using p by auto
  qed
  have ex: "\<exists>c. executionContract policy (unitKey u) contract = Inr (unitTitle u, c) \<and>
      c\<lparr>dcAcceptance := dcAcceptance contract\<rparr> = contract \<and>
      deliveryCriteria c = map (\<lambda>i. deliveryCriteria contract ! i) (unitCriteria u)" if "u \<in> set ?us" for u
    using find_unit_distinct[OF d that] sliced_criteria[of u contract] units(3)[OF that]
    by (simp add: executionContract_def find_unit_def find_row_def unit_ok_def)
  show ?thesis using units dep ex d search_sound(2)[OF r] by simp
qed

definition sample_contract :: delivery_contract where
  "sample_contract = \<lparr>dcAcceptance = Some (''Builds'' @ [CHR 0x0D, CHR 0x0A] @ '' Ships ''), dcScope = Some ''api'',
     dcConstraints = None, dcRepository = Some ''acme/app'', dcVerification = None\<rparr>"

definition sample_plan :: json where
  "sample_plan = JObj [(''units'', JArr [
     JObj [(''key'', JStr ''core''), (''title'', JStr ''Core''), (''criteria'', JArr [JNum 0]),
       (''paths'', JArr [JStr ''src/core/'']), (''actions'', JArr [JStr ''edit'']),
       (''checks'', JArr [JObj [(''workflowId'', JNum 7), (''job'', JStr ''build'')]])],
     JObj [(''key'', JStr ''ship''), (''title'', JStr ''Ship it''), (''criteria'', JArr [JNum 1, JNum 0]),
       (''paths'', JArr [JStr ''deploy'']), (''actions'', JArr [JStr ''deploy'']),
       (''dependsOn'', JArr [JStr ''core''])]]),
     (''environments'', JArr [JStr ''staging''])]"

lemma sample_plan_parses: "is_ok (parseDeliveryPolicy sample_plan sample_contract)"
  by code_simp

theorem parseDeliveryPolicy_ok_witness:
  "\<exists>policy. parseDeliveryPolicy sample_plan sample_contract = Inr policy \<and>
     distinct (map unitKey (dpUnits policy)) \<and> acyclic (dependency (dpUnits policy))"
proof -
  obtain policy where "parseDeliveryPolicy sample_plan sample_contract = Inr policy"
    using sample_plan_parses by (cases "parseDeliveryPolicy sample_plan sample_contract") auto
  with parseDeliveryPolicy_ok[OF this] show ?thesis by blast
qed

end
