(* ===== verification/Work_Data.thy ===== *)
theory Work_Data
  imports Agent_Requests Delivery_Policy
begin

text \<open>
  The rows of executions: leases on work, their runs, evidence and its server-side verifications,
  idempotency records, delivery packages, project shares, and the columns of a work item the graph
  operations do not read. The database extends the one of agent requests by these tables, in the
  order the rows were created. Outbox events and notifications about executions are kept apart from
  those of requests; the time inside an event's data is a number. A row the database would name
  gets its identifier as an argument.
\<close>

record work_columns =
  wcWorkId :: ident
  labelNames :: "string list"
  outcome :: "string option"
  scope :: "string option"
  constraints :: "string option"
  verification :: "string option"
  deliveryRootId :: "ident option"
  deliveryGrantRevision :: "int option"
  deliveryUnitKey :: "string option"
  resolvedAt :: "instant option"

record delivery_package =
  dkWorkId :: ident
  dkRevision :: int
  dkPolicy :: json
  dkContractDigest :: string
  dkRevokedAt :: "instant option"

record work_claim =
  clId :: ident
  clWorkId :: ident
  clActorId :: ident
  clTokenHash :: "string option"
  clExecutionId :: "string option"
  leaseUntil :: instant

datatype run_status = QUEUED | RUNNING | BLOCKED | RUN_COMPLETED | RUN_FAILED

text \<open>What a completed run leaves behind: the work it led to, by id and identifier, or why there is none.\<close>

datatype run_followups = FollowupWork "ident list" "string list" | NoFollowups string

record work_run =
  runId :: ident
  publicId :: string
  runWorkId :: ident
  runActorId :: "ident option"
  runClaimId :: "ident option"
  claimSnapshotId :: "ident option"
  runStatus :: run_status
  runTokenHash :: "string option"
  executionRevokedAt :: "instant option"
  contractRevision :: "string option"
  acceptanceDigest :: "string option"
  runRepository :: "string option"
  commitSha :: "string option"
  pullRequestNumber :: "int option"
  startedAt :: instant
  endedAt :: "instant option"
  runSummary :: "string option"
  runPhase :: "string option"
  runExternalUrl :: "string option"
  runExecutionId :: "string option"
  baseRevision :: "int option"
  runFollowups :: "run_followups option"
  scheduleRound :: "int option"
  lastActivityAt :: instant
  staleNotifiedAt :: "instant option"

record evidence_verification =
  vfStatus :: string
  vfVerifierId :: string
  vfVerifierVersion :: string
  vfRunId :: "ident option"
  vfRepository :: "string option"
  vfCommitSha :: "string option"
  vfContractRevision :: "string option"
  vfAcceptanceDigest :: "string option"
  vfObservedAt :: instant
  vfResult :: json

record run_evidence =
  reId :: ident
  reWorkId :: ident
  reRunId :: "ident option"
  reKind :: string
  reSummary :: "string option"
  reUrl :: string
  reActorId :: "ident option"
  verificationNextAt :: "instant option"
  reRetractedAt :: "instant option"
  reVerifications :: "evidence_verification list" \<comment> \<open>oldest first\<close>

datatype review_decision_kind = ACCEPTED | DECISION_REJECTED

record review_decision =
  rdWorkId :: ident
  rdDecision :: review_decision_kind
  rdReviewerId :: ident
  rdCreatedAt :: instant

datatype auto_accept_tier = CLEAR | LIKELY | AMBIGUOUS | INSUFFICIENT

datatype auto_accept_outcome = EVALUATION_ACCEPTED | SKIPPED

record auto_accept_evaluation =
  aeActorId :: "ident option"
  aeWorkId :: ident
  aeRunId :: "ident option"
  aeOutcome :: auto_accept_outcome
  aeTier :: auto_accept_tier
  aeReasons :: "string list"

record work_idempotency =
  wiId :: ident
  wiKey :: string
  wiOperation :: string
  wiTeamId :: ident
  wiActorKey :: string
  wiRequestHash :: string
  wiWorkId :: "ident option"
  wiResultId :: "ident option"

datatype share_role = SHARE_VIEWER | SHARE_EDITOR

record work_share =
  wsUserId :: ident
  wsWorkId :: ident
  wsRole :: share_role

record work_event =
  weType :: string
  weWorkId :: ident
  weData :: "(string \<times> json) list"
  weCreatedAt :: instant

record work_notice =
  wnType :: string
  wnUserId :: ident
  wnWorkId :: ident

record work_schedule =
  scId :: ident
  scWorkId :: ident
  scCron :: string
  scTimezone :: string
  scAgentId :: ident
  scActive :: bool
  scRound :: int
  scMissedRounds :: int
  scNextRunAt :: "instant option"
  scLastFiredAt :: "instant option"
  scCreatedById :: "ident option"

text \<open>A receipt names the audit row it explains by its position in the audit table.\<close>

record receipt_reference =
  rrKind :: string
  rrRef :: string
  rrVersion :: "string option"
  rrDigest :: "string option"
  rrExcerpt :: "string option"
  rrPreserved :: bool

record decision_receipt =
  drAudit :: nat
  drActorId :: ident
  drContractRevision :: int
  drReasoning :: string
  drEvidence :: "receipt_reference list"
  drInputs :: "receipt_reference list"
  drRuntime :: "string option"

record claim_db = request_db +
  archivedTeams :: "ident list"
  shares :: "work_share list"
  columnRows :: "work_columns list"
  packages :: "delivery_package list"
  claims :: "work_claim list"
  runs :: "work_run list"
  runEvidences :: "run_evidence list"
  reviewDecisions :: "review_decision list"
  evaluations :: "auto_accept_evaluation list"
  idempotencies :: "work_idempotency list"
  workEvents :: "work_event list"
  workNotices :: "work_notice list"
  schedules :: "work_schedule list"
  receipts :: "decision_receipt list"
  runSequence :: nat

text \<open>The identity behind a tool call also names the credential it presented.\<close>

record claim_actor = write_actor +
  agentCredentialId :: "ident option"

definition no_columns :: "ident \<Rightarrow> work_columns" where
  "no_columns i = \<lparr>wcWorkId = i, labelNames = [], outcome = None, scope = None, constraints = None,
     verification = None, deliveryRootId = None, deliveryGrantRevision = None, deliveryUnitKey = None,
     resolvedAt = None\<rparr>"

definition columns_of :: "claim_db \<Rightarrow> issue \<Rightarrow> work_columns" where
  "columns_of db w =
     (case find_row wcWorkId (issueId w) (columnRows db) of Some c \<Rightarrow> c | None \<Rightarrow> no_columns (issueId w))"

definition state_type_of :: "claim_db \<Rightarrow> issue \<Rightarrow> state_type option" where
  "state_type_of db w = map_option wsType (find_state db (stateId w))"

text \<open>The first state of a type on a team, by position.\<close>

definition first_state :: "claim_db \<Rightarrow> ident \<Rightarrow> state_type \<Rightarrow> workflow_state option" where
  "first_state db team t =
     (case sort_key position (filter (\<lambda>s. wsTeamId s = team \<and> wsType s = t) (states db)) of
        [] \<Rightarrow> None | s # _ \<Rightarrow> Some s)"

definition findWorkByIdOrIdentifier :: "claim_db \<Rightarrow> string \<Rightarrow> issue option" where
  "findWorkByIdOrIdentifier db i =
     (case find_issue db i of Some w \<Rightarrow> Some w | None \<Rightarrow> find_row issueIdentifier i (issues db))"

definition requireWork :: "claim_db \<Rightarrow> string \<Rightarrow> (kernel_error, issue) result" where
  "requireWork db i =
     (case findWorkByIdOrIdentifier db i of
        Some w \<Rightarrow> Inr w | None \<Rightarrow> Inl (NotFoundError ''ISSUE_NOT_FOUND_MESSAGE''))"

definition find_claim :: "claim_db \<Rightarrow> ident \<Rightarrow> work_claim option" where
  "find_claim db workId = find_row clWorkId workId (claims db)"

definition is_open_run :: "work_run \<Rightarrow> bool" where
  "is_open_run r \<longleftrightarrow> runStatus r \<in> {QUEUED, RUNNING, BLOCKED}"

definition update_runs :: "(work_run \<Rightarrow> bool) \<Rightarrow> (work_run \<Rightarrow> work_run) \<Rightarrow> claim_db \<Rightarrow> claim_db" where
  "update_runs P f db = db\<lparr>runs := update_rows P f (runs db)\<rparr>"

text \<open>Deleting a claim empties the reference its runs hold to it.\<close>

definition delete_claims :: "(work_claim \<Rightarrow> bool) \<Rightarrow> claim_db \<Rightarrow> claim_db" where
  "delete_claims P db =
     (let gone = map clId (filter P (claims db)) in
      db\<lparr>claims := filter (\<lambda>c. \<not> P c) (claims db),
         runs := update_rows (\<lambda>r. \<exists>c \<in> set gone. runClaimId r = Some c) (\<lambda>r. r\<lparr>runClaimId := None\<rparr>) (runs db)\<rparr>)"

definition enqueue_event :: "instant \<Rightarrow> string \<Rightarrow> ident \<Rightarrow> (string \<times> json) list \<Rightarrow> claim_db \<Rightarrow> claim_db" where
  "enqueue_event now t w d db =
     db\<lparr>workEvents := workEvents db @ [\<lparr>weType = t, weWorkId = w, weData = d, weCreatedAt = now\<rparr>]\<rparr>"

definition notify_all :: "string \<Rightarrow> ident \<Rightarrow> ident list \<Rightarrow> claim_db \<Rightarrow> claim_db" where
  "notify_all t w us db =
     db\<lparr>workNotices := workNotices db @ map (\<lambda>u. \<lparr>wnType = t, wnUserId = u, wnWorkId = w\<rparr>) us\<rparr>"

lemma claim_db_frame [simp]:
  "claims (update_runs P f db) = claims db"
  "claims (enqueue_event now t w d db) = claims db"
  "claims (notify_all t w us db) = claims db"
  "runs (enqueue_event now t w d db) = runs db"
  "runs (notify_all t w us db) = runs db"
  "issues (update_runs P f db) = issues db"
  "issues (delete_claims Q db) = issues db"
  "issues (enqueue_event now t w d db) = issues db"
  "issues (notify_all t w us db) = issues db"
  "audits (update_runs P f db) = audits db"
  "audits (delete_claims Q db) = audits db"
  "audits (enqueue_event now t w d db) = audits db"
  "audits (notify_all t w us db) = audits db"
  by (simp_all add: update_runs_def enqueue_event_def notify_all_def update_issue_def delete_claims_def Let_def)

lemma update_issue_frame [simp]:
  "claims (update_issue i g db) = claims db"
  "runs (update_issue i g db) = runs db"
  by (simp_all add: update_issue_def)

lemma recordReopen_frame [simp]:
  "claims (recordReopenIfAny w f t db) = claims db"
  "runs (recordReopenIfAny w f t db) = runs db"
  by (simp_all add: recordReopenIfAny_def split: option.splits)

lemma recordWorkAudit_frame [simp]:
  "claims (recordWorkAudit a b c w db) = claims db"
  "runs (recordWorkAudit a b c w db) = runs db"
  by (simp_all add: recordWorkAudit_def Let_def split: option.splits)

end
