(* ===== verification/Json_Parse.thy ===== *)
theory Json_Parse
  imports Json
begin

text \<open>
  \<^verbatim>\<open>JSON.parse\<close>, which an acceptance contract stored as text is read with. The grammar is the one
  of the language standard; \<open>None\<close> is a thrown \<^verbatim>\<open>SyntaxError\<close>. Of two entries with the
  same key the later value stands in the place of the first. The recursion runs on fuel: a call
  consumes a character or hands its input to one that does, so twice the length of the text is enough.
  An escape outside the characters of the model reads as a question mark.
\<close>

definition skip_space :: "string \<Rightarrow> string" where
  "skip_space = dropWhile (\<lambda>c. c \<in> {CHR 0x20, CHR 0x09, CHR 0x0A, CHR 0x0D})"

definition hex_char :: "char \<Rightarrow> char \<Rightarrow> char \<Rightarrow> char \<Rightarrow> char option" where
  "hex_char a b c d =
     map_option (\<lambda>n. if n < 256 then char_of n else CHR ''?'') (base_value 16 0 [a, b, c, d])"

definition plain_escape :: "char \<Rightarrow> char option" where
  "plain_escape c =
     (if c \<in> {CHR 0x22, CHR 0x5C, CHR ''/''} then Some c
      else if c = CHR ''b'' then Some CHR 0x08 else if c = CHR ''f'' then Some CHR 0x0C
      else if c = CHR ''n'' then Some CHR 0x0A else if c = CHR ''r'' then Some CHR 0x0D
      else if c = CHR ''t'' then Some CHR 0x09 else None)"

definition push_char :: "char option \<Rightarrow> (string \<times> string) option \<Rightarrow> (string \<times> string) option" where
  "push_char c r = (case (c, r) of (Some c, Some (s, rest)) \<Rightarrow> Some (c # s, rest) | _ \<Rightarrow> None)"

text \<open>The characters of a string literal after its opening quote, and what follows the closing one.\<close>

fun string_rest :: "string \<Rightarrow> (string \<times> string) option" where
  "string_rest [] = None"
| "string_rest [c] = (if c = CHR 0x22 then Some ([], []) else None)"
| "string_rest (c # e # s) =
     (if c = CHR 0x22 then Some ([], e # s)
      else if c = CHR 0x5C then
        (if e = CHR ''u'' then
           (case s of w # x # y # z # s' \<Rightarrow> push_char (hex_char w x y z) (string_rest s') | _ \<Rightarrow> None)
         else push_char (plain_escape e) (string_rest s))
      else if (of_char c :: nat) < 32 then None
      else push_char (Some c) (string_rest (e # s)))"

definition number_value :: "string \<Rightarrow> rat option" where
  "number_value t =
     (let neg = js_starts_with t ''-''; body = (if neg then drop 1 t else t);
          w = takeWhile is_digit body; r = dropWhile is_digit body in
      if w = [] \<or> hd w = CHR ''0'' \<and> w \<noteq> ''0'' \<or> js_starts_with r ''.'' \<and> (drop 1 r = [] \<or> \<not> is_digit (hd (drop 1 r)))
      then None else map_option (\<lambda>x. if neg then - x else x) (decimal_value body))"

definition is_number_char :: "char \<Rightarrow> bool" where
  "is_number_char c \<longleftrightarrow> is_digit c \<or> c \<in> {CHR ''+'', CHR ''-'', CHR ''.'', CHR ''e'', CHR ''E''}"

definition object_of :: "(string \<times> json) list \<Rightarrow> json" where
  "object_of kvs = JObj (map (\<lambda>k. (k, the (map_of (rev kvs) k))) (js_uniq (map fst kvs)))"

fun parse_value :: "nat \<Rightarrow> string \<Rightarrow> (json \<times> string) option"
  and parse_elements :: "nat \<Rightarrow> string \<Rightarrow> (json list \<times> string) option"
  and parse_members :: "nat \<Rightarrow> string \<Rightarrow> ((string \<times> json) list \<times> string) option" where
  "parse_value 0 s = None"
| "parse_value (Suc n) s =
     (case skip_space s of
        [] \<Rightarrow> None
      | c # r \<Rightarrow>
          if c = CHR 0x22 then map_option (\<lambda>(t, r'). (JStr t, r')) (string_rest r)
          else if c = CHR ''['' then
            (if js_starts_with (skip_space r) '']'' then Some (JArr [], drop 1 (skip_space r))
             else map_option (\<lambda>(xs, r'). (JArr xs, r')) (parse_elements n r))
          else if c = CHR 0x7B then
            (if js_starts_with (skip_space r) [CHR 0x7D] then Some (JObj [], drop 1 (skip_space r))
             else map_option (\<lambda>(kvs, r'). (object_of kvs, r')) (parse_members n r))
          else if js_starts_with (c # r) ''null'' then Some (JNull, drop 3 r)
          else if js_starts_with (c # r) ''true'' then Some (JBool True, drop 3 r)
          else if js_starts_with (c # r) ''false'' then Some (JBool False, drop 4 r)
          else map_option (\<lambda>x. (JNum x, dropWhile is_number_char (c # r)))
                 (number_value (takeWhile is_number_char (c # r))))"
| "parse_elements 0 s = None"
| "parse_elements (Suc n) s =
     (case parse_value n s of
        None \<Rightarrow> None
      | Some (v, r) \<Rightarrow>
          (case skip_space r of
             [] \<Rightarrow> None
           | c # r' \<Rightarrow>
               if c = CHR '']'' then Some ([v], r')
               else if c = CHR '','' then map_option (\<lambda>(vs, r''). (v # vs, r'')) (parse_elements n r')
               else None))"
| "parse_members 0 s = None"
| "parse_members (Suc n) s =
     (case skip_space s of
        [] \<Rightarrow> None
      | q # r \<Rightarrow>
          if q \<noteq> CHR 0x22 then None
          else (case string_rest r of
             None \<Rightarrow> None
           | Some (k, r1) \<Rightarrow>
               if \<not> js_starts_with (skip_space r1) '':'' then None
               else (case parse_value n (drop 1 (skip_space r1)) of
                  None \<Rightarrow> None
                | Some (v, r2) \<Rightarrow>
                    (case skip_space r2 of
                       [] \<Rightarrow> None
                     | c # r' \<Rightarrow>
                         if c = CHR 0x7D then Some ([(k, v)], r')
                         else if c = CHR '','' then map_option (\<lambda>(kvs, r''). ((k, v) # kvs, r'')) (parse_members n r')
                         else None))))"

definition json_parse :: "string \<Rightarrow> json option" where
  "json_parse s =
     (case parse_value (2 * length s + 2) s of
        Some (v, r) \<Rightarrow> if skip_space r = [] then Some v else None
      | None \<Rightarrow> None)"

end
