(* ===== verification/Evidence.thy ===== *)
theory Evidence
  imports Work_Data Json_Parse "HOL-Library.Char_ord" "HOL-Library.List_Lexorder"
begin

text \<open>
  What an execution left behind and what the server may conclude from it: the grading of
  self-reported evidence (\<^verbatim>\<open>auto-accept-grade.ts\<close>), the acceptance contract and its digests
  (\<^verbatim>\<open>evidence-contract.ts\<close>), the assessment of evidence verified by the server
  (\<^verbatim>\<open>assessVerifiedEvidence\<close> of \<^verbatim>\<open>evidence-verification.ts\<close>) and the shadow gate that
  combines them (\<^verbatim>\<open>auto-accept-gate.ts\<close>). SHA-256 is the parameter \<open>sha\<close>, a function from
  text to text; the theorems hold for any such function. The verifier that calls GitHub is not modelled:
  its results are rows.
\<close>

section \<open>Grading self-reported evidence\<close>

datatype signal = PASS | FAIL

record evidence_signals =
  sgKind :: string
  sgMerged :: "signal option"
  sgChecks :: "signal option"
  sgExit :: "signal option"
  sgStatus :: "signal option"

record grade_result =
  grReasons :: "string list"
  grSignals :: "evidence_signals list"
  grTier :: auto_accept_tier

definition PASS_BOOL :: "string list" where
  "PASS_BOOL = [''true'', ''yes'', ''merged'', ''1'']"

definition FAIL_BOOL :: "string list" where
  "FAIL_BOOL = [''false'', ''no'', ''open'', ''0'']"

definition PASS_STATUS :: "string list" where
  "PASS_STATUS = [''pass'', ''passed'', ''success'', ''ok'', ''green'']"

definition FAIL_STATUS :: "string list" where
  "FAIL_STATUS = [''fail'', ''failed'', ''error'', ''red'', ''pending'']"

definition normalizeToken :: "string \<Rightarrow> string" where
  "normalizeToken v = js_lower (js_trim v)"

definition is_letter :: "char \<Rightarrow> bool" where
  "is_letter c \<longleftrightarrow> is_lower_letter c \<or> is_upper_letter c"

definition is_token_char :: "char \<Rightarrow> bool" where
  "is_token_char c \<longleftrightarrow> is_letter c \<or> c = CHR ''_''"

definition is_value_char :: "char \<Rightarrow> bool" where
  "is_value_char c \<longleftrightarrow> is_letter c \<or> is_digit c \<or> c = CHR ''_'' \<or> c = CHR ''-''"

text \<open>
  One match of the pattern at the start of a text: a run of key characters, a colon or an equals sign
  between optional spaces, a run of value characters; and the text after it. A shorter run of key
  characters would be followed by another one, so the greedy reading is the only one.
\<close>

definition pair_at :: "string \<Rightarrow> (string \<times> string \<times> string) option" where
  "pair_at s =
     (let key = takeWhile is_token_char s;
          r1 = dropWhile is_space (dropWhile is_token_char s);
          r2 = dropWhile is_space (drop 1 r1);
          v = takeWhile is_value_char r2 in
      if key = [] \<or> r1 = [] \<or> hd r1 \<notin> {CHR '':'', CHR ''=''} \<or> v = [] then None
      else Some (key, v, dropWhile is_value_char r2))"

lemma length_dropWhile_less: "takeWhile P s \<noteq> [] \<Longrightarrow> length (dropWhile P s) < length s"
  by (cases s) (auto simp: le_imp_less_Suc length_dropWhile_le split: if_splits)

lemma length_drops: "length (dropWhile P (dropWhile Q (drop n xs))) \<le> length xs"
  by (rule order_trans[OF length_dropWhile_le order_trans[OF length_dropWhile_le]]) simp

lemma pair_at_shorter: "pair_at s = Some (k, v, r) \<Longrightarrow> length r < length s"
proof -
  assume a: "pair_at s = Some (k, v, r)"
  let ?r1 = "dropWhile is_space (dropWhile is_token_char s)"
  have "length r \<le> length ?r1"
    using a by (auto simp: pair_at_def Let_def length_drops split: if_splits)
  also have "length ?r1 \<le> length (dropWhile is_token_char s)" by (rule length_dropWhile_le)
  also have "\<dots> < length s"
    using a by (auto simp: pair_at_def Let_def split: if_splits intro: length_dropWhile_less)
  finally show ?thesis .
qed

function scan_pairs :: "string \<Rightarrow> (string \<times> string) list" where
  "scan_pairs s =
     (case pair_at s of
        Some (k, v, r) \<Rightarrow> (k, v) # scan_pairs r
      | None \<Rightarrow> (case s of [] \<Rightarrow> [] | c # s' \<Rightarrow> scan_pairs s'))"
  by pat_completeness auto
termination by (relation "measure length") (auto dest: pair_at_shorter)

declare scan_pairs.simps [simp del]

text \<open>The map of the tokens: a later pair replaces an earlier one.\<close>

definition tokenizeSummary :: "string option \<Rightarrow> (string \<times> string) list" where
  "tokenizeSummary summary =
     (case summary of
        None \<Rightarrow> []
      | Some s \<Rightarrow> rev (filter (\<lambda>(k, v). k \<noteq> [] \<and> v \<noteq> [])
          (map (\<lambda>(k, v). (normalizeToken k, normalizeToken v)) (scan_pairs s))))"

definition token :: "(string \<times> string) list \<Rightarrow> string list \<Rightarrow> string option" where
  "token m ks = (case List.map_filter (map_of m) ks of [] \<Rightarrow> None | v # _ \<Rightarrow> Some v)"

definition classifyBool :: "string option \<Rightarrow> signal option" where
  "classifyBool v =
     (case v of
        None \<Rightarrow> None
      | Some s \<Rightarrow> if s = [] then None else if s \<in> set PASS_BOOL \<or> s = ''merged'' then Some PASS
                  else if s \<in> set FAIL_BOOL then Some FAIL else None)"

definition classifyStatus :: "string option \<Rightarrow> signal option" where
  "classifyStatus v =
     (case v of
        None \<Rightarrow> None
      | Some s \<Rightarrow> if s = [] then None else if s \<in> set PASS_STATUS then Some PASS
                  else if s \<in> set FAIL_STATUS then Some FAIL else None)"

definition classifyExit :: "string option \<Rightarrow> signal option" where
  "classifyExit v =
     (case v of
        None \<Rightarrow> None
      | Some s \<Rightarrow> if s = [] then None
                  else if list_all is_digit s then (if s = ''0'' then Some PASS else Some FAIL) else None)"

definition parseEvidenceSignals :: "string \<times> string option \<Rightarrow> evidence_signals" where
  "parseEvidenceSignals e =
     (let tokens = tokenizeSummary (snd e) in
      \<lparr>sgKind = js_upper (js_trim (fst e)),
       sgMerged = classifyBool (token tokens [''merged'', ''merge_state'', ''merge'']),
       sgChecks = classifyStatus (token tokens [''checks'', ''ci'']),
       sgExit = classifyExit (token tokens [''exit'', ''exit_code'', ''exitcode'']),
       sgStatus = classifyStatus (token tokens [''status'', ''result''])\<rparr>)"

definition signal_fails :: "evidence_signals \<Rightarrow> bool" where
  "signal_fails s \<longleftrightarrow> sgMerged s = Some FAIL \<or> sgChecks s = Some FAIL \<or> sgExit s = Some FAIL \<or> sgStatus s = Some FAIL"

definition evaluateAutoAcceptGrade :: "(string \<times> string option) list \<Rightarrow> string option \<Rightarrow> grade_result" where
  "evaluateAutoAcceptGrade evidence status =
     (let signals = map parseEvidenceSignals evidence;
          runStatus = js_upper (js_trim (case status of Some s \<Rightarrow> s | None \<Rightarrow> []));
          graded = (\<lambda>r t. \<lparr>grReasons = [r], grSignals = signals, grTier = t\<rparr>) in
      if runStatus \<noteq> ''COMPLETED'' then graded ''requires a COMPLETED run'' INSUFFICIENT
      else if evidence = [] then graded ''no evidence attached to the completed run'' INSUFFICIENT
      else if list_ex signal_fails signals then graded ''fail signal present on evidence; refusing CLEAR'' AMBIGUOUS
      else if list_ex (\<lambda>s. sgKind s = ''PR'' \<or> sgKind s = ''TEST'') signals
      then graded ''PR/TEST claims are unverified; human review required'' LIKELY
      else graded ''only soft evidence (log/screenshot/artifact/decision); human review required'' AMBIGUOUS)"

section \<open>The acceptance contract\<close>

record acceptance_criterion =
  crtId :: string
  required :: bool
  crtWorkflowId :: rat
  crtJob :: string

definition VERIFICATION_MAX_AGE_MS :: int where
  "VERIFICATION_MAX_AGE_MS = 10 * 60000"

definition criterion_id :: "string \<Rightarrow> bool" where
  "criterion_id s \<longleftrightarrow> 1 \<le> length s \<and> length s \<le> 80 \<and>
     list_all (\<lambda>c. is_name_char c \<or> c = CHR ''_'' \<or> c = CHR ''-'') s"

definition read_criterion :: "json \<Rightarrow> acceptance_criterion option" where
  "read_criterion item =
     (case json_get ''id'' item of
        Some (JStr i) \<Rightarrow>
          (case json_get ''required'' item of
             Some (JBool b) \<Rightarrow>
               (case json_get ''workflowId'' item of
                  Some (JNum w) \<Rightarrow>
                    (case json_get ''job'' item of
                       Some (JStr j) \<Rightarrow>
                         if criterion_id i \<and> is_safe_integer w \<and> 1 \<le> w \<and> js_trim j \<noteq> [] \<and> length j \<le> 200
                         then Some \<lparr>crtId = i, required = b, crtWorkflowId = w, crtJob = j\<rparr> else None
                     | _ \<Rightarrow> None)
                | _ \<Rightarrow> None)
           | _ \<Rightarrow> None)
      | _ \<Rightarrow> None)"

fun collect_criteria :: "string list \<Rightarrow> json list \<Rightarrow> acceptance_criterion list option" where
  "collect_criteria ids [] = Some []"
| "collect_criteria ids (item # items) =
     (case read_criterion item of
        None \<Rightarrow> None
      | Some c \<Rightarrow>
          if crtId c \<in> set ids then None
          else map_option (\<lambda>cs. c # cs) (collect_criteria (crtId c # ids) items))"

definition parseAcceptance :: "string option \<Rightarrow> acceptance_criterion list option" where
  "parseAcceptance v =
     (case json_parse (case v of Some s \<Rightarrow> s | None \<Rightarrow> []) of
        None \<Rightarrow> None
      | Some data \<Rightarrow>
          (case json_get ''criteria'' data of
             Some (JArr items) \<Rightarrow>
               if json_get ''version'' data \<noteq> Some (JNum 1) \<or> items = [] \<or> length items > 100 then None
               else (case collect_criteria [] items of
                       None \<Rightarrow> None
                     | Some cs \<Rightarrow> if list_ex required cs then Some (sort_key crtId cs) else None)
           | _ \<Rightarrow> None))"

definition opt_json :: "string option \<Rightarrow> json" where
  "opt_json v = (case v of Some s \<Rightarrow> JStr s | None \<Rightarrow> JNull)"

definition criterion_json :: "acceptance_criterion \<Rightarrow> json" where
  "criterion_json c = JObj [(''id'', JStr (crtId c)), (''required'', JBool (required c)),
     (''workflowId'', JNum (crtWorkflowId c)), (''job'', JStr (crtJob c))]"

definition acceptance_json :: "issue \<Rightarrow> json" where
  "acceptance_json w =
     (case parseAcceptance (acceptance w) of
        Some cs \<Rightarrow> JObj [(''version'', JNum 1), (''criteria'', JArr (map criterion_json cs))]
      | None \<Rightarrow> opt_json (acceptance w))"

definition snapshot_json :: "work_columns \<Rightarrow> issue \<Rightarrow> json" where
  "snapshot_json c w = JObj [(''version'', JNum 1), (''scope'', opt_json (scope c)),
     (''constraints'', opt_json (constraints c)), (''repository'', opt_json (repository w)),
     (''acceptance'', acceptance_json w)]"

definition digest :: "(string \<Rightarrow> string) \<Rightarrow> json \<Rightarrow> string" where
  "digest sha v = sha (json_text v)"

text \<open>The contract revision and the digest of the acceptance.\<close>

definition snapshotContract :: "(string \<Rightarrow> string) \<Rightarrow> work_columns \<Rightarrow> issue \<Rightarrow> string \<times> string" where
  "snapshotContract sha c w = (digest sha (snapshot_json c w), digest sha (acceptance_json w))"

section \<open>Evidence verified by the server\<close>

definition VERIFIER_ID :: string where
  "VERIFIER_ID = ''github-app''"

definition VERIFIER_VERSION :: string where
  "VERIFIER_VERSION = ''1''"

record assessment =
  eligible :: bool
  asReasons :: "string list"
  covered :: "string list"

definition latest_run :: "claim_db \<Rightarrow> ident \<Rightarrow> work_run option" where
  "latest_run db w = (case filter (\<lambda>r. runWorkId r = w) (runs db) of [] \<Rightarrow> None | rs \<Rightarrow> Some (last rs))"

text \<open>The number in \<^verbatim>\<open>observation?.source?.prNumber\<close> is the pull request of the run.\<close>

definition observed_pr :: "json \<Rightarrow> int option \<Rightarrow> bool" where
  "observed_pr result pr =
     (case Option.bind (json_get ''source'' result) (json_get ''prNumber'') of
        Some (JNum q) \<Rightarrow> (case pr of Some n \<Rightarrow> q = of_int n | None \<Rightarrow> False)
      | Some JNull \<Rightarrow> pr = None
      | _ \<Rightarrow> False)"

definition verification_holds :: "string \<times> string \<Rightarrow> instant \<Rightarrow> work_run \<Rightarrow> evidence_verification \<Rightarrow> bool" where
  "verification_holds current now run v \<longleftrightarrow>
     vfStatus v = ''VERIFIED'' \<and> vfVerifierId v = VERIFIER_ID \<and> vfVerifierVersion v = VERIFIER_VERSION \<and>
     vfRunId v = Some (runId run) \<and> vfRepository v = runRepository run \<and> vfCommitSha v = commitSha run \<and>
     observed_pr (vfResult v) (pullRequestNumber run) \<and>
     vfContractRevision v = Some (fst current) \<and> vfAcceptanceDigest v = Some (snd current) \<and>
     now - vfObservedAt v \<le> VERIFICATION_MAX_AGE_MS \<and> vfObservedAt v \<le> now"

definition latest_verification :: "run_evidence \<Rightarrow> evidence_verification option" where
  "latest_verification e = (if reVerifications e = [] then None else Some (last (reVerifications e)))"

definition item_holds :: "string \<times> string \<Rightarrow> instant \<Rightarrow> work_run \<Rightarrow> run_evidence \<Rightarrow> bool" where
  "item_holds current now run e =
     (case latest_verification e of None \<Rightarrow> False | Some v \<Rightarrow> verification_holds current now run v)"

definition covered_ids :: "evidence_verification \<Rightarrow> string list" where
  "covered_ids v =
     (case json_get ''covered'' (vfResult v) of
        Some (JArr xs) \<Rightarrow> List.map_filter text_of xs
      | _ \<Rightarrow> [])"

definition item_covers :: "run_evidence \<Rightarrow> string list" where
  "item_covers e = (case latest_verification e of None \<Rightarrow> [] | Some v \<Rightarrow> covered_ids v)"

definition run_evidence_of :: "claim_db \<Rightarrow> issue \<Rightarrow> work_run \<Rightarrow> run_evidence list" where
  "run_evidence_of db w run =
     filter (\<lambda>e. reRetractedAt e = None \<and> reWorkId e = issueId w \<and> reRunId e = Some (runId run) \<and>
                 reKind e \<in> {''PR'', ''TEST''}) (runEvidences db)"

definition bound_run :: "work_run \<Rightarrow> bool" where
  "bound_run run \<longleftrightarrow> runStatus run = RUN_COMPLETED \<and> truthy (claimSnapshotId run) \<and> truthy (commitSha run) \<and>
     (case pullRequestNumber run of None \<Rightarrow> False | Some n \<Rightarrow> n \<noteq> 0)"

definition say :: "bool \<Rightarrow> string \<Rightarrow> string list" where
  "say b m = (if b then [m] else [])"

definition binding_reasons :: "claim_db \<Rightarrow> issue \<Rightarrow> string \<times> string \<Rightarrow> work_run \<Rightarrow> string list" where
  "binding_reasons db w current run =
     say (\<not> bound_run run) ''completed execution binding is missing'' @
     say (contractRevision run \<noteq> Some (fst current) \<or> acceptanceDigest run \<noteq> Some (snd current) \<or>
          runRepository run \<noteq> repository w) ''execution contract is stale'' @
     say (executionRevokedAt run \<noteq> None) ''execution authority was revoked'' @
     say (map_option runId (latest_run db (issueId w)) \<noteq> Some (runId run)) ''a newer execution attempt exists'' @
     say (case find_claim db (issueId w) of
            None \<Rightarrow> False
          | Some c \<Rightarrow> claimSnapshotId run \<noteq> Some (clId c) \<or> runActorId run \<noteq> Some (clActorId c))
       ''execution lease was superseded'' @
     say (\<exists>d \<in> set (reviewDecisions db). rdWorkId d = issueId w \<and> rdDecision d = DECISION_REJECTED \<and> startedAt run \<le> rdCreatedAt d)
       ''human rejected this execution''"

definition assessVerifiedEvidence ::
  "(string \<Rightarrow> string) \<Rightarrow> instant \<Rightarrow> claim_db \<Rightarrow> issue \<Rightarrow> work_run option \<Rightarrow> acceptance_criterion list option \<Rightarrow> assessment" where
  "assessVerifiedEvidence sha now db w run technical =
     (let current = snapshotContract sha (columns_of db w) w;
          criteria = (case technical of Some t \<Rightarrow> Some t | None \<Rightarrow> parseAcceptance (acceptance w));
          unstructured = say (criteria = None) ''acceptance has no structured required criteria'' in
      case run of
        None \<Rightarrow> \<lparr>eligible = False, asReasons = unstructured @ [''completed execution binding is missing''], covered = []\<rparr>
      | Some r \<Rightarrow>
          let evidence = run_evidence_of db w r;
              good = filter (item_holds current now r) evidence;
              ids = js_uniq (concat (map item_covers good));
              reasons = unstructured @ binding_reasons db w current r @
                say (evidence = []) ''no verified execution evidence'' @
                map (\<lambda>e. ''evidence '' @ reId e @ '' is unverified, failed, unavailable or stale'')
                  (filter (\<lambda>e. \<not> item_holds current now r e) evidence) @
                map (\<lambda>c. ''missing required acceptance '' @ crtId c)
                  (filter (\<lambda>c. required c \<and> crtId c \<notin> set ids) (case criteria of Some cs \<Rightarrow> cs | None \<Rightarrow> [])) in
          \<lparr>eligible = (reasons = []), asReasons = reasons, covered = sort ids\<rparr>)"

section \<open>The shadow gate\<close>

definition AUTO_ACCEPT_ACTOR_EMAIL :: string where
  "AUTO_ACCEPT_ACTOR_EMAIL = ''auto-accept@involute.internal''"

definition AUTO_ACCEPT_ACTOR_NAME :: string where
  "AUTO_ACCEPT_ACTOR_NAME = ''Auto-Accept Gate''"

definition auto_accept_user :: "ident \<Rightarrow> user" where
  "auto_accept_user i = \<lparr>userId = i, userKind = SERVICE, globalRole = USER, handle = None,
     userName = AUTO_ACCEPT_ACTOR_NAME, email = Some AUTO_ACCEPT_ACTOR_EMAIL, deactivatedAt = None,
     ownerId = None, successorActorId = None\<rparr>"

definition ensureAutoAcceptActor :: "ident \<Rightarrow> claim_db \<Rightarrow> ident \<times> claim_db" where
  "ensureAutoAcceptActor fresh db =
     (case find_row email (Some AUTO_ACCEPT_ACTOR_EMAIL) (users db) of
        Some u \<Rightarrow> (userId u, if userKind u = SERVICE then db
          else db\<lparr>users := update_rows (\<lambda>x. userId x = userId u) (\<lambda>x. x\<lparr>userKind := SERVICE\<rparr>) (users db)\<rparr>)
      | None \<Rightarrow> (fresh, db\<lparr>users := users db @ [auto_accept_user fresh]\<rparr>))"

fun tier_text :: "auto_accept_tier \<Rightarrow> string" where
  "tier_text CLEAR = ''CLEAR''"
| "tier_text LIKELY = ''LIKELY''"
| "tier_text AMBIGUOUS = ''AMBIGUOUS''"
| "tier_text INSUFFICIENT = ''INSUFFICIENT''"

fun run_status_text :: "run_status \<Rightarrow> string" where
  "run_status_text QUEUED = ''QUEUED''"
| "run_status_text RUNNING = ''RUNNING''"
| "run_status_text BLOCKED = ''BLOCKED''"
| "run_status_text RUN_COMPLETED = ''COMPLETED''"
| "run_status_text RUN_FAILED = ''FAILED''"

definition recordSkipped :: "instant \<Rightarrow> ident \<Rightarrow> grade_result \<Rightarrow> ident option \<Rightarrow> issue \<Rightarrow> claim_db \<Rightarrow> claim_db" where
  "recordSkipped now actor grade run w db =
     enqueue_event now ''work.auto_accept_evaluated'' (issueId w)
       [(''outcome'', JStr ''SKIPPED''), (''reasons'', JArr (map JStr (grReasons grade))),
        (''tier'', JStr (tier_text (grTier grade))), (''runId'', opt_json run)]
       (db\<lparr>evaluations := evaluations db @
          [\<lparr>aeActorId = Some actor, aeWorkId = issueId w, aeRunId = run, aeOutcome = SKIPPED,
            aeTier = grTier grade, aeReasons = grReasons grade\<rparr>]\<rparr>)"

definition tryAutoAccept ::
  "(string \<Rightarrow> string) \<Rightarrow> ident \<Rightarrow> instant \<Rightarrow> claim_db \<Rightarrow> ident \<Rightarrow> ident option \<Rightarrow> grade_result option \<times> claim_db" where
  "tryAutoAccept sha fresh now db workId requested =
     (case find_issue db workId of
        None \<Rightarrow> (None, db)
      | Some w \<Rightarrow>
          if state_type_of db w \<noteq> Some REVIEW then (None, db)
          else
            let run = (if truthy requested then find (\<lambda>r. requested = Some (runId r) \<and> runWorkId r = workId) (runs db)
                       else latest_run db workId);
                evidence = filter (\<lambda>e. reRetractedAt e = None \<and> reWorkId e = workId \<and>
                    (case run of None \<Rightarrow> True | Some r \<Rightarrow> reRunId e = Some (runId r))) (runEvidences db);
                grade = evaluateAutoAcceptGrade (map (\<lambda>e. (reKind e, reSummary e)) evidence)
                    (map_option (\<lambda>r. run_status_text (runStatus r)) run);
                verified = assessVerifiedEvidence sha now db w run None;
                graded = (if eligible verified
                  then grade\<lparr>grTier := CLEAR, grReasons := [''required criteria verified by server observations'']\<rparr>
                  else grade);
                final = graded\<lparr>grReasons := grReasons graded @ asReasons verified @
                  [''shadow: human review required; covered='' @ js_join '','' (covered verified)]\<rparr>;
                (actor, db1) = ensureAutoAcceptActor fresh db
            in (Some final, recordSkipped now actor final (map_option runId run) w db1))"

section \<open>What the gate may conclude\<close>

lemma grade_never_clear: "grTier (evaluateAutoAcceptGrade es st) \<noteq> CLEAR"
  by (simp add: evaluateAutoAcceptGrade_def Let_def)

lemma say_eq_Nil [simp]: "say b m = [] \<longleftrightarrow> \<not> b"
  by (simp add: say_def)

lemma collect_criteria_id: "collect_criteria ids items = Some cs \<Longrightarrow> length cs = length items"
  by (induction items arbitrary: ids cs) (auto split: option.splits if_splits)

lemma parseAcceptance_required: "parseAcceptance v = Some cs \<Longrightarrow> \<exists>c \<in> set cs. required c"
  by (auto simp: parseAcceptance_def list_ex_iff split: option.splits json.splits if_splits)

text \<open>
  A verified execution of a work item: its latest run is completed, bound to a claim, a commit and a
  pull request, not revoked, made under the present contract, and not rejected since it started; and
  every required criterion is covered by evidence of that run whose latest verification is recent and
  about that commit.
\<close>

definition verified_execution :: "(string \<Rightarrow> string) \<Rightarrow> instant \<Rightarrow> claim_db \<Rightarrow> issue \<Rightarrow> work_run \<Rightarrow> bool" where
  "verified_execution sha now db w r \<longleftrightarrow>
     runStatus r = RUN_COMPLETED \<and> truthy (commitSha r) \<and> executionRevokedAt r = None \<and>
     map_option runId (latest_run db (issueId w)) = Some (runId r) \<and>
     contractRevision r = Some (fst (snapshotContract sha (columns_of db w) w)) \<and>
     (\<forall>d \<in> set (reviewDecisions db). rdWorkId d = issueId w \<and> rdDecision d = DECISION_REJECTED \<longrightarrow> rdCreatedAt d < startedAt r) \<and>
     (\<exists>cs. parseAcceptance (acceptance w) = Some cs \<and> (\<exists>c \<in> set cs. required c) \<and>
        (\<forall>c \<in> set cs. required c \<longrightarrow>
          (\<exists>e \<in> set (runEvidences db). \<exists>v.
             reRetractedAt e = None \<and> reRunId e = Some (runId r) \<and> latest_verification e = Some v \<and>
             vfStatus v = ''VERIFIED'' \<and> vfCommitSha v = commitSha r \<and>
             vfObservedAt v \<le> now \<and> now - vfObservedAt v \<le> VERIFICATION_MAX_AGE_MS \<and>
             crtId c \<in> set (covered_ids v))))"

lemma covering_item:
  assumes "x \<in> set (concat (map item_covers (filter (item_holds current now r) (run_evidence_of db w r))))"
  shows "\<exists>e \<in> set (runEvidences db). \<exists>v. reRetractedAt e = None \<and> reRunId e = Some (runId r) \<and>
     latest_verification e = Some v \<and> verification_holds current now r v \<and> x \<in> set (covered_ids v)"
  using assms
  by (fastforce simp: item_covers_def item_holds_def run_evidence_of_def split: option.splits)

lemma eligible_run:
  assumes "eligible (assessVerifiedEvidence sha now db w run None)"
  shows "\<exists>r. run = Some r \<and> verified_execution sha now db w r"
proof -
  let ?cur = "snapshotContract sha (columns_of db w) w"
  from assms obtain r where r: "run = Some r" by (auto simp: assessVerifiedEvidence_def Let_def split: option.splits)
  let ?ids = "concat (map item_covers (filter (item_holds ?cur now r) (run_evidence_of db w r)))"
  from assms r obtain cs where cs: "parseAcceptance (acceptance w) = Some cs"
    by (auto simp: assessVerifiedEvidence_def Let_def)
  from assms r cs have b: "binding_reasons db w ?cur r = []"
    by (simp add: assessVerifiedEvidence_def Let_def)
  from assms r cs have cov: "crtId c \<in> set ?ids" if "c \<in> set cs" "required c" for c
    using that by (auto simp: assessVerifiedEvidence_def Let_def filter_empty_conv)
  from b have bound: "runStatus r = RUN_COMPLETED" "truthy (commitSha r)" "executionRevokedAt r = None"
      "map_option runId (latest_run db (issueId w)) = Some (runId r)" "contractRevision r = Some (fst ?cur)"
      "\<forall>d \<in> set (reviewDecisions db). rdWorkId d = issueId w \<and> rdDecision d = DECISION_REJECTED \<longrightarrow> rdCreatedAt d < startedAt r"
    by (auto simp: binding_reasons_def bound_run_def not_le)
  have "\<forall>c \<in> set cs. required c \<longrightarrow>
      (\<exists>e \<in> set (runEvidences db). \<exists>v. reRetractedAt e = None \<and> reRunId e = Some (runId r) \<and>
         latest_verification e = Some v \<and> vfStatus v = ''VERIFIED'' \<and> vfCommitSha v = commitSha r \<and>
         vfObservedAt v \<le> now \<and> now - vfObservedAt v \<le> VERIFICATION_MAX_AGE_MS \<and> crtId c \<in> set (covered_ids v))"
    using covering_item[OF cov] by (fastforce simp: verification_holds_def)
  with bound cs parseAcceptance_required[OF cs] r show ?thesis unfolding verified_execution_def by blast
qed

lemma ensureAutoAcceptActor_frame [simp]:
  "issues (snd (ensureAutoAcceptActor f db)) = issues db"
  "runs (snd (ensureAutoAcceptActor f db)) = runs db"
  "claims (snd (ensureAutoAcceptActor f db)) = claims db"
  "reviewDecisions (snd (ensureAutoAcceptActor f db)) = reviewDecisions db"
  "evaluations (snd (ensureAutoAcceptActor f db)) = evaluations db"
  by (simp_all add: ensureAutoAcceptActor_def split: option.splits)

lemma recordSkipped_frame [simp]:
  "issues (recordSkipped now a g i w db) = issues db"
  "runs (recordSkipped now a g i w db) = runs db"
  "claims (recordSkipped now a g i w db) = claims db"
  "reviewDecisions (recordSkipped now a g i w db) = reviewDecisions db"
  "\<exists>e. evaluations (recordSkipped now a g i w db) = evaluations db @ [e] \<and> aeOutcome e = SKIPPED"
  by (simp_all add: recordSkipped_def enqueue_event_def)

text \<open>
  C11: The automatic acceptance gate is only an observer: whatever evidence is attached, it changes no work
  item, run, claim or review decision, and every evaluation it records has the outcome \<open>SKIPPED\<close>. It
  grades a run \<open>CLEAR\<close> only when the server itself verified the execution: what an agent says in
  its summaries never suffices.
\<close>

theorem gate_is_shadow:
  assumes "tryAutoAccept sha fresh now db i requested = (res, db')"
  shows "issues db' = issues db \<and> runs db' = runs db \<and> claims db' = claims db \<and>
    reviewDecisions db' = reviewDecisions db \<and>
    (\<exists>new. evaluations db' = evaluations db @ new \<and> (\<forall>e \<in> set new. aeOutcome e = SKIPPED)) \<and>
    (\<forall>g. res = Some g \<and> grTier g = CLEAR \<longrightarrow>
       (\<exists>w r. find_issue db i = Some w \<and> state_type_of db w = Some REVIEW \<and> verified_execution sha now db w r))"
proof (cases "\<exists>w. find_issue db i = Some w \<and> state_type_of db w = Some REVIEW")
  case False
  with assms show ?thesis by (auto simp: tryAutoAccept_def split: option.splits if_splits)
next
  case True
  then obtain w where w: "find_issue db i = Some w" "state_type_of db w = Some REVIEW" by blast
  let ?run = "if truthy requested then find (\<lambda>r. requested = Some (runId r) \<and> runWorkId r = i) (runs db)
    else latest_run db i"
  from assms w obtain g actor where g: "res = Some g"
    and db': "db' = recordSkipped now actor g (map_option runId ?run) w (snd (ensureAutoAcceptActor fresh db))"
    and tier: "grTier g = CLEAR \<longrightarrow> eligible (assessVerifiedEvidence sha now db w ?run None)"
    by (auto simp: tryAutoAccept_def Let_def grade_never_clear split: prod.splits if_splits)
  obtain e where "evaluations db' = evaluations db @ [e]" "aeOutcome e = SKIPPED"
    using recordSkipped_frame(5)[of now actor g "map_option runId ?run" w "snd (ensureAutoAcceptActor fresh db)"]
    unfolding db' by auto
  then show ?thesis using db' g tier w by (auto dest: eligible_run)
qed

definition verified_work :: issue where
  "verified_work = \<lparr>issueId = ''w'', issueIdentifier = ''W-1'', title = ''T'', kind = ISSUE, teamId = ''t'', stateId = ''review'',
     assigneeId = None, parentId = None, priority = 0, commitmentStatus = COMMITTED, revision = 1,
     acceptance = Some (json_text (JObj [(''version'', JNum 1), (''criteria'', JArr
       [JObj [(''id'', JStr ''ci''), (''required'', JBool True), (''workflowId'', JNum 7), (''job'', JStr ''build'')]])])),
     repository = Some ''acme/app'', resolution = None, supersededById = None, reopenCount = 0\<rparr>"

definition plain_sha :: "string \<Rightarrow> string" where
  "plain_sha s = ''digest''"

definition verified_run :: work_run where
  "verified_run =
     \<lparr>runId = ''r'', publicId = ''RUN-1'', runWorkId = ''w'', runActorId = Some ''a'', runClaimId = None,
      claimSnapshotId = Some ''c'', runStatus = RUN_COMPLETED, runTokenHash = None, executionRevokedAt = None,
      contractRevision = Some ''digest'', acceptanceDigest = Some ''digest'', runRepository = Some ''acme/app'',
      commitSha = Some ''abc'', pullRequestNumber = Some 3, startedAt = 10, endedAt = Some 20, runSummary = None,
      runPhase = None, runExternalUrl = None, runExecutionId = None, baseRevision = None, runFollowups = None,
      scheduleRound = None, lastActivityAt = 20, staleNotifiedAt = None\<rparr>"

definition verified_evidence :: run_evidence where
  "verified_evidence =
     \<lparr>reId = ''e'', reWorkId = ''w'', reRunId = Some ''r'', reKind = ''TEST'', reSummary = Some ''exit: 0'',
      reUrl = ''u'', reActorId = Some ''a'', verificationNextAt = None,
      reRetractedAt = None, reVerifications = [\<lparr>vfStatus = ''VERIFIED'', vfVerifierId = ''github-app'',
        vfVerifierVersion = ''1'', vfRunId = Some ''r'', vfRepository = Some ''acme/app'', vfCommitSha = Some ''abc'',
        vfContractRevision = Some ''digest'', vfAcceptanceDigest = Some ''digest'', vfObservedAt = 30,
        vfResult = JObj [(''covered'', JArr [JStr ''ci'']), (''source'', JObj [(''prNumber'', JNum 3)])]\<rparr>]\<rparr>"

definition verified_db :: claim_db where
  "verified_db = \<lparr>issues = [verified_work], links = [],
     states = [\<lparr>wsId = ''review'', wsType = REVIEW, wsTeamId = ''t'', position = 3\<rparr>],
     audits = [], reopens = [], workNotes = [], teamRows = [''t''], policies = [], fieldDefinitions = [],
     agentTrusts = [], opsAudits = [], users = [], memberships = [], credentials = [], requests = [],
     comments = [], evidences = [], events = [], notifications = [], archivedTeams = [], shares = [],
     columnRows = [], packages = [], claims = [], runs = [verified_run], runEvidences = [verified_evidence],
     reviewDecisions = [], evaluations = [], idempotencies = [], workEvents = [], workNotices = [],
     schedules = [], receipts = [], runSequence = 1\<rparr>"

lemma verified_work_criteria:
  "parseAcceptance (acceptance verified_work) =
     Some [\<lparr>crtId = ''ci'', required = True, crtWorkflowId = 7, crtJob = ''build''\<rparr>]"
  by code_simp

lemma verified_db_clear: "map_option grTier (fst (tryAutoAccept plain_sha ''svc'' 40 verified_db ''w'' None)) = Some CLEAR"
proof -
  have w: "find_issue verified_db ''w'' = Some verified_work" "state_type_of verified_db verified_work = Some REVIEW"
    by (simp_all add: find_issue_def find_row_def verified_db_def verified_work_def state_type_of_def find_state_def)
  have r: "latest_run verified_db ''w'' = Some verified_run"
    by (simp add: latest_run_def verified_db_def verified_run_def)
  have d: "snapshotContract plain_sha c verified_work = (''digest'', ''digest'')" for c
    by (simp add: snapshotContract_def digest_def plain_sha_def)
  have e: "run_evidence_of verified_db verified_work verified_run = [verified_evidence]"
    by (simp add: run_evidence_of_def verified_db_def verified_work_def verified_run_def verified_evidence_def)
  have h: "item_holds (''digest'', ''digest'') 40 verified_run verified_evidence" by code_simp
  have c: "item_covers verified_evidence = [''ci'']" by code_simp
  have b: "binding_reasons verified_db verified_work (''digest'', ''digest'') verified_run = []"
    using r by (simp add: binding_reasons_def bound_run_def find_claim_def find_row_def say_def truthy_def
        verified_run_def verified_work_def) (simp add: verified_db_def)
  have "eligible (assessVerifiedEvidence plain_sha 40 verified_db verified_work (Some verified_run) None)"
    by (simp add: assessVerifiedEvidence_def Let_def verified_work_criteria d e h c b)
  then show ?thesis by (simp add: tryAutoAccept_def w r truthy_def Let_def split: prod.split)
qed

theorem gate_is_shadow_witness:
  "\<exists>g db'. tryAutoAccept plain_sha ''svc'' 40 verified_db ''w'' None = (Some g, db') \<and> grTier g = CLEAR \<and>
     issues db' = issues verified_db \<and> (\<exists>w r. find_issue verified_db ''w'' = Some w \<and> verified_execution plain_sha 40 verified_db w r)"
proof -
  obtain res db' where t: "tryAutoAccept plain_sha ''svc'' 40 verified_db ''w'' None = (res, db')" by force
  with verified_db_clear obtain g where "res = Some g" "grTier g = CLEAR" by auto
  with gate_is_shadow[OF t] t show ?thesis by blast
qed

end
