(* ===== verification/Execution_Authority.thy ===== *)
theory Execution_Authority
  imports Evidence Work_Graph
begin

text \<open>
  Who may execute which work: execution tokens and the authority of an agent
  (\<^verbatim>\<open>work-execution.ts\<close>), the part of a project shared with it (\<^verbatim>\<open>project-sharing.ts\<close>), the
  approved delivery unit a task is bound to (\<^verbatim>\<open>delivery-grant.ts\<close>, \<^verbatim>\<open>delivery-readiness.ts\<close>) and
  the rules that make work ready (\<^verbatim>\<open>context-service.ts\<close>). Row locks have no effect on a
  serialised transaction and are left out; the instants one transaction reads are one \<open>now\<close>.
\<close>

section \<open>Tokens\<close>

definition WORK_EXECUTION_REQUIRED :: string where
  "WORK_EXECUTION_REQUIRED = ''WORK_EXECUTION_REQUIRED''"

definition assertWorkToken :: "(string \<Rightarrow> string) \<Rightarrow> string option \<Rightarrow> string option \<Rightarrow> (kernel_error, unit) result" where
  "assertWorkToken sha hash tok =
     (if \<not> truthy hash \<or> \<not> truthy tok then Inl (ValidationError WORK_EXECUTION_REQUIRED)
      else throw_if (sha (the tok) \<noteq> the hash) (ValidationError WORK_EXECUTION_REQUIRED))"

section \<open>Shared projects\<close>

record share_scope =
  sharedIssueIds :: "ident list"
  editableIssueIds :: "ident list"
  sharedRepositories :: "(ident \<times> string) list"
  editableRepositories :: "(ident \<times> string) list"
  sharedTeamIds :: "ident list"

definition EMPTY_SHARE_SCOPE :: share_scope where
  "EMPTY_SHARE_SCOPE = \<lparr>sharedIssueIds = [], editableIssueIds = [], sharedRepositories = [],
     editableRepositories = [], sharedTeamIds = []\<rparr>"

definition share_ids :: "claim_db \<Rightarrow> issue \<Rightarrow> ident list" where
  "share_ids db root_work = issueId root_work # getContainsDescendantIds (graph_db.truncate db) (issueId root_work)"

definition share_repositories :: "issue \<Rightarrow> (ident \<times> string) list" where
  "share_repositories w = (if truthy (repository w) then [(teamId w, the (repository w))] else [])"

definition shared_roots :: "claim_db \<Rightarrow> ident \<Rightarrow> (share_role \<times> issue) list" where
  "shared_roots db user =
     List.map_filter (\<lambda>s. map_option (\<lambda>w. (wsRole s, w)) (find_issue db (wsWorkId s)))
       (filter (\<lambda>s. wsUserId s = user) (shares db))"

definition resolveShareScope :: "claim_db \<Rightarrow> ident \<Rightarrow> share_scope" where
  "resolveShareScope db user =
     (let roots = shared_roots db user;
          editable = filter (\<lambda>p. fst p = SHARE_EDITOR) roots in
      if roots = [] then EMPTY_SHARE_SCOPE
      else \<lparr>sharedIssueIds = js_uniq (concat (map (share_ids db \<circ> snd) roots)),
            editableIssueIds = js_uniq (concat (map (share_ids db \<circ> snd) editable)),
            sharedRepositories = js_uniq (concat (map (share_repositories \<circ> snd) roots)),
            editableRepositories = js_uniq (concat (map (share_repositories \<circ> snd) editable)),
            sharedTeamIds = js_uniq (map (teamId \<circ> snd) roots)\<rparr>)"

text \<open>The condition on an issue, or \<open>None\<close> when the scope is empty.\<close>

definition shareScopeIssueWhere :: "share_scope \<Rightarrow> bool \<Rightarrow> (issue \<Rightarrow> bool) option" where
  "shareScopeIssueWhere s writing =
     (let ids = (if writing then editableIssueIds s else sharedIssueIds s);
          repositories = (if writing then editableRepositories s else sharedRepositories s) in
      if ids = [] \<and> repositories = [] then None
      else Some (\<lambda>w. issueId w \<in> set ids \<or> (\<exists>p \<in> set repositories. repository w = Some (snd p) \<and> teamId w = fst p)))"

section \<open>The authority of an agent\<close>

definition credential_permits :: "agent_credential \<Rightarrow> user \<Rightarrow> string \<Rightarrow> instant \<Rightarrow> bool" where
  "credential_permits c u action now \<longleftrightarrow>
     acUserId c = userId u \<and> acRevokedAt c = None \<and>
     (case acExpiresAt c of None \<Rightarrow> True | Some e \<Rightarrow> now < e) \<and> action \<in> set (acScopes c)"

definition assertExecutionAuthority ::
  "claim_db \<Rightarrow> claim_actor \<Rightarrow> issue \<Rightarrow> string \<Rightarrow> instant \<Rightarrow> (kernel_error, unit) result" where
  "assertExecutionAuthority db actor w action now =
     (if actorKind actor \<noteq> AGENT then Inr ()
      else case Option.bind (actorId actor) (\<lambda>i. find_row userId i (users db)) of
        None \<Rightarrow> Inl (ValidationError ''Execution actor is no longer active.'')
      | Some u \<Rightarrow>
          if deactivatedAt u \<noteq> None \<or> userKind u \<noteq> AGENT then Inl (ValidationError ''Execution actor is no longer active.'')
          else if \<not> truthy (agentCredentialId actor) then Inr ()
          else case find_row acId (the (agentCredentialId actor)) (credentials db) of
            None \<Rightarrow> Inl (ValidationError ''Execution credential no longer permits this action.'')
          | Some c \<Rightarrow>
              if \<not> credential_permits c u action now
              then Inl (ValidationError ''Execution credential no longer permits this action.'')
              else if acTeamId c \<noteq> teamId w \<and>
                \<not> (case shareScopeIssueWhere (resolveShareScope db (userId u)) True of
                     None \<Rightarrow> False
                   | Some P \<Rightarrow> \<exists>x \<in> set (issues db). issueId x = issueId w \<and> P x)
              then Inl (ValidationError ''Execution credential or project share no longer permits this work.'')
              else throw_if (teamId w \<notin> set (teamRows db) \<or> teamId w \<in> set (archivedTeams db))
                     (ValidationError ''Execution team is archived or unavailable.''))"

section \<open>Approved delivery units\<close>

definition contract_of :: "claim_db \<Rightarrow> issue \<Rightarrow> delivery_contract" where
  "contract_of db w = (let c = columns_of db w in
     \<lparr>dcAcceptance = acceptance w, dcScope = scope c, dcConstraints = constraints c,
      dcRepository = repository w, dcVerification = verification c\<rparr>)"

definition deliveryContractDigest :: "(string \<Rightarrow> string) \<Rightarrow> claim_db \<Rightarrow> issue \<Rightarrow> string" where
  "deliveryContractDigest sha db w = (let c = columns_of db w in
     digest sha (JObj [(''outcome'', opt_json (outcome c)), (''acceptance'', opt_json (acceptance w)),
       (''scope'', opt_json (scope c)), (''constraints'', opt_json (constraints c)),
       (''repository'', opt_json (repository w)), (''verification'', opt_json (verification c))]))"

record delivery_binding =
  dbRoot :: issue
  dbGrant :: delivery_package
  dbPolicy :: delivery_policy

definition grant_stands :: "(string \<Rightarrow> string) \<Rightarrow> claim_db \<Rightarrow> issue \<Rightarrow> delivery_package \<Rightarrow> bool" where
  "grant_stands sha db w g \<longleftrightarrow>
     dkRevokedAt g = None \<and> commitmentStatus w = COMMITTED \<and> \<not> truthy (supersededById w) \<and>
     state_type_of db w \<notin> {Some COMPLETED, Some CANCELED} \<and> dkContractDigest g = deliveryContractDigest sha db w"

definition approvedDelivery :: "(string \<Rightarrow> string) \<Rightarrow> claim_db \<Rightarrow> ident \<Rightarrow> (kernel_error, delivery_binding) result" where
  "approvedDelivery sha db i =
     (let e = Inl (ValidationError ''Delivery authorization is missing, revoked, closed or stale; propose a candidate change.'') in
      case (find_issue db i, find_row dkWorkId i (packages db)) of
        (Some w, Some g) \<Rightarrow>
          if \<not> grant_stands sha db w g then e
          else bind_result (parseDeliveryPolicy (dkPolicy g) (contract_of db w)) (\<lambda>p.
                 Inr \<lparr>dbRoot = w, dbGrant = g, dbPolicy = p\<rparr>)
      | _ \<Rightarrow> e)"

text \<open>The binding of a task to its approved unit; \<open>None\<close> for work outside a delivery package.\<close>

definition assertDeliveryExecution ::
  "(string \<Rightarrow> string) \<Rightarrow> claim_db \<Rightarrow> issue \<Rightarrow> (kernel_error, (delivery_binding \<times> delivery_unit) option) result" where
  "assertDeliveryExecution sha db w =
     (let c = columns_of db w in
      if \<not> truthy (deliveryRootId c) then Inr None
      else bind_result (approvedDelivery sha db (the (deliveryRootId c))) (\<lambda>b.
        bind_result (throw_if (deliveryGrantRevision c \<noteq> Some (dkRevision (dbGrant b)) \<or> \<not> truthy (deliveryUnitKey c) \<or>
            parentId w \<noteq> Some (issueId (dbRoot b)) \<or> kind w \<noteq> ISSUE \<or> outcome c \<noteq> None)
          (ValidationError ''Execution task no longer matches its approved delivery unit.'')) (\<lambda>_.
        bind_result (executionContract (dbPolicy b) (the (deliveryUnitKey c)) (contract_of db (dbRoot b))) (\<lambda>expected.
        bind_result (throw_if (contract_of db w \<noteq> snd expected)
          (ValidationError ''Execution contract differs from its approved delivery unit; propose a candidate change.'')) (\<lambda>_.
        Inr (map_option (\<lambda>u. (b, u)) (find (\<lambda>u. Some (unitKey u) = deliveryUnitKey c) (dpUnits (dbPolicy b)))))))))"

definition deliveryTechnicalContract ::
  "(string \<Rightarrow> string) \<Rightarrow> claim_db \<Rightarrow> issue \<Rightarrow> (kernel_error, acceptance_criterion list option) result" where
  "deliveryTechnicalContract sha db w =
     bind_result (assertDeliveryExecution sha db w) (\<lambda>b. Inr (case b of
        None \<Rightarrow> None
      | Some (_, u) \<Rightarrow>
          if unitChecks u = [] then None
          else Some (map (\<lambda>(i, c). \<lparr>crtId = unitKey u @ ''-'' @ nat_text i, required = True,
            crtWorkflowId = workflowId c, crtJob = job c\<rparr>) (enumerate 0 (unitChecks u)))))"

definition hasTechnicalDeliveryProof :: "(string \<Rightarrow> string) \<Rightarrow> instant \<Rightarrow> claim_db \<Rightarrow> issue \<Rightarrow> bool" where
  "hasTechnicalDeliveryProof sha now db w =
     (case deliveryTechnicalContract sha db w of
        Inr (Some technical) \<Rightarrow> eligible (assessVerifiedEvidence sha now db w (latest_run db (issueId w)) (Some technical))
      | _ \<Rightarrow> False)"

definition deliveryLinkBlocks :: "(string \<Rightarrow> string) \<Rightarrow> instant \<Rightarrow> claim_db \<Rightarrow> work_link \<Rightarrow> bool" where
  "deliveryLinkBlocks sha now db l =
     (case (find_issue db (fromId l), find_issue db (toId l)) of
        (Some f, Some t) \<Rightarrow>
          let fc = columns_of db f; tc = columns_of db t;
              ordinary = state_type_of db f \<notin> {Some COMPLETED, Some CANCELED} in
          if commitmentStatus f \<noteq> COMMITTED \<or> truthy (supersededById f) then False
          else if \<not> truthy (deliveryRootId tc) \<or> deliveryRootId fc \<noteq> deliveryRootId tc \<or>
            deliveryGrantRevision fc \<noteq> deliveryGrantRevision tc then ordinary
          else (case assertDeliveryExecution sha db t of
                  Inl e \<Rightarrow> True
                | Inr None \<Rightarrow> ordinary
                | Inr (Some (_, u)) \<Rightarrow>
                    if (case deliveryUnitKey fc of Some k \<Rightarrow> k | None \<Rightarrow> []) \<notin> set (dependsOn u) then ordinary
                    else \<not> hasTechnicalDeliveryProof sha now db f)
      | _ \<Rightarrow> False)"

definition unit_task :: "claim_db \<Rightarrow> delivery_binding \<Rightarrow> string \<Rightarrow> issue option" where
  "unit_task db b key =
     find (\<lambda>w. deliveryRootId (columns_of db w) = Some (issueId (dbRoot b)) \<and> deliveryUnitKey (columns_of db w) = Some key \<and>
               deliveryGrantRevision (columns_of db w) = Some (dkRevision (dbGrant b))) (issues db)"

definition isDeliveryExecutionReady :: "(string \<Rightarrow> string) \<Rightarrow> instant \<Rightarrow> claim_db \<Rightarrow> issue \<Rightarrow> bool" where
  "isDeliveryExecutionReady sha now db w =
     ((case assertDeliveryExecution sha db w of
         Inl e \<Rightarrow> False
       | Inr None \<Rightarrow> True
       | Inr (Some (b, u)) \<Rightarrow>
           list_all (\<lambda>k. case unit_task db b k of None \<Rightarrow> False | Some p \<Rightarrow> hasTechnicalDeliveryProof sha now db p) (dependsOn u)) \<and>
      list_all (\<lambda>l. \<not> deliveryLinkBlocks sha now db l)
        (filter (\<lambda>l. toId l = issueId w \<and> linkType l = BLOCKS) (links db)))"

section \<open>Readiness\<close>

definition READY_EXCLUDED_LABELS :: "string list" where
  "READY_EXCLUDED_LABELS = [''blocked'', ''needs-clarification'']"

definition open_blocker :: "claim_db \<Rightarrow> ident \<Rightarrow> work_link \<Rightarrow> bool" where
  "open_blocker db i l \<longleftrightarrow> toId l = i \<and> linkType l = BLOCKS \<and>
     (case find_issue db (fromId l) of
        None \<Rightarrow> False
      | Some f \<Rightarrow> commitmentStatus f = COMMITTED \<and> supersededById f = None \<and>
                  state_type_of db f \<notin> {None, Some COMPLETED, Some CANCELED})"

definition assignee_is_human :: "claim_db \<Rightarrow> issue \<Rightarrow> bool" where
  "assignee_is_human db w =
     (case Option.bind (assigneeId w) (\<lambda>i. find_row userId i (users db)) of None \<Rightarrow> False | Some u \<Rightarrow> userKind u = HUMAN)"

text \<open>The filter of the ready queue, without the optional restrictions a caller may add.\<close>

definition buildReadyWorkWhere :: "claim_db \<Rightarrow> bool \<Rightarrow> instant \<Rightarrow> issue \<Rightarrow> bool" where
  "buildReadyWorkWhere db allowStarted now w \<longleftrightarrow>
     commitmentStatus w = COMMITTED \<and> supersededById w = None \<and> acceptance w \<noteq> None \<and> assignee_is_human db w \<and>
     (state_type_of db w = Some UNSTARTED \<or> allowStarted \<and> state_type_of db w = Some STARTED) \<and>
     (deliveryRootId (columns_of db w) \<noteq> None \<or> \<not> list_ex (open_blocker db (issueId w)) (links db)) \<and>
     set (labelNames (columns_of db w)) \<inter> set READY_EXCLUDED_LABELS = {} \<and>
     (case find_claim db (issueId w) of None \<Rightarrow> True | Some c \<Rightarrow> leaseUntil c \<le> now)"

definition isWorkReadyForClaim :: "(string \<Rightarrow> string) \<Rightarrow> instant \<Rightarrow> claim_db \<Rightarrow> ident \<Rightarrow> bool" where
  "isWorkReadyForClaim sha now db i =
     (case find (\<lambda>w. issueId w = i \<and> buildReadyWorkWhere db True now w) (issues db) of
        None \<Rightarrow> False
      | Some w \<Rightarrow> \<not> truthy (deliveryRootId (columns_of db w)) \<or> isDeliveryExecutionReady sha now db w)"

definition explainWorkNotReady :: "(string \<Rightarrow> string) \<Rightarrow> instant \<Rightarrow> claim_db \<Rightarrow> ident \<Rightarrow> string" where
  "explainWorkNotReady sha now db i =
     (case find_issue db i of
        None \<Rightarrow> ''WORK_NOT_READY_MESSAGE''
      | Some w \<Rightarrow>
          if state_type_of db w \<notin> {Some UNSTARTED, Some STARTED} then ''WORK_NOT_READY_STATE_MESSAGE''
          else if acceptance w = None then ''WORK_NOT_READY_ACCEPTANCE_MESSAGE''
          else if \<not> assignee_is_human db w then ''WORK_NOT_READY_OWNER_MESSAGE''
          else if list_ex (deliveryLinkBlocks sha now db) (filter (open_blocker db i) (links db))
          then ''WORK_NOT_READY_BLOCKED_MESSAGE''
          else if list_ex (\<lambda>l. l \<in> set READY_EXCLUDED_LABELS) (labelNames (columns_of db w))
          then ''WORK_NOT_READY_LABEL_MESSAGE''
          else ''WORK_NOT_READY_MESSAGE'')"

end
