(* ===== verification/Work_Claims.thy ===== *)
theory Work_Claims
  imports Execution_Authority
begin

text \<open>
  Leases on work: taking and renewing a claim (\<^verbatim>\<open>claimWork\<close> of \<^verbatim>\<open>claim-service.ts\<close>), ending
  one by hand (\<^verbatim>\<open>claim-release.ts\<close>) or by the sweep (\<^verbatim>\<open>claim-expiry.ts\<close>), with the idempotency
  records (\<^verbatim>\<open>idempotency.ts\<close>) and the permissions of actors. What the code draws at random is an
  argument: the identifiers of new rows, the execution's name and the token. Keys of an idempotent
  request are ordered by character; the two of a claim compare alike under \<^verbatim>\<open>localeCompare\<close>. The
  branch for a claim inserted by a concurrent transaction cannot occur in a serialised one.
\<close>

section \<open>Permissions\<close>

datatype work_permission = PPropose | PCommit | PReject | PClaim | PUpdate | PAccept

definition HUMAN_GATED_PERMISSIONS :: "work_permission list" where
  "HUMAN_GATED_PERMISSIONS = [PCommit, PReject, PAccept]"

definition AUTONOMY_GATE_SURFACE :: string where
  "AUTONOMY_GATE_SURFACE = ''autonomy-gate''"

definition assertActorCan ::
  "actor_kind option \<Rightarrow> work_permission \<Rightarrow> write_actor option \<Rightarrow> (kernel_error, unit) result" where
  "assertActorCan k p actor =
     (if p \<notin> set HUMAN_GATED_PERMISSIONS then Inr ()
      else if k = Some HUMAN then Inr ()
      else if p = PCommit \<and> k = Some SERVICE \<and>
        (case actor of None \<Rightarrow> False
         | Some a \<Rightarrow> surface a = Some AUTONOMY_GATE_SURFACE \<and>
             (case reason a of None \<Rightarrow> False | Some r \<Rightarrow> js_starts_with r ''policy.auto_decision''))
      then Inr ()
      else if p = PCommit then Inl (ValidationError ''WORK_COMMIT_FORBIDDEN_MESSAGE'')
      else if p = PReject then Inl (ValidationError ''WORK_REJECT_FORBIDDEN_MESSAGE'')
      else Inl (ValidationError ''WORK_ACCEPT_FORBIDDEN_MESSAGE''))"

section \<open>Idempotency records\<close>

fun kind_text :: "actor_kind \<Rightarrow> string" where
  "kind_text HUMAN = ''HUMAN''"
| "kind_text AGENT = ''AGENT''"
| "kind_text SERVICE = ''SERVICE''"

definition idempotencyActorKey :: "claim_actor \<Rightarrow> string" where
  "idempotencyActorKey a = (case actorId a of Some i \<Rightarrow> i | None \<Rightarrow> js_lower (kind_text (actorKind a)) @ '':system'')"

fun stableJson :: "json \<Rightarrow> string"
  and stable_elements :: "json list \<Rightarrow> string list"
  and stable_entries :: "(string \<times> json) list \<Rightarrow> (string \<times> string) list" where
  "stableJson (JArr xs) = ''['' @ js_join '','' (stable_elements xs) @ '']''"
| "stableJson (JObj kvs) =
     ''{'' @ js_join '','' (map (\<lambda>(k, t). json_quote k @ '':'' @ t) (sort_key fst (stable_entries kvs))) @ ''}''"
| "stableJson v = json_text v"
| "stable_elements [] = []"
| "stable_elements (x # xs) = stableJson x # stable_elements xs"
| "stable_entries [] = []"
| "stable_entries ((k, v) # kvs) = (k, stableJson v) # stable_entries kvs"

definition hashIdempotencyRequest :: "(string \<Rightarrow> string) \<Rightarrow> json \<Rightarrow> string" where
  "hashIdempotencyRequest sha v = sha (stableJson v)"

definition reserveWorkIdempotency ::
  "ident \<Rightarrow> claim_actor \<Rightarrow> string \<Rightarrow> string \<Rightarrow> string \<Rightarrow> ident \<Rightarrow> claim_db \<Rightarrow>
   (kernel_error, (bool \<times> work_idempotency) \<times> claim_db) result" where
  "reserveWorkIdempotency fresh actor key operation hash team db =
     (let actorKey = idempotencyActorKey actor;
          same = (\<lambda>r. wiTeamId r = team \<and> wiActorKey r = actorKey \<and> wiOperation r = operation \<and> wiKey r = key);
          new = \<lparr>wiId = fresh, wiKey = key, wiOperation = operation, wiTeamId = team, wiActorKey = actorKey,
                 wiRequestHash = hash, wiWorkId = None, wiResultId = None\<rparr> in
      if \<not> is_uuid team \<or> truthy (actorId actor) \<and> \<not> is_uuid (the (actorId actor))
      then Inl (ValidationError ''TEAM_NOT_FOUND_MESSAGE'')
      else case find same (idempotencies db) of
        None \<Rightarrow> Inr ((True, new), db\<lparr>idempotencies := idempotencies db @ [new]\<rparr>)
      | Some r \<Rightarrow>
          if wiRequestHash r \<noteq> hash then Inl (ValidationError ''WORK_IDEMPOTENCY_CONFLICT_MESSAGE'')
          else Inr ((False, r), db))"

definition completeWorkIdempotency :: "ident \<Rightarrow> ident \<Rightarrow> ident option \<Rightarrow> claim_db \<Rightarrow> claim_db" where
  "completeWorkIdempotency i workId result db =
     db\<lparr>idempotencies := update_rows (\<lambda>r. wiId r = i)
        (\<lambda>r. r\<lparr>wiWorkId := Some workId, wiResultId := (if truthy result then result else wiResultId r)\<rparr>) (idempotencies db)\<rparr>"

section \<open>Taking a claim\<close>

definition DEFAULT_CLAIM_LEASE_SECONDS :: int where
  "DEFAULT_CLAIM_LEASE_SECONDS = 2 * 60 * 60"

record claim_work_input =
  cwToken :: "string option"
  cwExecutionId :: "string option"
  cwIdempotencyKey :: "string option"
  cwLeaseSeconds :: "int option"

record claim_fresh =
  frClaimId :: ident
  frExecutionId :: string
  frToken :: string
  frIdempotencyId :: ident

definition expired_claim_of :: "ident \<Rightarrow> instant \<Rightarrow> work_claim \<Rightarrow> bool" where
  "expired_claim_of w now c \<longleftrightarrow> clWorkId c = w \<and> leaseUntil c \<le> now"

text \<open>The row to write, whether an existing claim of another actor is an error or the answer.\<close>

definition upsertWorkClaim ::
  "instant \<Rightarrow> bool \<Rightarrow> work_claim \<Rightarrow> claim_db \<Rightarrow> (kernel_error, work_claim \<times> claim_db) result" where
  "upsertWorkClaim now skip new db =
     (let db1 = delete_claims (expired_claim_of (clWorkId new) now) db in
      case find_claim db1 (clWorkId new) of
        None \<Rightarrow> Inr (new, db1\<lparr>claims := claims db1 @ [new]\<rparr>)
      | Some c \<Rightarrow>
          if clActorId c = clActorId new then
            Inr (c\<lparr>leaseUntil := leaseUntil new\<rparr>,
                 db1\<lparr>claims := update_rows (\<lambda>x. clWorkId x = clWorkId new) (\<lambda>x. x\<lparr>leaseUntil := leaseUntil new\<rparr>) (claims db1)\<rparr>)
          else if skip then Inr (c, db1)
          else Inl (ValidationError ''WORK_ALREADY_CLAIMED_MESSAGE''))"

definition SUPERSEDED_SUMMARY :: string where
  "SUPERSEDED_SUMMARY = ''Execution lease expired; superseded by a new claim.''"

definition fail_run :: "instant \<Rightarrow> string \<Rightarrow> work_run \<Rightarrow> work_run" where
  "fail_run now s r = r\<lparr>runStatus := RUN_FAILED, endedAt := Some now, runSummary := Some s\<rparr>"

definition revoke_run :: "instant \<Rightarrow> work_run \<Rightarrow> work_run" where
  "revoke_run now r = r\<lparr>executionRevokedAt := Some now\<rparr>"

definition supersede_runs :: "instant \<Rightarrow> ident \<Rightarrow> claim_db \<Rightarrow> claim_db" where
  "supersede_runs now w db =
     update_runs (\<lambda>r. runWorkId r = w \<and> executionRevokedAt r = None) (revoke_run now)
       (update_runs (\<lambda>r. runWorkId r = w \<and> is_open_run r) (fail_run now SUPERSEDED_SUMMARY) db)"

definition lease_seconds :: "int option \<Rightarrow> int" where
  "lease_seconds l = (case l of Some s \<Rightarrow> if s > 0 then s else DEFAULT_CLAIM_LEASE_SECONDS | None \<Rightarrow> DEFAULT_CLAIM_LEASE_SECONDS)"

definition start_work :: "issue \<Rightarrow> claim_db \<Rightarrow> issue \<times> claim_db" where
  "start_work w db =
     (if state_type_of db w \<in> {Some UNSTARTED, Some BACKLOG} then
        (case first_state db (teamId w) STARTED of
           Some s \<Rightarrow> (w\<lparr>stateId := wsId s\<rparr>, update_issue (issueId w) (\<lambda>x. x\<lparr>stateId := wsId s\<rparr>) db)
         | None \<Rightarrow> (w, db))
      else (w, db))"

type_synonym claim_answer = "work_claim \<times> issue \<times> string option"

definition live :: "instant \<Rightarrow> work_claim \<Rightarrow> bool" where
  "live now c \<longleftrightarrow> now < leaseUntil c"

definition own_live_claim :: "instant \<Rightarrow> claim_actor \<Rightarrow> claim_db \<Rightarrow> issue \<Rightarrow> work_claim option" where
  "own_live_claim now actor db w =
     (case find_claim db (issueId w) of
        Some c \<Rightarrow> if live now c \<and> Some (clActorId c) = actorId actor then Some c else None
      | None \<Rightarrow> None)"

text \<open>The checks before anything is written.\<close>

definition claim_guards ::
  "(string \<Rightarrow> string) \<Rightarrow> instant \<Rightarrow> claim_db \<Rightarrow> issue \<Rightarrow> claim_work_input \<Rightarrow> claim_actor \<Rightarrow> (kernel_error, unit) result" where
  "claim_guards sha now db w inp actor =
     bind_result (assertExecutionAuthority db actor w ''claim'' now) (\<lambda>_.
     bind_result (throw_if (truthy (supersededById w))
       (ValidationError ''Claim the replacement work instead of this superseded item.'')) (\<lambda>_.
     bind_result (assertDeliveryExecution sha db w) (\<lambda>binding.
     bind_result (throw_if (case binding of None \<Rightarrow> False
         | Some (_, u) \<Rightarrow> (case executor u of None \<Rightarrow> False | Some (a, _) \<Rightarrow> a \<noteq> [] \<and> Some a \<noteq> actorId actor))
       (ValidationError ''Only the approved executor may claim this implementation unit.'')) (\<lambda>_.
     bind_result (throw_if (commitmentStatus w \<noteq> COMMITTED) (ValidationError ''WORK_NOT_COMMITTED_MESSAGE'')) (\<lambda>_.
     bind_result (throw_if (case find_claim db (issueId w) of None \<Rightarrow> False
         | Some c \<Rightarrow> live now c \<and> Some (clActorId c) \<noteq> actorId actor)
       (ValidationError ''WORK_ALREADY_CLAIMED_MESSAGE'')) (\<lambda>_.
     bind_result (case own_live_claim now actor db w of
         Some c \<Rightarrow> if actorKind actor = AGENT then assertWorkToken sha (clTokenHash c) (cwToken inp) else Inr ()
       | None \<Rightarrow> Inr ()) (\<lambda>_.
     throw_if (own_live_claim now actor db w = None \<and> \<not> isWorkReadyForClaim sha now db (issueId w))
       (ValidationError (explainWorkNotReady sha now db (issueId w))))))))))"

definition claim_request :: "claim_work_input \<Rightarrow> issue \<Rightarrow> json" where
  "claim_request inp w =
     JObj [(''leaseSeconds'', (case cwLeaseSeconds inp of Some s \<Rightarrow> JNum (of_int s) | None \<Rightarrow> JNull)), (''workId'', JStr (issueId w))]"

text \<open>The writes of a claim that is not a replay: an agent's new claim gets a token, a renewed one keeps it.\<close>

definition claim_token :: "claim_fresh \<Rightarrow> claim_work_input \<Rightarrow> claim_actor \<Rightarrow> work_claim option \<Rightarrow> string option" where
  "claim_token fresh inp actor own =
     (if actorKind actor = AGENT then (if own \<noteq> None then cwToken inp else Some (frToken fresh)) else None)"

definition claim_row ::
  "(string \<Rightarrow> string) \<Rightarrow> claim_fresh \<Rightarrow> instant \<Rightarrow> issue \<Rightarrow> claim_work_input \<Rightarrow> claim_actor \<Rightarrow> work_claim option \<Rightarrow> work_claim" where
  "claim_row sha fresh now w inp actor own = (let tok = claim_token fresh inp actor own in
     \<lparr>clId = frClaimId fresh, clWorkId = issueId w, clActorId = the (actorId actor),
      clTokenHash = (if truthy tok then Some (sha (the tok)) else None),
      clExecutionId = (case own of Some c \<Rightarrow> clExecutionId c
        | None \<Rightarrow> Some (case cwExecutionId inp of Some e \<Rightarrow> e | None \<Rightarrow> frExecutionId fresh)),
      leaseUntil = now + lease_seconds (cwLeaseSeconds inp) * 1000\<rparr>)"

definition after_claim :: "instant \<Rightarrow> issue \<Rightarrow> claim_actor \<Rightarrow> ident option \<Rightarrow> work_claim \<Rightarrow> claim_db \<Rightarrow> issue \<times> claim_db" where
  "after_claim now w actor idem claim db =
     (let (w', db') = start_work w (case idem of Some i \<Rightarrow> completeWorkIdempotency i (issueId w) None db | None \<Rightarrow> db) in
      (w', enqueue_event now ''work.claimed'' (issueId w)
         [(''actorId'', opt_json (actorId actor)), (''leaseUntil'', JNum (of_int (leaseUntil claim)))] db'))"

definition take_claim ::
  "(string \<Rightarrow> string) \<Rightarrow> claim_fresh \<Rightarrow> instant \<Rightarrow> issue \<Rightarrow> claim_work_input \<Rightarrow> claim_actor \<Rightarrow> ident option \<Rightarrow> claim_db \<Rightarrow>
   (kernel_error, claim_answer \<times> claim_db) result" where
  "take_claim sha fresh now w inp actor idem db =
     (let own = own_live_claim now actor db w in
      bind_result (upsertWorkClaim now False (claim_row sha fresh now w inp actor own)
        (if own = None then supersede_runs now (issueId w) db else db)) (\<lambda>(claim, db2).
      Inr ((claim, fst (after_claim now w actor idem claim db2), claim_token fresh inp actor own),
           snd (after_claim now w actor idem claim db2))))"

definition claimWork ::
  "(string \<Rightarrow> string) \<Rightarrow> claim_fresh \<Rightarrow> instant \<Rightarrow> claim_db \<Rightarrow> string \<Rightarrow> claim_work_input \<Rightarrow> claim_actor \<Rightarrow>
   (kernel_error, claim_answer \<times> claim_db) result" where
  "claimWork sha fresh now db i inp actor =
     bind_result (assertActorCan (Some (actorKind actor)) PClaim None) (\<lambda>_.
     bind_result (throw_if (\<not> truthy (actorId actor)) (ValidationError ''WORK_CLAIM_REQUIRES_ACTOR_MESSAGE'')) (\<lambda>_.
     bind_result (requireWork db i) (\<lambda>w.
     bind_result (claim_guards sha now db w inp actor) (\<lambda>_.
     if \<not> truthy (cwIdempotencyKey inp) then take_claim sha fresh now w inp actor None db
     else bind_result (reserveWorkIdempotency (frIdempotencyId fresh) actor (the (cwIdempotencyKey inp)) ''claim''
         (hashIdempotencyRequest sha (claim_request inp w)) (teamId w) db) (\<lambda>((created, record), db1).
       if created then take_claim sha fresh now w inp actor (Some (wiId record)) db1
       else if wiWorkId record \<noteq> Some (issueId w) then Inl (ValidationError ''WORK_IDEMPOTENCY_CONFLICT_MESSAGE'')
       else case own_live_claim now actor db1 w of
              None \<Rightarrow> Inl (ValidationError ''WORK_IDEMPOTENCY_RESULT_UNAVAILABLE_MESSAGE'')
            | Some c \<Rightarrow> Inr ((c, w, cwToken inp), db1))))))"

section \<open>Ending a claim\<close>

definition sweep_minutes :: "instant \<Rightarrow> work_claim \<Rightarrow> int" where
  "sweep_minutes now c = max 1 ((2 * (now - leaseUntil c) + 60000) div 120000)"

definition end_claim :: "instant \<Rightarrow> string \<Rightarrow> ident \<Rightarrow> work_claim \<Rightarrow> claim_db \<Rightarrow> claim_db" where
  "end_claim now summary w c db =
     delete_claims (\<lambda>x. clId x = clId c)
       (update_runs (\<lambda>r. runClaimId r = Some (clId c) \<and> is_open_run r) (fail_run now summary)
         (update_runs (\<lambda>r. runWorkId r = w \<and> claimSnapshotId r = Some (clId c) \<and> executionRevokedAt r = None)
           (revoke_run now) db))"

definition closed_runs :: "work_claim \<Rightarrow> claim_db \<Rightarrow> nat" where
  "closed_runs c db = count_rows (\<lambda>r. runClaimId r = Some (clId c) \<and> is_open_run r) (runs db)"

definition holder_and_owner :: "claim_db \<Rightarrow> work_claim \<Rightarrow> ident list" where
  "holder_and_owner db c =
     (case find_row userId (clActorId c) (users db) of
        None \<Rightarrow> []
      | Some u \<Rightarrow> userId u # (case ownerId u of Some x \<Rightarrow> [x] | None \<Rightarrow> []))"

text \<open>The name of a user is never null (\<^verbatim>\<open>schema.prisma\<close>), so the fallback to the email address after it cannot apply.\<close>

definition released_by :: "claim_db \<Rightarrow> claim_actor \<Rightarrow> string" where
  "released_by db actor =
     (case find_row userId (the (actorId actor)) (users db) of Some u \<Rightarrow> userName u | None \<Rightarrow> ''a person'')"

definition release_writes :: "instant \<Rightarrow> string \<Rightarrow> issue \<Rightarrow> work_claim \<Rightarrow> claim_actor \<Rightarrow> claim_db \<Rightarrow> claim_db" where
  "release_writes now why w c actor db =
     (let db1 = end_claim now (''Claim released by '' @ released_by db actor @ '': '' @ why) (issueId w) c db;
          db2 = update_issue (issueId w) (\<lambda>x. x\<lparr>revision := revision x + 1\<rparr>) db1;
          db3 = recordWorkAudit (Some (write_actor.truncate (actor\<lparr>reason := Some (''Claim released: '' @ why)\<rparr>)))
            (Some w) (w\<lparr>revision := revision w + 1\<rparr>) (issueId w) db2;
          db4 = enqueue_event now ''work.claim_released'' (issueId w)
            [(''releasedActorId'', JStr (clActorId c)), (''releasedById'', opt_json (actorId actor)),
             (''reason'', JStr why), (''closedRuns'', JNum (of_nat (closed_runs c db)))] db3 in
      notify_all ''work.claim_released'' (issueId w)
        (filter (\<lambda>u. u \<noteq> [] \<and> Some u \<noteq> actorId actor) (js_uniq (holder_and_owner db c))) db4)"

definition releaseClaim ::
  "(string \<Rightarrow> string) \<Rightarrow> instant \<Rightarrow> claim_db \<Rightarrow> string \<Rightarrow> string \<Rightarrow> string option \<Rightarrow> claim_actor \<Rightarrow>
   (kernel_error, (ident \<times> ident) \<times> claim_db) result" where
  "releaseClaim sha now db i rawReason tok actor =
     (let why = js_trim rawReason in
      bind_result (throw_if (actorKind actor \<notin> {HUMAN, AGENT} \<or> \<not> truthy (actorId actor))
        (ValidationError ''CLAIM_RELEASE_FORBIDDEN_MESSAGE'')) (\<lambda>_.
      bind_result (throw_if (why = []) (ValidationError ''CLAIM_RELEASE_REASON_REQUIRED_MESSAGE'')) (\<lambda>_.
      bind_result (requireWork db i) (\<lambda>w.
      bind_result (assertExecutionAuthority db actor w ''claim'' now) (\<lambda>_.
      case find_claim db (issueId w) of
        None \<Rightarrow> Inl (ValidationError ''CLAIM_RELEASE_NO_CLAIM_MESSAGE'')
      | Some c \<Rightarrow>
        bind_result (if actorKind actor = AGENT then
            (if Some (clActorId c) \<noteq> actorId actor \<or> leaseUntil c \<le> now
             then Inl (ValidationError ''CLAIM_RELEASE_FORBIDDEN_MESSAGE'')
             else assertWorkToken sha (clTokenHash c) tok)
          else Inr ()) (\<lambda>_.
        Inr ((issueId w, clActorId c), release_writes now why w c actor db)))))))"

text \<open>Work that was in progress goes back to the first ready state of its team.\<close>

definition swept_state :: "claim_db \<Rightarrow> issue \<Rightarrow> ident" where
  "swept_state db w =
     (if state_type_of db w = Some STARTED
      then (case first_state db (teamId w) UNSTARTED of Some s \<Rightarrow> wsId s | None \<Rightarrow> stateId w) else stateId w)"

definition sweep_writes :: "instant \<Rightarrow> issue \<Rightarrow> work_claim \<Rightarrow> claim_db \<Rightarrow> claim_db" where
  "sweep_writes now w c db =
     (let minutes = sweep_minutes now c;
          summary = ''Lease expired '' @ nat_text (nat minutes) @ '' min ago without renewal; the claim was released by the server.'';
          target = swept_state db w;
          db1 = end_claim now summary (issueId w) c db;
          db2 = update_issue (issueId w) (\<lambda>x. x\<lparr>stateId := target, revision := revision x + 1\<rparr>) db1;
          db3 = recordWorkAudit (Some \<lparr>actorId = None, actorKind = SERVICE, reason = Some summary, surface = Some ''system''\<rparr>)
            (Some w) (w\<lparr>stateId := target, revision := revision w + 1\<rparr>) (issueId w) db2;
          db4 = enqueue_event now ''work.claim_expired'' (issueId w)
            [(''expiredActorId'', JStr (clActorId c)), (''leaseUntil'', JNum (of_int (leaseUntil c))),
             (''overdueMinutes'', JNum (of_int minutes)), (''closedRuns'', JNum (of_nat (closed_runs c db))),
             (''returnedToReady'', JBool (target \<noteq> stateId w))] db3 in
      notify_all ''work.claim_expired'' (issueId w)
        (filter (\<lambda>u. u \<noteq> []) (js_uniq ((case assigneeId w of Some a \<Rightarrow> [a] | None \<Rightarrow> []) @ holder_and_owner db c))) db4)"

text \<open>One expired claim, in its own transaction; 0 when it was renewed or released meanwhile.\<close>

definition sweep_claim :: "instant \<Rightarrow> ident \<Rightarrow> claim_db \<Rightarrow> (kernel_error, nat \<times> claim_db) result" where
  "sweep_claim now cid db =
     (case find_row clId cid (claims db) of
        None \<Rightarrow> Inr (0, db)
      | Some c \<Rightarrow>
          if live now c then Inr (0, db)
          else case find_issue db (clWorkId c) of
            None \<Rightarrow> Inl (RecordNotFound (clWorkId c))
          | Some w \<Rightarrow> Inr (1, sweep_writes now w c db))"

fun sweep_each :: "instant \<Rightarrow> ident list \<Rightarrow> nat \<Rightarrow> claim_db \<Rightarrow> (kernel_error, nat) result \<times> claim_db" where
  "sweep_each now [] n db = (Inr n, db)"
| "sweep_each now (i # is) n db =
     (case sweep_claim now i db of
        Inl e \<Rightarrow> (Inl e, db)
      | Inr (k, db') \<Rightarrow> sweep_each now is (n + k) db')"

definition SWEEP_BATCH :: nat where
  "SWEEP_BATCH = 100"

definition expired_ids :: "instant \<Rightarrow> claim_db \<Rightarrow> ident list" where
  "expired_ids now db = map clId (List.take SWEEP_BATCH (sort_key leaseUntil (filter (\<lambda>c. leaseUntil c \<le> now) (claims db))))"

definition sweepExpiredClaims :: "instant \<Rightarrow> claim_db \<Rightarrow> (kernel_error, nat) result \<times> claim_db" where
  "sweepExpiredClaims now db = sweep_each now (expired_ids now db) 0 db"

end
