(* ===== verification/Claim_Safety.thy ===== *)
theory Claim_Safety
  imports Work_Claims
begin

text \<open>
  What the leases guarantee. The invariant \<open>claims_ok\<close> says that a work item has at most one
  claim and that an open run belongs to the present claim of its work and is not revoked; the
  relation \<open>runs_forward\<close> says that closed runs stay as they ended and revoked ones stay
  revoked. Both hold along any sequence of claiming, renewing, releasing and sweeping, whatever the clocks
  of the callers say.
\<close>

definition bound_to_claim :: "work_claim list \<Rightarrow> work_run \<Rightarrow> bool" where
  "bound_to_claim cs r \<longleftrightarrow>
     (\<exists>c \<in> set cs. runClaimId r = Some (clId c) \<and> clWorkId c = runWorkId r) \<and>
     claimSnapshotId r = runClaimId r \<and> executionRevokedAt r = None"

definition claims_ok :: "claim_db \<Rightarrow> bool" where
  "claims_ok db \<longleftrightarrow> unique_key clWorkId (claims db) \<and> unique_key clId (claims db) \<and>
     (\<forall>r \<in> set (runs db). is_open_run r \<longrightarrow> bound_to_claim (claims db) r)"

definition run_forward :: "work_run \<Rightarrow> work_run \<Rightarrow> bool" where
  "run_forward r r' \<longleftrightarrow> runId r' = runId r \<and> runWorkId r' = runWorkId r \<and> runTokenHash r' = runTokenHash r \<and>
     claimSnapshotId r' = claimSnapshotId r \<and> (runClaimId r' = runClaimId r \<or> runClaimId r' = None) \<and>
     (\<not> is_open_run r \<longrightarrow> runStatus r' = runStatus r \<and> runSummary r' = runSummary r) \<and>
     (executionRevokedAt r \<noteq> None \<longrightarrow> executionRevokedAt r' = executionRevokedAt r)"

definition runs_forward :: "claim_db \<Rightarrow> claim_db \<Rightarrow> bool" where
  "runs_forward db db' \<longleftrightarrow> list_all2 run_forward (runs db) (runs db')"

lemma run_forward_refl [simp]: "run_forward r r"
  by (simp add: run_forward_def)

lemma run_forward_trans: "run_forward a b \<Longrightarrow> run_forward b c \<Longrightarrow> run_forward a c"
  by (auto simp: run_forward_def is_open_run_def)

lemma runs_forward_refl [simp]: "runs_forward db db"
  by (simp add: runs_forward_def list_all2_refl)

lemma runs_forward_trans: "runs_forward a b \<Longrightarrow> runs_forward b c \<Longrightarrow> runs_forward a c"
  unfolding runs_forward_def by (rule list_all2_trans[of run_forward run_forward run_forward]) (auto intro: run_forward_trans)

lemma update_rows_forward:
  "(\<And>r. P r \<Longrightarrow> run_forward r (f r)) \<Longrightarrow> list_all2 run_forward rs (update_rows P f rs)"
  by (auto simp: update_rows_def list_all2_conv_all_nth)

lemma forward_steps [simp]:
  "is_open_run r \<Longrightarrow> run_forward r (fail_run now s r)"
  "executionRevokedAt r = None \<Longrightarrow> run_forward r (revoke_run now r)"
  "run_forward r (r\<lparr>runClaimId := None\<rparr>)"
  by (auto simp: run_forward_def fail_run_def revoke_run_def is_open_run_def)

lemma update_runs_forward: "(\<And>r. P r \<Longrightarrow> run_forward r (f r)) \<Longrightarrow> runs_forward db (update_runs P f db)"
  by (simp add: runs_forward_def update_runs_def update_rows_forward)

lemma delete_claims_forward: "runs_forward db (delete_claims P db)"
  by (simp add: runs_forward_def delete_claims_def Let_def update_rows_forward)

lemma supersede_forward: "runs_forward db (supersede_runs now w db)"
  unfolding supersede_runs_def
  by (rule runs_forward_trans; rule update_runs_forward) auto

lemma end_claim_forward: "runs_forward db (end_claim now s w c db)"
  unfolding end_claim_def
  by (rule runs_forward_trans[OF runs_forward_trans delete_claims_forward]; rule update_runs_forward) auto

section \<open>Single claims\<close>

lemma claim_of_work:
  "claims_ok db \<Longrightarrow> c \<in> set (claims db) \<Longrightarrow> find_claim db (clWorkId c) = Some c"
  by (simp add: claims_ok_def find_claim_def find_row_unique)

lemma find_claimD: "find_claim db w = Some c \<Longrightarrow> c \<in> set (claims db) \<and> clWorkId c = w"
  by (auto simp: find_claim_def dest: find_row_Some)

lemma claim_id_unique:
  "claims_ok db \<Longrightarrow> c \<in> set (claims db) \<Longrightarrow> d \<in> set (claims db) \<Longrightarrow> clId c = clId d \<Longrightarrow> c = d"
  by (metis claims_ok_def find_row_unique option.inject)

lemma open_runD:
  assumes "claims_ok db" and "r \<in> set (runs db)" and "is_open_run r"
  obtains c where "c \<in> set (claims db)" and "runClaimId r = Some (clId c)" and "clWorkId c = runWorkId r"
    and "claimSnapshotId r = Some (clId c)" and "executionRevokedAt r = None"
  using assms unfolding claims_ok_def bound_to_claim_def by metis

lemma end_claim_claims: "claims (end_claim now s w c db) = filter (\<lambda>x. clId x \<noteq> clId c) (claims db)"
  by (simp add: end_claim_def delete_claims_def Let_def)

text \<open>The runs after a claim ended: an open one is an open one of another claim, unchanged.\<close>

lemma end_claim_open:
  assumes "claims_ok db" and "find_row clId (clId c) (claims db) = Some c"
    and "r' \<in> set (runs (end_claim now s w c db))" and "is_open_run r'"
  shows "r' \<in> set (runs db) \<and> runClaimId r' \<noteq> Some (clId c)"
proof -
  from assms(3) obtain r where r: "r \<in> set (runs db)"
    and r': "r' = (let r1 = (if runWorkId r = w \<and> claimSnapshotId r = Some (clId c) \<and> executionRevokedAt r = None
        then revoke_run now r else r);
      r2 = (if runClaimId r1 = Some (clId c) \<and> is_open_run r1 then fail_run now s r1 else r1) in
      if runClaimId r2 = Some (clId c) then r2\<lparr>runClaimId := None\<rparr> else r2)"
    using find_row_Some[OF assms(2)]
    by (auto simp: end_claim_def delete_claims_def update_runs_def update_rows_def Let_def)
  have op: "is_open_run r" "runClaimId r \<noteq> Some (clId c)"
    using assms(4) r' by (auto simp: Let_def is_open_run_def fail_run_def revoke_run_def split: if_splits)
  then have "claimSnapshotId r \<noteq> Some (clId c)" using open_runD[OF assms(1) r op(1)] by metis
  with op(2) r' have "r' = r" by (simp add: Let_def)
  with r op show ?thesis by simp
qed

lemma end_claim_ok:
  assumes "claims_ok db" and "find_row clId (clId c) (claims db) = Some c"
  shows "claims_ok (end_claim now s w c db)"
  unfolding claims_ok_def end_claim_claims
proof (intro conjI ballI impI)
  show "unique_key clWorkId (filter (\<lambda>x. clId x \<noteq> clId c) (claims db))"
    and "unique_key clId (filter (\<lambda>x. clId x \<noteq> clId c) (claims db))"
    using assms(1) by (auto simp: claims_ok_def intro: unique_key_filter)
  fix r' assume r': "r' \<in> set (runs (end_claim now s w c db))" "is_open_run r'"
  from end_claim_open[OF assms r'] have mem: "r' \<in> set (runs db)" "runClaimId r' \<noteq> Some (clId c)" by auto
  from assms(1) mem(1) r'(2) have "bound_to_claim (claims db) r'" by (auto simp: claims_ok_def)
  with mem(2) show "bound_to_claim (filter (\<lambda>x. clId x \<noteq> clId c) (claims db)) r'"
    by (auto simp: bound_to_claim_def)
qed

section \<open>Taking and renewing\<close>

definition no_live_claim :: "instant \<Rightarrow> claim_db \<Rightarrow> ident \<Rightarrow> bool" where
  "no_live_claim now db w \<longleftrightarrow> (\<forall>c. find_claim db w = Some c \<longrightarrow> \<not> live now c)"

lemma expired_of_work:
  assumes "claims_ok db" and "no_live_claim now db w" and "c \<in> set (claims db)"
  shows "expired_claim_of w now c \<longleftrightarrow> clWorkId c = w"
  using claim_of_work[OF assms(1,3)] assms(2) by (auto simp: expired_claim_of_def no_live_claim_def live_def not_less)

lemma supersede_claims [simp]: "claims (supersede_runs now w db) = claims db"
  by (simp add: supersede_runs_def)

lemma upsert_fresh:
  assumes "claims_ok db" and "no_live_claim now db (clWorkId row)"
  shows "\<exists>db2. upsertWorkClaim now False row (supersede_runs now (clWorkId row) db) = Inr (row, db2) \<and>
    claims db2 = filter (\<lambda>c. clWorkId c \<noteq> clWorkId row) (claims db) @ [row] \<and>
    runs db2 = runs (delete_claims (expired_claim_of (clWorkId row) now) (supersede_runs now (clWorkId row) db)) \<and>
    issues db2 = issues db"
proof -
  let ?d = "delete_claims (expired_claim_of (clWorkId row) now) (supersede_runs now (clWorkId row) db)"
  have f: "filter (\<lambda>c. \<not> expired_claim_of (clWorkId row) now c) (claims db) =
      filter (\<lambda>c. clWorkId c \<noteq> clWorkId row) (claims db)"
    using expired_of_work[OF assms] by (intro filter_cong) auto
  then have c: "claims ?d = filter (\<lambda>c. clWorkId c \<noteq> clWorkId row) (claims db)"
    by (simp add: delete_claims_def Let_def)
  then have "find_claim ?d (clWorkId row) = None" by (auto simp: find_claim_def find_row_None)
  moreover have "issues ?d = issues db" by (simp add: supersede_runs_def)
  ultimately show ?thesis by (simp add: upsertWorkClaim_def Let_def c)
qed

lemma upsert_renew:
  assumes "claims_ok db" and "find_claim db (clWorkId row) = Some c" and "live now c" and "clActorId c = clActorId row"
  shows "\<exists>db2. upsertWorkClaim now False row db = Inr (c\<lparr>leaseUntil := leaseUntil row\<rparr>, db2) \<and>
    claims db2 = update_rows (\<lambda>x. clWorkId x = clWorkId row) (\<lambda>x. x\<lparr>leaseUntil := leaseUntil row\<rparr>) (claims db) \<and>
    runs db2 = runs db \<and> issues db2 = issues db"
proof -
  let ?e = "expired_claim_of (clWorkId row) now"
  have none: "\<not> ?e x" if "x \<in> set (claims db)" for x
    using claim_of_work[OF assms(1) that] assms(2,3) by (auto simp: expired_claim_of_def live_def)
  then have "filter ?e (claims db) = []" "filter (\<lambda>x. \<not> ?e x) (claims db) = claims db"
    by (auto simp: filter_empty_conv filter_id_conv)
  then have "claims (delete_claims ?e db) = claims db" "runs (delete_claims ?e db) = runs db"
    by (simp_all add: delete_claims_def Let_def update_rows_def)
  then show ?thesis using assms(2,4) by (simp add: upsertWorkClaim_def Let_def find_claim_def)
qed

lemma renew_ok:
  assumes "claims_ok db" and "claims db2 = update_rows P (\<lambda>x. x\<lparr>leaseUntil := l\<rparr>) (claims db)" and "runs db2 = runs db"
  shows "claims_ok db2"
proof -
  have wk: "map clWorkId (claims db2) = map clWorkId (claims db)" and ck: "map clId (claims db2) = map clId (claims db)"
    by (simp_all add: assms(2) update_rows_def)
  have "bound_to_claim (claims db2) r" if b: "bound_to_claim (claims db) r" for r
  proof -
    from b obtain c where c: "c \<in> set (claims db)" "runClaimId r = Some (clId c)" "clWorkId c = runWorkId r"
      by (auto simp: bound_to_claim_def)
    let ?c = "if P c then c\<lparr>leaseUntil := l\<rparr> else c"
    have "?c \<in> set (claims db2)" using c(1) by (simp add: assms(2) update_rows_def)
    moreover have "clId ?c = clId c" "clWorkId ?c = clWorkId c" by auto
    ultimately show ?thesis using b c unfolding bound_to_claim_def by metis
  qed
  with assms(1,3) wk ck show ?thesis by (simp add: claims_ok_def unique_key_def)
qed

lemma superseded_run:
  assumes "r' \<in> set (runs (delete_claims P (supersede_runs now w db)))"
  shows "\<exists>r \<in> set (runs db). runWorkId r' = runWorkId r \<and>
    (runWorkId r = w \<longrightarrow> \<not> is_open_run r' \<and> executionRevokedAt r' \<noteq> None) \<and>
    (runWorkId r \<noteq> w \<longrightarrow>
       r' = (if \<exists>c \<in> set (filter P (claims db)). runClaimId r = Some (clId c) then r\<lparr>runClaimId := None\<rparr> else r))"
proof -
  define g where "g = (\<lambda>r. let r1 = (if runWorkId r = w \<and> is_open_run r then fail_run now SUPERSEDED_SUMMARY r else r);
      r2 = (if runWorkId r1 = w \<and> executionRevokedAt r1 = None then revoke_run now r1 else r1) in
      if \<exists>c \<in> set (filter P (claims db)). runClaimId r2 = Some (clId c) then r2\<lparr>runClaimId := None\<rparr> else r2)"
  have "runs (delete_claims P (supersede_runs now w db)) = map g (runs db)"
    by (simp add: g_def supersede_runs_def delete_claims_def update_runs_def update_rows_def Let_def comp_def)
  with assms obtain r where r: "r \<in> set (runs db)" and r': "r' = g r" by auto
  note r' = r'[unfolded g_def]
  show ?thesis
  proof (rule bexI[OF _ r], intro conjI impI)
    show "runWorkId r' = runWorkId r" unfolding r' by (simp add: Let_def fail_run_def revoke_run_def)
    assume "runWorkId r = w"
    then show "\<not> is_open_run r'" and "executionRevokedAt r' \<noteq> None"
      unfolding r' by (auto simp: Let_def fail_run_def revoke_run_def is_open_run_def)
  next
    assume "runWorkId r \<noteq> w"
    then show "r' = (if \<exists>c \<in> set (filter P (claims db)). runClaimId r = Some (clId c) then r\<lparr>runClaimId := None\<rparr> else r)"
      unfolding r' by (auto simp: Let_def)
  qed
qed

lemma take_ok:
  assumes ok: "claims_ok db" and none: "no_live_claim now db (clWorkId row)" and fresh: "clId row \<notin> clId ` set (claims db)"
    and cl: "claims db2 = filter (\<lambda>c. clWorkId c \<noteq> clWorkId row) (claims db) @ [row]"
    and rn: "runs db2 = runs (delete_claims (expired_claim_of (clWorkId row) now) (supersede_runs now (clWorkId row) db))"
  shows "claims_ok db2"
  unfolding claims_ok_def
proof (intro conjI ballI impI)
  show "unique_key clWorkId (claims db2)" and "unique_key clId (claims db2)"
    using ok fresh by (auto simp: cl unique_key_snoc claims_ok_def intro: unique_key_filter)
  fix r' assume mem: "r' \<in> set (runs db2)" and op: "is_open_run r'"
  obtain r where r: "r \<in> set (runs db)"
    and own: "runWorkId r = clWorkId row \<longrightarrow> \<not> is_open_run r' \<and> executionRevokedAt r' \<noteq> None"
    and other: "runWorkId r \<noteq> clWorkId row \<longrightarrow> r' = (if \<exists>c \<in> set (filter (expired_claim_of (clWorkId row) now) (claims db)).
      runClaimId r = Some (clId c) then r\<lparr>runClaimId := None\<rparr> else r)"
    using superseded_run[OF mem[unfolded rn]] by (elim bexE conjE)
  from own op have ne: "runWorkId r \<noteq> clWorkId row" by blast
  note r' = mp[OF other ne]
  from op r' have "is_open_run r" by (auto simp: is_open_run_def split: if_splits)
  from ok r this obtain c where c: "c \<in> set (claims db)" "runClaimId r = Some (clId c)"
      "clWorkId c = runWorkId r" "claimSnapshotId r = Some (clId c)" "executionRevokedAt r = None"
    by (rule open_runD)
  have "\<not> (\<exists>d \<in> set (filter (expired_claim_of (clWorkId row) now) (claims db)). runClaimId r = Some (clId d))"
  proof
    assume "\<exists>d \<in> set (filter (expired_claim_of (clWorkId row) now) (claims db)). runClaimId r = Some (clId d)"
    then obtain d where d: "d \<in> set (claims db)" "clWorkId d = clWorkId row" "clId c = clId d"
      using c(2) by (auto simp: expired_claim_of_def)
    from claim_id_unique[OF ok c(1) d(1,3)] d(2) c(3) ne show False by simp
  qed
  with r' have "r' = r" by (simp only: if_False)
  with c ne show "bound_to_claim (claims db2) r'" by (auto simp: bound_to_claim_def cl)
qed

lemma find_claim_replaced:
  "find_row clWorkId w (filter (\<lambda>c. clWorkId c \<noteq> clWorkId row) cs @ [row]) =
     (if w = clWorkId row then Some row else find_row clWorkId w cs)"
  by (induction cs) (auto simp: find_row_def)

section \<open>The operations\<close>

lemma enqueue_ok [simp]: "claims_ok (enqueue_event now t w d db) = claims_ok db"
  by (simp add: claims_ok_def)

lemma notify_ok [simp]: "claims_ok (notify_all t w us db) = claims_ok db"
  by (simp add: claims_ok_def)

lemma update_issue_ok [simp]: "claims_ok (update_issue i g db) = claims_ok db"
  by (simp add: claims_ok_def)

lemma audit_ok [simp]: "claims_ok (recordWorkAudit a b c w db) = claims_ok db"
  by (simp add: claims_ok_def)

lemma complete_frame [simp]:
  "claims (completeWorkIdempotency i w x db) = claims db"
  "runs (completeWorkIdempotency i w x db) = runs db"
  "issues (completeWorkIdempotency i w x db) = issues db"
  "states (completeWorkIdempotency i w x db) = states db"
  "audits (completeWorkIdempotency i w x db) = audits db"
  by (simp_all add: completeWorkIdempotency_def)

lemma start_work_frame [simp]:
  "claims (snd (start_work w db)) = claims db"
  "runs (snd (start_work w db)) = runs db"
  "audits (snd (start_work w db)) = audits db"
  "issueId (fst (start_work w db)) = issueId w"
  by (simp_all add: start_work_def split: option.splits)

text \<open>Whether the actor has used the key for the operation on the team before: the call is then a replay.\<close>

definition key_used :: "claim_db \<Rightarrow> claim_actor \<Rightarrow> string \<Rightarrow> string \<Rightarrow> ident \<Rightarrow> bool" where
  "key_used db a operation key team \<longleftrightarrow>
     (\<exists>r \<in> set (idempotencies db). wiTeamId r = team \<and> wiActorKey r = idempotencyActorKey a \<and> wiOperation r = operation \<and> wiKey r = key)"

lemma reserve_created:
  assumes "reserveWorkIdempotency f a k op h t db = Inr ((created, rec), db1)"
  shows "created \<longleftrightarrow> \<not> key_used db a op k t" and "\<not> created \<Longrightarrow> db1 = db"
    and "reviewDecisions db1 = reviewDecisions db" and "evaluations db1 = evaluations db"
  using assms by (auto simp: reserveWorkIdempotency_def key_used_def Let_def find_None_iff find_Some_iff split: if_splits option.splits dest: nth_mem)

lemma reserve_frame:
  assumes "reserveWorkIdempotency f a k op h t db = Inr ((created, rec), db1)"
  shows "claims db1 = claims db" and "runs db1 = runs db" and "issues db1 = issues db" and "states db1 = states db"
    and "audits db1 = audits db" and "users db1 = users db"
  using assms by (auto simp: reserveWorkIdempotency_def Let_def split: if_splits option.splits)

lemma own_live_claim_cong: "claims db1 = claims db \<Longrightarrow> own_live_claim now a db1 w = own_live_claim now a db w"
  by (simp add: own_live_claim_def find_claim_def)

lemma claim_guards_lease:
  assumes "claim_guards sha now db w inp actor = Inr ()" and "own_live_claim now actor db w = None"
  shows "no_live_claim now db (issueId w)"
  using assms by (auto simp: claim_guards_def no_live_claim_def own_live_claim_def split: option.splits if_splits)

lemma lease_positive: "0 < lease_seconds l"
  by (simp add: lease_seconds_def DEFAULT_CLAIM_LEASE_SECONDS_def split: option.splits)

text \<open>What \<open>take_claim\<close> leaves: a live claim of the actor, alone on its work.\<close>

definition taken ::
  "(string \<Rightarrow> string) \<Rightarrow> instant \<Rightarrow> claim_db \<Rightarrow> claim_actor \<Rightarrow> issue \<Rightarrow> work_claim \<Rightarrow> string option \<Rightarrow> claim_db \<Rightarrow> bool" where
  "taken sha now db actor w c tok db' \<longleftrightarrow>
     claims_ok db' \<and> runs_forward db db' \<and> find_claim db' (issueId w) = Some c \<and>
     Some (clActorId c) = actorId actor \<and> live now c \<and>
     (actorKind actor = AGENT \<longrightarrow> truthy tok \<and> clTokenHash c = Some (sha (the tok))) \<and>
     (\<forall>v. v \<noteq> issueId w \<longrightarrow> find_claim db' v = find_claim db v) \<and>
     (case own_live_claim now actor db w of
        Some x \<Rightarrow> c = x\<lparr>leaseUntil := leaseUntil c\<rparr> \<and> runs db' = runs db
      | None \<Rightarrow> no_live_claim now db (issueId w) \<and>
          (\<forall>r \<in> set (runs db'). runWorkId r = issueId w \<longrightarrow> \<not> is_open_run r \<and> executionRevokedAt r \<noteq> None))"

lemma assertWorkToken_ok:
  "assertWorkToken sha h t = Inr u \<longleftrightarrow> truthy h \<and> truthy t \<and> h = Some (sha (the t))"
  by (cases h) (auto simp: assertWorkToken_def truthy_def)

lemma claim_guards_token:
  assumes "claim_guards sha now db w inp actor = Inr ()" and "own_live_claim now actor db w = Some x"
    and "actorKind actor = AGENT"
  shows "truthy (cwToken inp) \<and> clTokenHash x = Some (sha (the (cwToken inp)))"
  using assms by (auto simp: claim_guards_def assertWorkToken_ok)

lemma own_live_claimD:
  "own_live_claim now actor db w = Some x \<Longrightarrow>
     find_claim db (issueId w) = Some x \<and> live now x \<and> Some (clActorId x) = actorId actor"
  by (auto simp: own_live_claim_def split: option.splits if_splits)

lemma taken_cong:
  "claims db1 = claims db \<Longrightarrow> runs db1 = runs db \<Longrightarrow> taken sha now db1 a w c tok db' = taken sha now db a w c tok db'"
  by (simp add: taken_def own_live_claim_def find_claim_def no_live_claim_def runs_forward_def split: option.splits)

text \<open>The writes after the claim row touch nothing the leases depend on.\<close>

lemma after_claim_frame [simp]:
  "claims (snd (after_claim now w a i c db)) = claims db"
  "runs (snd (after_claim now w a i c db)) = runs db"
  "audits (snd (after_claim now w a i c db)) = audits db"
  "issueId (fst (after_claim now w a i c db)) = issueId w"
  by (simp_all add: after_claim_def Let_def split: prod.splits option.splits)
     (metis fst_conv snd_conv start_work_frame complete_frame)+

lemma take_claim_taken:
  assumes ok: "claims_ok db" and guards: "claim_guards sha now db0 w inp actor = Inr ()" and same: "claims db0 = claims db"
    and act: "truthy (actorId actor)" and fresh: "frClaimId fresh \<notin> clId ` set (claims db)" and tok: "frToken fresh \<noteq> []"
    and t: "take_claim sha fresh now w inp actor idem db = Inr ((c, w', tk), db')"
  shows "taken sha now db actor w c tk db' \<and> issueId w' = issueId w"
proof (cases "own_live_claim now actor db w")
  case None
  let ?row = "claim_row sha fresh now w inp actor None"
  have row: "clWorkId ?row = issueId w" "clId ?row = frClaimId fresh" "clActorId ?row = the (actorId actor)"
      "leaseUntil ?row = now + lease_seconds (cwLeaseSeconds inp) * 1000"
    by (simp_all add: claim_row_def Let_def)
  have "own_live_claim now actor db0 w = None" using None own_live_claim_cong[OF same] by simp
  from claim_guards_lease[OF guards this] have nl: "no_live_claim now db (issueId w)"
    by (simp add: no_live_claim_def find_claim_def same)
  from upsert_fresh[OF ok, of now ?row] nl row obtain db2 where
      u: "upsertWorkClaim now False ?row (supersede_runs now (issueId w) db) = Inr (?row, db2)"
    and cl: "claims db2 = filter (\<lambda>c. clWorkId c \<noteq> clWorkId ?row) (claims db) @ [?row]"
    and rn: "runs db2 = runs (delete_claims (expired_claim_of (clWorkId ?row) now) (supersede_runs now (clWorkId ?row) db))"
    by auto
  from t None u have eq: "c = ?row" "tk = claim_token fresh inp actor None" "claims db' = claims db2" "runs db' = runs db2"
      "issueId w' = issueId w"
    by (auto simp: take_claim_def)
  have "claims_ok db2" using take_ok[OF ok _ _ cl rn] nl fresh row by simp
  moreover have "runs_forward db db2"
    using runs_forward_trans[OF supersede_forward delete_claims_forward] rn by (simp add: runs_forward_def)
  moreover have "\<forall>r \<in> set (runs db2). runWorkId r = issueId w \<longrightarrow> \<not> is_open_run r \<and> executionRevokedAt r \<noteq> None"
    using superseded_run row(1) unfolding rn by metis
  moreover have "find_claim db' v = (if v = issueId w then Some ?row else find_claim db v)" for v
    using find_claim_replaced[of v ?row "claims db"] by (simp add: find_claim_def eq(3) cl row(1))
  moreover have "live now ?row" using lease_positive by (simp add: live_def row(4))
  moreover have "truthy tk \<and> clTokenHash ?row = Some (sha (the tk))" if "actorKind actor = AGENT"
    using that tok by (simp add: eq(2) claim_token_def claim_row_def truthy_def)
  moreover have "Some (clActorId ?row) = actorId actor" using act by (auto simp: row(3) truthy_def split: option.splits)
  ultimately show ?thesis using eq nl None unfolding taken_def claims_ok_def runs_forward_def by simp
next
  case (Some x)
  note x = own_live_claimD[OF Some]
  let ?row = "claim_row sha fresh now w inp actor (Some x)"
  have row: "clWorkId ?row = issueId w" "clActorId ?row = clActorId x"
      "leaseUntil ?row = now + lease_seconds (cwLeaseSeconds inp) * 1000"
    using arg_cong[OF conjunct2[OF conjunct2[OF x]], of the] by (simp_all add: claim_row_def Let_def)
  from upsert_renew[OF ok, of ?row x now] x row obtain db2 where
      u: "upsertWorkClaim now False ?row db = Inr (x\<lparr>leaseUntil := leaseUntil ?row\<rparr>, db2)"
    and cl: "claims db2 = update_rows (\<lambda>y. clWorkId y = clWorkId ?row) (\<lambda>y. y\<lparr>leaseUntil := leaseUntil ?row\<rparr>) (claims db)"
    and rn: "runs db2 = runs db"
    by auto
  from t Some u have eq: "c = x\<lparr>leaseUntil := leaseUntil ?row\<rparr>" "tk = claim_token fresh inp actor (Some x)"
      "claims db' = claims db2" "runs db' = runs db2" "issueId w' = issueId w"
    by (auto simp: take_claim_def Let_def)
  have "claims_ok db2" by (rule renew_ok[OF ok cl rn])
  moreover have "find_claim db2 v = map_option (\<lambda>y. if clWorkId y = issueId w then y\<lparr>leaseUntil := leaseUntil ?row\<rparr> else y) (find_claim db v)" for v
    unfolding find_claim_def cl row(1) by (rule find_row_update) simp
  moreover have "clTokenHash x = Some (sha (the (cwToken inp)))" "truthy (cwToken inp)" if "actorKind actor = AGENT"
    using claim_guards_token[OF guards _ that, of x] Some own_live_claim_cong[OF same, of now actor w] by auto
  moreover have "live now (x\<lparr>leaseUntil := leaseUntil ?row\<rparr>)" using lease_positive by (simp add: live_def row(3))
  moreover have "find_claim db' = find_claim db2" by (simp add: fun_eq_iff find_claim_def eq(3))
  moreover have "clWorkId x = issueId w" using x by (blast dest: find_claimD)
  moreover have "find_claim db v = Some y \<Longrightarrow> clWorkId y = v" for v y by (blast dest: find_claimD)
  ultimately show ?thesis using eq x Some rn
    unfolding taken_def claims_ok_def runs_forward_def claim_token_def
    by (auto simp: list_all2_refl intro!: option.map_ident_strong)
qed

lemma replay_taken:
  assumes ok: "claims_ok db" and guards: "claim_guards sha now db w inp actor = Inr ()"
    and own: "own_live_claim now actor db w = Some c" and same: "claims db' = claims db" "runs db' = runs db"
  shows "taken sha now db actor w c (cwToken inp) db'"
  using own_live_claimD[OF own] claim_guards_token[OF guards own] ok own same
  by (simp add: taken_def claims_ok_def runs_forward_def find_claim_def list_all2_refl)

lemma claimWork_taken:
  assumes ok: "claims_ok db" and fresh: "frClaimId fresh \<notin> clId ` set (claims db)" and tok: "frToken fresh \<noteq> []"
    and cw: "claimWork sha fresh now db i inp actor = Inr ((c, w', tk), db')"
  obtains w where "requireWork db i = Inr w" and "issueId w' = issueId w" and "taken sha now db actor w c tk db'"
proof -
  from cw obtain w where w: "requireWork db i = Inr w" and act: "truthy (actorId actor)"
    and guards: "claim_guards sha now db w inp actor = Inr ()"
    by (auto simp: claimWork_def split: if_splits)
  show thesis
  proof (cases "truthy (cwIdempotencyKey inp)")
    case False
    with cw w act guards have "take_claim sha fresh now w inp actor None db = Inr ((c, w', tk), db')"
      by (simp add: claimWork_def assertActorCan_def HUMAN_GATED_PERMISSIONS_def)
    from take_claim_taken[OF ok guards refl act fresh tok this] w that show thesis by blast
  next
    case True
    with cw w act guards obtain created rec db1 where
        res: "reserveWorkIdempotency (frIdempotencyId fresh) actor (the (cwIdempotencyKey inp)) ''claim''
          (hashIdempotencyRequest sha (claim_request inp w)) (teamId w) db = Inr ((created, rec), db1)"
      and rest: "(if created then take_claim sha fresh now w inp actor (Some (wiId rec)) db1
        else if wiWorkId rec \<noteq> Some (issueId w) then Inl (ValidationError ''WORK_IDEMPOTENCY_CONFLICT_MESSAGE'')
        else case own_live_claim now actor db1 w of
              None \<Rightarrow> Inl (ValidationError ''WORK_IDEMPOTENCY_RESULT_UNAVAILABLE_MESSAGE'')
            | Some c \<Rightarrow> Inr ((c, w, cwToken inp), db1)) = Inr ((c, w', tk), db')"
      by (auto simp: claimWork_def assertActorCan_def HUMAN_GATED_PERMISSIONS_def)
    note fr = reserve_frame[OF res]
    have own: "own_live_claim now actor db1 w = own_live_claim now actor db w" by (rule own_live_claim_cong[OF fr(1)])
    show thesis
    proof (cases created)
      case True
      with rest have t: "take_claim sha fresh now w inp actor (Some (wiId rec)) db1 = Inr ((c, w', tk), db')" by simp
      from ok fr have "claims_ok db1" by (simp add: claims_ok_def)
      from take_claim_taken[OF this guards fr(1)[symmetric] act _ tok t] fresh
      have "taken sha now db1 actor w c tk db' \<and> issueId w' = issueId w" by (simp add: fr(1))
      with taken_cong[OF fr(1,2)] w that show thesis by blast
    next
      case False
      with rest own have "own_live_claim now actor db w = Some c" "w' = w" "tk = cwToken inp" "db' = db1"
        by (auto split: if_splits option.splits)
      with replay_taken[OF ok guards _ fr(1,2)] w that show thesis by blast
    qed
  qed
qed

lemma release_writes_frame:
  "\<exists>s. claims (release_writes now why w c a db) = claims (end_claim now s (issueId w) c db) \<and>
     runs (release_writes now why w c a db) = runs (end_claim now s (issueId w) c db)"
  by (auto simp: release_writes_def Let_def)

lemma sweep_writes_frame:
  "\<exists>s. claims (sweep_writes now w c db) = claims (end_claim now s (issueId w) c db) \<and>
     runs (sweep_writes now w c db) = runs (end_claim now s (issueId w) c db)"
  by (auto simp: sweep_writes_def Let_def)

lemma releaseClaim_result:
  assumes "releaseClaim sha now db i why tok actor = Inr (a, db')"
  shows "\<exists>w c. requireWork db i = Inr w \<and> find_claim db (issueId w) = Some c \<and> a = (issueId w, clActorId c) \<and>
    db' = release_writes now (js_trim why) w c actor db \<and>
    (actorKind actor = HUMAN \<or> actorKind actor = AGENT \<and> Some (clActorId c) = actorId actor \<and> live now c \<and>
       truthy tok \<and> clTokenHash c = Some (sha (the tok)))"
  using assms by (auto simp: releaseClaim_def Let_def live_def assertWorkToken_ok split: option.splits if_splits)

lemma find_by_id: "claims_ok db \<Longrightarrow> c \<in> set (claims db) \<Longrightarrow> find_row clId (clId c) (claims db) = Some c"
  by (simp add: claims_ok_def find_row_unique)

lemma release_ok:
  assumes "claims_ok db" and "releaseClaim sha now db i why tok actor = Inr (a, db')"
  shows "claims_ok db'" and "runs_forward db db'"
proof -
  from releaseClaim_result[OF assms(2)] obtain w :: issue and c :: work_claim where c: "find_claim db (issueId w) = Some c"
    and d: "db' = release_writes now (js_trim why) w c actor db" by blast
  obtain s where
    e: "claims db' = claims (end_claim now s (issueId w) c db)" "runs db' = runs (end_claim now s (issueId w) c db)"
    using release_writes_frame[of now "js_trim why" w c actor db] unfolding d by blast
  from end_claim_ok[OF assms(1) find_by_id[OF assms(1)]] find_claimD[OF c]
  have "claims_ok (end_claim now s (issueId w) c db)" by blast
  then show "claims_ok db'" by (simp add: claims_ok_def e)
  show "runs_forward db db'" using end_claim_forward[of db now s "issueId w" c] by (simp add: runs_forward_def e)
qed

text \<open>A sweep of one identifier ends its claim if it is there and expired, and changes no lease otherwise.\<close>

lemma sweep_claim_result:
  assumes "sweep_claim now i db = Inr (n, db')"
  shows "(\<exists>c s w. find_row clId i (claims db) = Some c \<and> \<not> live now c \<and> n = 1 \<and>
      claims db' = claims (end_claim now s w c db) \<and> runs db' = runs (end_claim now s w c db)) \<or>
    ((\<forall>c. find_row clId i (claims db) = Some c \<longrightarrow> live now c) \<and> n = 0 \<and> db' = db)"
  using assms sweep_writes_frame[of now _ _ db]
  by (fastforce simp: sweep_claim_def split: option.splits if_splits)

lemma sweep_claim_ok:
  assumes "claims_ok db" and "sweep_claim now i db = Inr (n, db')"
  shows "claims_ok db' \<and> runs_forward db db'"
  using sweep_claim_result[OF assms(2)]
proof
  assume "\<exists>c s w. find_row clId i (claims db) = Some c \<and> \<not> live now c \<and> n = 1 \<and>
      claims db' = claims (end_claim now s w c db) \<and> runs db' = runs (end_claim now s w c db)"
  then obtain c s w where c: "find_row clId i (claims db) = Some c"
    and e: "claims db' = claims (end_claim now s w c db)" "runs db' = runs (end_claim now s w c db)" by blast
  from c have "find_row clId (clId c) (claims db) = Some c" by (auto dest: find_row_Some)
  from end_claim_ok[OF assms(1) this, of now s w] end_claim_forward[of db now s w c]
  show ?thesis by (simp add: claims_ok_def runs_forward_def e)
qed (use assms(1) in simp)

lemma sweep_each_ok:
  "claims_ok db \<Longrightarrow> sweep_each now is n db = (r, db') \<Longrightarrow> claims_ok db' \<and> runs_forward db db'"
proof (induction "is" arbitrary: n db)
  case (Cons i "is")
  show ?case
  proof (cases "sweep_claim now i db")
    case (Inl e)
    with Cons.prems show ?thesis by simp
  next
    case (Inr p)
    then obtain k d where p: "sweep_claim now i db = Inr (k, d)" by (cases p) auto
    with sweep_claim_ok[OF Cons.prems(1) p] Cons show ?thesis by (auto intro: runs_forward_trans)
  qed
qed simp

section \<open>Sequences of operations\<close>

inductive claim_step :: "(string \<Rightarrow> string) \<Rightarrow> claim_db \<Rightarrow> claim_db \<Rightarrow> bool" for sha where
  claims: "claimWork sha fresh now db i inp actor = Inr (a, db') \<Longrightarrow> frClaimId fresh \<notin> clId ` set (claims db) \<Longrightarrow>
    frToken fresh \<noteq> [] \<Longrightarrow> claim_step sha db db'"
| releases: "releaseClaim sha now db i why tok actor = Inr (a, db') \<Longrightarrow> claim_step sha db db'"
| sweeps: "sweepExpiredClaims now db = (r, db') \<Longrightarrow> claim_step sha db db'"

inductive_cases claim_stepE: "claim_step sha db db'"

lemma claim_step_ok:
  assumes "claims_ok db" and "claim_step sha db db'"
  shows "claims_ok db' \<and> runs_forward db db'"
  using assms(2)
proof cases
  case (claims fresh now i inp actor a)
  obtain c w tk where "a = (c, w, tk)" by (cases a) auto
  with claims(1) have cw: "claimWork sha fresh now db i inp actor = Inr ((c, w, tk), db')" by simp
  obtain w0 where "taken sha now db actor w0 c tk db'"
    using claimWork_taken[OF assms(1) claims(2,3) cw] by blast
  then show ?thesis by (simp add: taken_def)
qed (use release_ok[OF assms(1)] sweep_each_ok[OF assms(1)] in \<open>auto simp: sweepExpiredClaims_def\<close>)

interpretation claim_runs: step_system "claim_step sha" claims_ok runs_forward for sha
  by unfold_locales (auto dest: claim_step_ok intro: runs_forward_trans)

section \<open>The sweep\<close>

definition issue_ids :: "claim_db \<Rightarrow> ident set" where
  "issue_ids db = issueId ` set (issues db)"

lemma find_issue_known: "find_issue db i \<noteq> None \<longleftrightarrow> i \<in> issue_ids db"
  by (auto simp: find_issue_def issue_ids_def find_row_None)

lemma update_issue_ids: "(\<And>x. issueId (g x) = issueId x) \<Longrightarrow> issue_ids (update_issue i g db) = issue_ids db"
proof -
  assume "\<And>x. issueId (g x) = issueId x"
  then have "map issueId (issues (update_issue i g db)) = map issueId (issues db)"
    by (simp add: update_issue_def update_rows_def)
  then show ?thesis unfolding issue_ids_def by (metis list.set_map)
qed

lemma reopen_ids: "issue_ids (recordReopenIfAny w f t db) = issue_ids db"
proof -
  have "issue_ids (db\<lparr>reopens := x\<rparr>) = issue_ids db" for x by (simp add: issue_ids_def)
  then show ?thesis by (simp add: recordReopenIfAny_def update_issue_ids split: option.splits)
qed

lemma audit_ids: "issue_ids (recordWorkAudit a b c w db) = issue_ids db"
proof -
  have "issue_ids (db\<lparr>audits := x\<rparr>) = issue_ids db" for x by (simp add: issue_ids_def)
  then show ?thesis by (simp add: recordWorkAudit_def Let_def reopen_ids split: option.splits)
qed

lemma sweep_writes_ids: "issue_ids (sweep_writes now w c db) = issue_ids db"
proof -
  have "issue_ids (notify_all t w us d) = issue_ids d" "issue_ids (enqueue_event now t w e d) = issue_ids d"
    "issue_ids (end_claim now s v c d) = issue_ids d" for t w us d e s v c
    by (simp_all add: issue_ids_def end_claim_def)
  then show ?thesis by (simp add: sweep_writes_def Let_def audit_ids update_issue_ids)
qed

lemma sweep_each_all:
  assumes "claims_ok db" and "distinct (map clId L)" and "set L \<subseteq> set (claims db)" and "\<forall>c \<in> set L. \<not> live now c"
    and "clWorkId ` set (claims db) \<subseteq> issue_ids db"
  shows "\<exists>db'. sweep_each now (map clId L) n db = (Inr (n + length L), db') \<and>
    claims db' = filter (\<lambda>c. clId c \<notin> clId ` set L) (claims db)"
  using assms
proof (induction L arbitrary: n db)
  case (Cons c L)
  from Cons.prems have c: "c \<in> set (claims db)" "\<not> live now c" by auto
  from Cons.prems(5) c(1) obtain w where w: "find_issue db (clWorkId c) = Some w"
    using find_issue_known[of db "clWorkId c"] by auto
  let ?d = "sweep_writes now w c db"
  have sw: "sweep_claim now (clId c) db = Inr (1, ?d)"
    using find_by_id[OF Cons.prems(1) c(1)] c(2) w by (simp add: sweep_claim_def)
  have cl: "claims ?d = filter (\<lambda>x. clId x \<noteq> clId c) (claims db)"
    using sweep_writes_frame[of now w c db] by (auto simp: end_claim_claims)
  have "claims_ok ?d" using sweep_claim_ok[OF Cons.prems(1) sw] by simp
  moreover have "set L \<subseteq> set (claims ?d)"
  proof
    fix x assume x: "x \<in> set L"
    then have "clId x \<in> clId ` set L" by simp
    with Cons.prems(2) have "clId x \<noteq> clId c" by auto
    with x Cons.prems(3) show "x \<in> set (claims ?d)" by (auto simp: cl)
  qed
  moreover have "clWorkId ` set (claims ?d) \<subseteq> issue_ids ?d" using Cons.prems(5) by (auto simp: cl sweep_writes_ids)
  ultimately obtain db' where "sweep_each now (map clId L) (n + 1) ?d = (Inr (n + 1 + length L), db')"
      "claims db' = filter (\<lambda>x. clId x \<notin> clId ` set L) (claims ?d)"
    using Cons.IH[of ?d "n + 1"] Cons.prems(2,4) by auto
  then show ?case by (auto simp: sw cl intro!: filter_cong)
qed simp

section \<open>Properties\<close>

text \<open>
  C1: A claim is an exclusive, fenced lease. After a claim succeeded, the work has exactly the returned claim,
  it belongs to the caller and is live. If the work had a live claim before, it was the caller's own, it is
  kept, and an agent presented its token; otherwise every earlier run of the work is closed and
  revoked. An agent is handed the token whose digest the claim stores. Claims of other work are untouched.
\<close>

theorem lease_is_exclusive:
  assumes "claims_ok db" and "frClaimId fresh \<notin> clId ` set (claims db)" and "frToken fresh \<noteq> []"
    and "claimWork sha fresh now db i inp actor = Inr ((c, w, tk), db')"
  shows "find_claim db' (issueId w) = Some c \<and> Some (clActorId c) = actorId actor \<and> live now c \<and>
    (\<forall>x. find_claim db (issueId w) = Some x \<and> live now x \<longrightarrow>
       clId c = clId x \<and> clActorId c = clActorId x \<and> clTokenHash c = clTokenHash x \<and>
       (actorKind actor = AGENT \<longrightarrow> truthy (cwToken inp) \<and> clTokenHash x = Some (sha (the (cwToken inp))))) \<and>
    ((\<forall>x. find_claim db (issueId w) = Some x \<longrightarrow> \<not> live now x) \<longrightarrow>
       (\<forall>r \<in> set (runs db'). runWorkId r = issueId w \<longrightarrow> \<not> is_open_run r \<and> executionRevokedAt r \<noteq> None)) \<and>
    (actorKind actor = AGENT \<longrightarrow> truthy tk \<and> clTokenHash c = Some (sha (the tk))) \<and>
    (\<forall>v. v \<noteq> issueId w \<longrightarrow> find_claim db' v = find_claim db v)"
proof -
  obtain w0 where w0: "requireWork db i = Inr w0" "issueId w = issueId w0" and t: "taken sha now db actor w0 c tk db'"
    using claimWork_taken[OF assms] by blast
  from assms(4) w0(1) have guards: "claim_guards sha now db w0 inp actor = Inr ()"
    by (auto simp: claimWork_def split: if_splits)
  show ?thesis
  proof (cases "own_live_claim now actor db w0")
    case None
    with t w0(2) show ?thesis by (auto simp: taken_def no_live_claim_def)
  next
    case (Some x)
    note x = own_live_claimD[OF Some] claim_guards_token[OF guards Some]
    from t Some have c: "c = x\<lparr>leaseUntil := leaseUntil c\<rparr>" by (simp add: taken_def)
    have "clId c = clId x" "clActorId c = clActorId x" "clTokenHash c = clTokenHash x"
      using arg_cong[OF c, of clId] arg_cong[OF c, of clActorId] arg_cong[OF c, of clTokenHash] by simp_all
    with t x w0(2) show ?thesis by (auto simp: taken_def)
  qed
qed

text \<open>
  Along any sequence of claims, renewals, releases and sweeps, whatever the callers' clocks say, a work
  item has at most one claim, an open run belongs to the present claim of its work and is not
  revoked, and no run is lost: a closed run keeps its status and summary, and a revoked execution stays
  revoked.
\<close>

lemma executions_stay_fenced:
  assumes "claims_ok db" and "(claim_step sha)\<^sup>*\<^sup>* db db'"
  shows "distinct (map clWorkId (claims db')) \<and>
    (\<forall>r \<in> set (runs db'). is_open_run r \<longrightarrow>
       (\<exists>c. find_claim db' (runWorkId r) = Some c \<and> runClaimId r = Some (clId c) \<and> executionRevokedAt r = None)) \<and>
    list_all2 run_forward (runs db) (runs db')"
proof -
  have ok: "claims_ok db'" by (rule claim_runs.run_inv[OF assms(2,1)])
  have "\<exists>c. find_claim db' (runWorkId r) = Some c \<and> runClaimId r = Some (clId c) \<and> executionRevokedAt r = None"
    if "r \<in> set (runs db')" "is_open_run r" for r
    using open_runD[OF ok that] claim_of_work[OF ok] by metis
  with ok claim_runs.run_mono[OF assms(2,1)] show ?thesis
    by (auto simp: claims_ok_def unique_key_def runs_forward_def)
qed

text \<open>
  C13: One sweep ends every lease that ran out, when there are at most a hundred: it succeeds, counts them,
  leaves exactly the live claims, and every run that is still open afterwards holds a live claim.
\<close>

theorem sweep_ends_expired:
  assumes "claims_ok db" and "clWorkId ` set (claims db) \<subseteq> issue_ids db"
    and "length (filter (\<lambda>c. leaseUntil c \<le> now) (claims db)) \<le> 100"
  shows "\<exists>db'. sweepExpiredClaims now db = (Inr (length (filter (\<lambda>c. leaseUntil c \<le> now) (claims db))), db') \<and>
    claims db' = filter (live now) (claims db) \<and>
    (\<forall>r \<in> set (runs db'). is_open_run r \<longrightarrow> (\<exists>c \<in> set (claims db'). runClaimId r = Some (clId c) \<and> live now c))"
proof -
  let ?L = "sort_key leaseUntil (filter (\<lambda>c. leaseUntil c \<le> now) (claims db))"
  have L: "set ?L = {c \<in> set (claims db). \<not> live now c}" by (auto simp: live_def not_less)
  have ids: "expired_ids now db = map clId ?L" using assms(3) by (simp add: expired_ids_def SWEEP_BATCH_def)
  have "inj_on clId (set (claims db))" "distinct (claims db)"
    using assms(1) by (auto simp: claims_ok_def unique_key_def distinct_map)
  then have "distinct (map clId ?L)" by (simp add: distinct_map inj_on_def)
  with sweep_each_all[OF assms(1) this _ _ assms(2), of now 0] L obtain db' where
      sw: "sweep_each now (map clId ?L) 0 db = (Inr (length ?L), db')"
    and cl: "claims db' = filter (\<lambda>c. clId c \<notin> clId ` set ?L) (claims db)" by auto
  have "clId c \<in> clId ` set ?L \<longleftrightarrow> \<not> live now c" if "c \<in> set (claims db)" for c
    using that claim_id_unique[OF assms(1) that] unfolding L by blast
  then have "claims db' = filter (live now) (claims db)" unfolding cl by (intro filter_cong) auto
  moreover have "\<exists>c \<in> set (claims db'). runClaimId r = Some (clId c)" if "r \<in> set (runs db')" "is_open_run r" for r
    using sweep_each_ok[OF assms(1) sw] open_runD[of db' r] that by metis
  ultimately show ?thesis using sw by (fastforce simp: sweepExpiredClaims_def ids)
qed

lemma requireWork_row:
  assumes "unique_key issueId (issues db)" and "requireWork db i = Inr w"
  shows "find_issue db (issueId w) = Some w"
proof -
  from assms(2) have "w \<in> set (issues db)"
    by (auto simp: requireWork_def findWorkByIdOrIdentifier_def find_issue_def split: option.splits dest: find_row_Some)
  with find_row_unique[OF assms(1)] show ?thesis by (simp add: find_issue_def)
qed

lemma first_state_mem:
  assumes "first_state db team t = Some s"
  shows "s \<in> set (states db) \<and> wsType s = t"
proof -
  let ?L = "sort_key position (filter (\<lambda>s. wsTeamId s = team \<and> wsType s = t) (states db))"
  from assms obtain rs where "?L = s # rs" by (auto simp: first_state_def split: list.splits)
  then have "s \<in> set ?L" by (metis list.set_intros(1))
  then show ?thesis by simp
qed

text \<open>A claim that is taken (not a replay of an earlier call) writes what \<^const>\<open>take_claim\<close> writes.\<close>

definition claim_replays :: "claim_db \<Rightarrow> claim_work_input \<Rightarrow> claim_actor \<Rightarrow> issue \<Rightarrow> bool" where
  "claim_replays db inp a w \<longleftrightarrow> truthy (cwIdempotencyKey inp) \<and> key_used db a ''claim'' (the (cwIdempotencyKey inp)) (teamId w)"

lemma claimWork_takes:
  assumes "claimWork sha fresh now db i inp actor = Inr (ans, db')" and "requireWork db i = Inr x" and "\<not> claim_replays db inp actor x"
  obtains k d where "take_claim sha fresh now x inp actor k d = Inr (ans, db')" and "issues d = issues db" and "states d = states db"
    and "audits d = audits db"
proof (cases "truthy (cwIdempotencyKey inp)")
  case False
  with assms(1,2) that[of None db] show ?thesis by (auto simp: claimWork_def)
next
  case True
  with assms(1,2) obtain created rec d where
      res: "reserveWorkIdempotency (frIdempotencyId fresh) actor (the (cwIdempotencyKey inp)) ''claim''
        (hashIdempotencyRequest sha (claim_request inp x)) (teamId x) db = Inr ((created, rec), d)"
    and rest: "created \<longrightarrow> take_claim sha fresh now x inp actor (Some (wiId rec)) d = Inr (ans, db')"
    by (auto simp: claimWork_def split: if_splits)
  have "created" using reserve_created(1)[OF res] assms(3) True by (simp add: claim_replays_def)
  with rest reserve_frame[OF res] show ?thesis by (intro that[of "Some (wiId rec)" d]) auto
qed

lemma take_claim_starts:
  assumes "take_claim sha fresh now x inp actor k d = Inr ((c, w, tk), db')" and "state_type_of d x \<in> {Some UNSTARTED, Some BACKLOG}"
    and "first_state d (teamId x) STARTED = Some s"
  shows "w = x\<lparr>stateId := wsId s\<rparr>" and "issues db' = update_rows (\<lambda>y. issueId y = issueId x) (\<lambda>y. y\<lparr>stateId := wsId s\<rparr>) (issues d)"
    and "audits db' = audits d"
proof -
  have up: "audits d2 = audits d \<and> issues d2 = issues d \<and> states d2 = states d" if "upsertWorkClaim now False row d = Inr (y, d2)" for row d y d2
    using that by (auto simp: upsertWorkClaim_def delete_claims_def Let_def split: option.splits if_splits)
  from assms(1) obtain d2 where f: "audits d2 = audits d" "issues d2 = issues d" "states d2 = states d"
    and a: "w = fst (after_claim now x actor k c d2)" "db' = snd (after_claim now x actor k c d2)"
    by (auto simp: take_claim_def Let_def supersede_runs_def update_runs_def dest!: up split: if_splits)
  have st: "state_type_of e x = state_type_of d x" "first_state e (teamId x) STARTED = Some s" if "states e = states d" for e
    using assms(3) that by (simp_all add: state_type_of_def find_state_def first_state_def)
  have "start_work x e = (x\<lparr>stateId := wsId s\<rparr>, update_issue (issueId x) (\<lambda>y. y\<lparr>stateId := wsId s\<rparr>) e)" if "states e = states d" for e
    using st[OF that] assms(2) by (simp add: start_work_def)
  with f show "w = x\<lparr>stateId := wsId s\<rparr>" "audits db' = audits d"
    "issues db' = update_rows (\<lambda>y. issueId y = issueId x) (\<lambda>y. y\<lparr>stateId := wsId s\<rparr>) (issues d)"
    by (auto simp: a after_claim_def enqueue_event_def update_issue_def completeWorkIdempotency_def split: option.splits)
qed

text \<open>
  C37: A claim starts the work without a trace. Claiming work in the backlog or not yet started moves it to the first
  started state of its team, yet the stored row differs in its state alone: its revision is not raised, no audit row is
  written, and no other item changes.
\<close>

theorem claim_start_is_unaudited:
  assumes u: "unique_key issueId (issues db)" and cw: "claimWork sha fresh now db i inp actor = Inr ((c, w, tk), db')"
    and x: "requireWork db i = Inr x" and new: "\<not> claim_replays db inp actor x"
    and st: "state_type_of db x \<in> {Some UNSTARTED, Some BACKLOG}" and s: "first_state db (teamId x) STARTED = Some s"
  shows "w = x\<lparr>stateId := wsId s\<rparr> \<and> find_issue db' (issueId x) = Some (x\<lparr>stateId := wsId s\<rparr>) \<and> wsType s = STARTED \<and>
    audits db' = audits db \<and> (\<forall>v. v \<noteq> issueId x \<longrightarrow> find_issue db' v = find_issue db v)"
proof -
  obtain k d where t: "take_claim sha fresh now x inp actor k d = Inr ((c, w, tk), db')"
    and d: "issues d = issues db" "states d = states db" "audits d = audits db" by (rule claimWork_takes[OF cw x new])
  have "state_type_of d x = state_type_of db x" "first_state d (teamId x) STARTED = Some s"
    using s by (simp_all add: state_type_of_def find_state_def first_state_def d)
  with take_claim_starts[OF t] st have w: "w = x\<lparr>stateId := wsId s\<rparr>"
    and rows: "issues db' = update_rows (\<lambda>y. issueId y = issueId x) (\<lambda>y. y\<lparr>stateId := wsId s\<rparr>) (issues db)"
    and au: "audits db' = audits db" by (simp_all add: d)
  have find: "find_issue db' v = map_option (\<lambda>y. if issueId y = issueId x then y\<lparr>stateId := wsId s\<rparr> else y) (find_issue db v)" for v
    unfolding find_issue_def rows by (rule find_row_update) simp
  have "wsType s = STARTED" using first_state_mem[OF s] by simp
  moreover have "find_issue db v = map_option (\<lambda>y. if issueId y = issueId x then y\<lparr>stateId := wsId s\<rparr> else y) (find_issue db v)"
    if "v \<noteq> issueId x" for v
    using that by (cases "find_issue db v") (auto simp: find_issue_def dest: find_row_Some)
  ultimately show ?thesis using w au find requireWork_row[OF u x] by simp
qed

section \<open>A lease that ran out and is taken over\<close>

definition lease_work :: issue where
  "lease_work = \<lparr>issueId = ''w'', issueIdentifier = ''W-1'', title = ''T'', kind = ISSUE, teamId = ''t'', stateId = ''ready'',
     assigneeId = Some ''h'', parentId = None, priority = 0, commitmentStatus = COMMITTED, revision = 1,
     acceptance = Some ''works'', repository = None, resolution = None, supersededById = None, reopenCount = 0\<rparr>"

definition lease_run :: work_run where
  "lease_run =
     \<lparr>runId = ''r'', publicId = ''RUN-1'', runWorkId = ''w'', runActorId = Some ''a'', runClaimId = Some ''c'',
      claimSnapshotId = Some ''c'', runStatus = RUNNING, runTokenHash = Some ''x'', executionRevokedAt = None,
      contractRevision = None, acceptanceDigest = None, runRepository = None,
      commitSha = None, pullRequestNumber = None, startedAt = 10, endedAt = None, runSummary = None,
      runPhase = None, runExternalUrl = None, runExecutionId = None, baseRevision = None, runFollowups = None,
      scheduleRound = None, lastActivityAt = 10, staleNotifiedAt = None\<rparr>"

definition lease_db :: claim_db where
  "lease_db = \<lparr>issues = [lease_work], links = [],
     states = [\<lparr>wsId = ''ready'', wsType = UNSTARTED, wsTeamId = ''t'', position = 1\<rparr>,
               \<lparr>wsId = ''doing'', wsType = STARTED, wsTeamId = ''t'', position = 2\<rparr>],
     audits = [], reopens = [], workNotes = [], teamRows = [''t''], policies = [], fieldDefinitions = [],
     agentTrusts = [], opsAudits = [], users = [sample_user ''h'' HUMAN, sample_user ''a'' AGENT, sample_user ''b'' AGENT],
     memberships = [], credentials = [], requests = [],
     comments = [], evidences = [], events = [], notifications = [], archivedTeams = [], shares = [],
     columnRows = [], packages = [],
     claims = [\<lparr>clId = ''c'', clWorkId = ''w'', clActorId = ''a'', clTokenHash = Some ''x'', clExecutionId = None, leaseUntil = 100\<rparr>],
     runs = [lease_run], runEvidences = [], reviewDecisions = [], evaluations = [], idempotencies = [],
     workEvents = [], workNotices = [], schedules = [], receipts = [], runSequence = 1\<rparr>"

definition agent_b :: claim_actor where
  "agent_b = \<lparr>actorId = Some ''b'', actorKind = AGENT, reason = None, surface = None, agentCredentialId = None\<rparr>"

definition plain_input :: claim_work_input where
  "plain_input = \<lparr>cwToken = None, cwExecutionId = None, cwIdempotencyKey = None, cwLeaseSeconds = Some 60\<rparr>"

definition new_claim :: claim_fresh where
  "new_claim = \<lparr>frClaimId = ''d'', frExecutionId = ''e'', frToken = ''tok'', frIdempotencyId = ''i''\<rparr>"

lemma lease_db_ok: "claims_ok lease_db"
  by code_simp

lemma lease_db_claim: "is_ok (claimWork (\<lambda>s. s) new_claim 200 lease_db ''w'' plain_input agent_b)"
  by code_simp

theorem lease_is_exclusive_witness:
  "\<exists>c w tk db'. claimWork (\<lambda>s. s) new_claim 200 lease_db ''w'' plain_input agent_b = Inr ((c, w, tk), db') \<and>
     find_claim db' (issueId w) = Some c \<and> clActorId c = ''b''"
proof -
  obtain c w tk db' where cw: "claimWork (\<lambda>s. s) new_claim 200 lease_db ''w'' plain_input agent_b = Inr ((c, w, tk), db')"
    using lease_db_claim by (cases "claimWork (\<lambda>s. s) new_claim 200 lease_db ''w'' plain_input agent_b") auto
  have "frClaimId new_claim \<notin> clId ` set (claims lease_db)" "frToken new_claim \<noteq> []"
    by (simp_all add: new_claim_def lease_db_def)
  from lease_is_exclusive[OF lease_db_ok this cw] cw show ?thesis by (auto simp: agent_b_def)
qed

theorem sweep_ends_expired_witness:
  "\<exists>db'. sweepExpiredClaims 200 lease_db = (Inr 1, db') \<and> claims db' = []"
  using sweep_ends_expired[OF lease_db_ok, of 200] by (auto simp: lease_db_def issue_ids_def lease_work_def live_def)

theorem claim_start_is_unaudited_witness:
  "\<exists>c w tk db'. claimWork (\<lambda>s. s) new_claim 200 lease_db ''w'' plain_input agent_b = Inr ((c, w, tk), db') \<and>
     find_issue db' ''w'' = Some (lease_work\<lparr>stateId := ''doing''\<rparr>) \<and> stateId lease_work = ''ready'' \<and> audits db' = []"
proof -
  obtain c w tk db' where cw: "claimWork (\<lambda>s. s) new_claim 200 lease_db ''w'' plain_input agent_b = Inr ((c, w, tk), db')"
    using lease_db_claim by (cases "claimWork (\<lambda>s. s) new_claim 200 lease_db ''w'' plain_input agent_b") auto
  let ?s = "\<lparr>wsId = ''doing'', wsType = STARTED, wsTeamId = ''t'', position = 2\<rparr>"
  have "unique_key issueId (issues lease_db)" "requireWork lease_db ''w'' = Inr lease_work" "\<not> claim_replays lease_db plain_input agent_b lease_work"
    "state_type_of lease_db lease_work \<in> {Some UNSTARTED, Some BACKLOG}" "first_state lease_db (teamId lease_work) STARTED = Some ?s"
    by (simp_all add: lease_db_def lease_work_def requireWork_def findWorkByIdOrIdentifier_def find_issue_def find_row_def claim_replays_def
        plain_input_def truthy_def state_type_of_def find_state_def first_state_def)
  note claim_start_is_unaudited[OF this(1) cw this(2-5)]
  with cw show ?thesis by (auto simp: lease_work_def lease_db_def)
qed

end
