(* ===== verification/Work_Runs.thy ===== *)
theory Work_Runs
  imports Claim_Safety Cron
begin

text \<open>
  Executions of claimed work: the report that opens, moves and ends a run
  (\<^verbatim>\<open>run-service-report.ts\<close> with \<^verbatim>\<open>run-service-shared.ts\<close>, \<^verbatim>\<open>late-run.ts\<close>, \<^verbatim>\<open>run-followups.ts\<close>,
  \<^verbatim>\<open>decision-receipt.ts\<close> and the recipients of \<^verbatim>\<open>notification-service.ts\<close>), the evidence
  attached to one (\<^verbatim>\<open>run-service-evidence.ts\<close>) and its liveness (\<^verbatim>\<open>run-staleness.ts\<close>). A report
  is one serialised transaction at one instant. A field of a request that may be absent, null or a
  value is an option of an option; an absent one is no key of the request that is hashed. Times inside
  texts and event data are numbers. The run's frozen contract text and the timestamp of its optimistic
  guard, which cannot fail in a serialised transaction, are left out.
\<close>

section \<open>Statuses\<close>

text \<open>A condition on a value that may be absent, false when it is.\<close>

definition holds :: "('a \<Rightarrow> bool) \<Rightarrow> 'a option \<Rightarrow> bool" where
  "holds P v = (case v of None \<Rightarrow> False | Some x \<Rightarrow> P x)"

lemma holds_iff: "holds P v \<longleftrightarrow> (\<exists>x. v = Some x \<and> P x)"
  by (simp add: holds_def split: option.splits)

definition TERMINAL_RUN_STATUSES :: "run_status list" where
  "TERMINAL_RUN_STATUSES = [RUN_COMPLETED, RUN_FAILED]"

fun ALLOWED_RUN_TRANSITIONS :: "run_status \<Rightarrow> run_status list" where
  "ALLOWED_RUN_TRANSITIONS QUEUED = [RUNNING, BLOCKED, RUN_COMPLETED, RUN_FAILED]"
| "ALLOWED_RUN_TRANSITIONS RUNNING = [BLOCKED, RUN_COMPLETED, RUN_FAILED]"
| "ALLOWED_RUN_TRANSITIONS BLOCKED = [RUNNING, RUN_COMPLETED, RUN_FAILED]"
| "ALLOWED_RUN_TRANSITIONS RUN_COMPLETED = []"
| "ALLOWED_RUN_TRANSITIONS RUN_FAILED = []"

definition parseRunStatus :: "string option \<Rightarrow> (kernel_error, run_status option) result" where
  "parseRunStatus v =
     (if \<not> truthy v then Inr None
      else case find (\<lambda>s. run_status_text s = js_upper (js_trim (the v))) [QUEUED, RUNNING, BLOCKED, RUN_COMPLETED, RUN_FAILED] of
        None \<Rightarrow> Inl (ValidationError ''WORK_RUN_STATUS_INVALID_MESSAGE'')
      | Some s \<Rightarrow> Inr (Some s))"

definition eventTypeForRun :: "bool \<Rightarrow> run_status \<Rightarrow> bool \<Rightarrow> string option" where
  "eventTypeForRun isNew status decisionRequested =
     (if decisionRequested then Some ''decision.requested''
      else if status = RUN_COMPLETED then Some ''run.completed''
      else if status = BLOCKED then Some ''run.blocked''
      else if isNew then Some ''run.started'' else None)"

section \<open>Requests\<close>

record receipt_reference_input =
  riKind :: string
  riRef :: string
  riVersion :: "string option"
  riDigest :: "string option"
  riExcerpt :: "string option"

record receipt_input =
  rcReasoning :: string
  rcEvidence :: "receipt_reference_input list"
  rcInputs :: "receipt_reference_input list"
  rcRuntime :: "string option"
  rcActorId :: "ident option"

record report_run_input =
  rpWorkId :: string
  rpRunId :: "string option"
  rpStatus :: "string option"
  rpClaimToken :: "string option"
  rpReceipt :: "receipt_input option"
  rpCommitSha :: "string option option"
  rpPullRequestNumber :: "rat option option"
  rpPhase :: "string option option"
  rpSummary :: "string option option"
  rpExternalUrl :: "string option option"
  rpDecisionRequested :: bool
  rpIdempotencyKey :: "string option"
  rpFollowups :: "run_followups option"
  rpScheduleRound :: "rat option"

definition SHA_PATTERN :: "string \<Rightarrow> bool" where
  "SHA_PATTERN s \<longleftrightarrow> length s = 40 \<and> list_all (\<lambda>c. is_digit c \<or> (CHR ''a'' \<le> c \<and> c \<le> CHR ''f'')) s"

fun followupsJson :: "run_followups \<Rightarrow> json" where
  "followupsJson (FollowupWork ids names) = JObj [(''workIds'', JArr (map JStr ids)), (''identifiers'', JArr (map JStr names))]"
| "followupsJson (NoFollowups r) = JObj [(''noneReason'', JStr r)]"

definition reference_json :: "receipt_reference_input \<Rightarrow> json" where
  "reference_json r = JObj [(''kind'', JStr (riKind r)), (''ref'', JStr (riRef r)), (''version'', opt_json (riVersion r)),
     (''digest'', opt_json (riDigest r)), (''excerpt'', opt_json (riExcerpt r))]"

definition receipt_json :: "receipt_input \<Rightarrow> json" where
  "receipt_json r = JObj [(''reasoning'', JStr (rcReasoning r)), (''evidence'', JArr (map reference_json (rcEvidence r))),
     (''inputs'', JArr (map reference_json (rcInputs r))), (''runtime'', opt_json (rcRuntime r)), (''actorId'', opt_json (rcActorId r))]"

definition given :: "string \<Rightarrow> ('a \<Rightarrow> json) \<Rightarrow> 'a option option \<Rightarrow> (string \<times> json) list" where
  "given k f v = (case v of None \<Rightarrow> [] | Some None \<Rightarrow> [(k, JNull)] | Some (Some x) \<Rightarrow> [(k, f x)])"

definition present :: "string \<Rightarrow> ('a \<Rightarrow> json) \<Rightarrow> 'a option \<Rightarrow> (string \<times> json) list" where
  "present k f v = given k f (map_option Some v)"

text \<open>The request that a key is bound to: every field of the report but the key.\<close>

definition report_request :: "report_run_input \<Rightarrow> json" where
  "report_request inp =
      JObj ([(''workId'', JStr (rpWorkId inp)), (''idempotencyKey'', JNull), (''decisionRequested'', JBool (rpDecisionRequested inp))] @
        present ''runId'' JStr (rpRunId inp) @ present ''status'' JStr (rpStatus inp) @ present ''claimToken'' JStr (rpClaimToken inp) @
        present ''receipt'' receipt_json (rpReceipt inp) @ given ''commitSha'' JStr (rpCommitSha inp) @
        given ''pullRequestNumber'' JNum (rpPullRequestNumber inp) @ given ''phase'' JStr (rpPhase inp) @
        given ''summary'' JStr (rpSummary inp) @ given ''externalUrl'' JStr (rpExternalUrl inp) @
        present ''followups'' followupsJson (rpFollowups inp) @ present ''scheduleRound'' JNum (rpScheduleRound inp))"

definition RUN_FOLLOWUPS_REQUIRED_FROM :: instant where
  "RUN_FOLLOWUPS_REQUIRED_FROM = 1794873600000"

definition followupsRequired :: "instant \<Rightarrow> bool" where
  "followupsRequired now \<longleftrightarrow> RUN_FOLLOWUPS_REQUIRED_FROM \<le> now"

text \<open>Each follow-up is linked to the work the run finished, unless the link is there already.\<close>

definition linkFollowups :: "ident list \<Rightarrow> run_followups \<Rightarrow> ident \<Rightarrow> ident option \<Rightarrow> claim_db \<Rightarrow> claim_db" where
  "linkFollowups newIds f workId by db =
     (case f of
        NoFollowups r \<Rightarrow> db
      | FollowupWork ids names \<Rightarrow>
          let linked = (\<lambda>i. \<exists>l \<in> set (links db). fromId l = i \<and> toId l = workId \<and> linkType l = DISCOVERED_DURING);
              new = filter (\<lambda>i. \<not> linked i) (js_uniq ids) in
          db\<lparr>links := links db @ map (\<lambda>(n, i). \<lparr>linkId = n, linkType = DISCOVERED_DURING, fromId = i, toId = workId, linkActorId = by\<rparr>)
                        (zip newIds new)\<rparr>)"

section \<open>Receipts\<close>

definition MAX_REASONING_LENGTH :: nat where "MAX_REASONING_LENGTH = 4000"
definition MAX_REFERENCES :: nat where "MAX_REFERENCES = 50"
definition MAX_EXCERPT_LENGTH :: nat where "MAX_EXCERPT_LENGTH = 2000"

definition trimmed_or_null :: "string option \<Rightarrow> string option" where
  "trimmed_or_null v = (case v of None \<Rightarrow> None | Some s \<Rightarrow> if js_trim s = [] then None else Some (js_trim s))"

definition normalizeReference :: "receipt_reference_input \<Rightarrow> (kernel_error, receipt_reference) result" where
  "normalizeReference inp =
     (let kind = js_trim (riKind inp); ref = js_trim (riRef inp); version = trimmed_or_null (riVersion inp);
          digest = trimmed_or_null (riDigest inp);
          excerpt = (if truthy (riExcerpt inp) then Some (List.take MAX_EXCERPT_LENGTH (the (riExcerpt inp))) else None) in
      if kind = [] \<or> ref = [] then Inl (ValidationError ''Each receipt reference needs a kind and a ref.'')
      else Inr \<lparr>rrKind = kind, rrRef = ref, rrVersion = version, rrDigest = digest, rrExcerpt = excerpt,
                rrPreserved = (version \<noteq> None \<or> digest \<noteq> None \<or> excerpt \<noteq> None)\<rparr>)"

definition normalizeReferences :: "receipt_reference_input list \<Rightarrow> (kernel_error, receipt_reference list) result" where
  "normalizeReferences inputs =
     (if length inputs > MAX_REFERENCES then Inl (ValidationError ''A receipt may carry at most 50 references.'')
      else map_result normalizeReference inputs)"

definition attachDecisionReceipt :: "nat \<Rightarrow> receipt_input \<Rightarrow> claim_db \<Rightarrow> (kernel_error, claim_db) result" where
  "attachDecisionReceipt audit inp db =
     (let reasoning = js_trim (rcReasoning inp) in
      bind_result (throw_if (reasoning = []) (ValidationError ''RECEIPT_REASONING_REQUIRED_MESSAGE'')) (\<lambda>_.
      if length (audits db) \<le> audit then Inl (ValidationError ''Receipt refers to an audit row that does not exist.'')
      else let row = audits db ! audit in
      bind_result (throw_if (\<not> truthy (auditActorId row))
        (ValidationError ''The audited write has no actor; a receipt cannot be attached to an anonymous write.'')) (\<lambda>_.
      bind_result (throw_if (truthy (rcActorId inp) \<and> rcActorId inp \<noteq> auditActorId row)
        (ValidationError ''RECEIPT_ACTOR_MISMATCH_MESSAGE'')) (\<lambda>_.
      bind_result (throw_if (\<exists>r \<in> set (receipts db). drAudit r = audit) (ValidationError ''RECEIPT_ALREADY_ATTACHED_MESSAGE'')) (\<lambda>_.
      bind_result (normalizeReferences (rcEvidence inp)) (\<lambda>es.
      bind_result (normalizeReferences (rcInputs inp)) (\<lambda>is.
      Inr (db\<lparr>receipts := receipts db @ [\<lparr>drAudit = audit, drActorId = the (auditActorId row),
             drContractRevision = revision (auditAfter row), drReasoning = List.take MAX_REASONING_LENGTH reasoning,
             drEvidence = es, drInputs = is, drRuntime = trimmed_or_null (rcRuntime inp)\<rparr>]\<rparr>))))))))"

section \<open>Late runs\<close>

definition LATE_RUN_WINDOW_MS :: int where
  "LATE_RUN_WINDOW_MS = 72 * 60 * 60000"

definition lateRunReason :: "string \<Rightarrow> instant \<Rightarrow> string" where
  "lateRunReason pid expiredAt =
     pid @ '' filed after the claim expired at '' @ nat_text (nat expiredAt) @
       '', while the work was already In Review (INV-1704).''"

text \<open>When the lease ended and, if the sweep has not removed it yet, the claim.\<close>

definition lateRunAllowance :: "instant \<Rightarrow> claim_db \<Rightarrow> issue \<Rightarrow> ident \<Rightarrow> (instant \<times> ident option) option" where
  "lateRunAllowance now db w actor =
     (let since = now - LATE_RUN_WINDOW_MS; cs = filter (\<lambda>c. clWorkId c = issueId w) (claims db) in
      if state_type_of db w \<noteq> Some REVIEW then None
      else if list_ex (live now) cs then None
      else case find (\<lambda>c. clActorId c = actor \<and> since < leaseUntil c) cs of
        Some c \<Rightarrow> Some (leaseUntil c, Some (clId c))
      | None \<Rightarrow>
          if cs \<noteq> [] then None
          else case rev (sort_key weCreatedAt (filter (\<lambda>e. weType e = ''work.claim_expired'' \<and> since \<le> weCreatedAt e \<and>
                   weWorkId e = issueId w) (workEvents db))) of
            [] \<Rightarrow> None
          | e # _ \<Rightarrow>
              (case (map_of (weData e) ''expiredActorId'', map_of (weData e) ''leaseUntil'') of
                 (Some (JStr a), Some (JNum t)) \<Rightarrow>
                   if a = actor \<and> since < \<lfloor>t\<rfloor> then Some (\<lfloor>t\<rfloor>, None) else None
               | _ \<Rightarrow> None))"

section \<open>Whom a report is about\<close>

definition findRun :: "claim_db \<Rightarrow> string \<Rightarrow> ident \<Rightarrow> work_run option" where
  "findRun db i w =
     (case find (\<lambda>r. runWorkId r = w \<and> publicId r = i) (runs db) of
        Some r \<Rightarrow> Some r
      | None \<Rightarrow> find (\<lambda>r. runWorkId r = w \<and> runId r = i) (runs db))"

text \<open>A person may end a run after the lease ran out; an agent needs a live one for every write.\<close>

definition report_claim ::
  "instant \<Rightarrow> run_status option \<Rightarrow> claim_actor \<Rightarrow> ident \<Rightarrow> (work_claim \<Rightarrow> bool) \<Rightarrow> claim_db \<Rightarrow> work_claim option" where
  "report_claim now status actor w P db =
     (let terminal = (\<exists>s \<in> set TERMINAL_RUN_STATUSES. status = Some s) in
      find (\<lambda>c. Some (clActorId c) = actorId actor \<and> P c \<and> clWorkId c = w \<and>
              (terminal \<and> actorKind actor \<noteq> AGENT \<or> live now c)) (claims db))"

definition open_run_of :: "work_claim \<Rightarrow> claim_db \<Rightarrow> work_run option" where
  "open_run_of c db =
     (case sort_key (\<lambda>r. - startedAt r) (filter (\<lambda>r. runClaimId r = Some (clId c) \<and> is_open_run r) (runs db)) of
        [] \<Rightarrow> None | r # _ \<Rightarrow> Some r)"

definition assert_run_scope :: "claim_db \<Rightarrow> issue \<Rightarrow> claim_actor \<Rightarrow> string \<Rightarrow> (kernel_error, unit) result" where
  "assert_run_scope db w actor i =
     (case find (\<lambda>r. publicId r = i \<or> is_uuid i \<and> runId r = i) (runs db) of
        None \<Rightarrow> Inr ()
      | Some r \<Rightarrow>
          if runWorkId r \<noteq> issueId w
          then Inl (ValidationError (''Work run '' @ i @ '' belongs to a different work item ('' @ runWorkId r @ '').''))
          else throw_if (runActorId r \<noteq> actorId actor) (ValidationError ''WORK_RUN_ACTOR_MISMATCH_MESSAGE''))"

record report_target =
  tgRun :: "work_run option"
  tgClaim :: "work_claim option"
  tgLate :: "(instant \<times> ident option) option"

definition report_target_of ::
  "instant \<Rightarrow> claim_db \<Rightarrow> issue \<Rightarrow> run_status option \<Rightarrow> string option \<Rightarrow> claim_actor \<Rightarrow> (kernel_error, report_target) result" where
  "report_target_of now db w status rid actor =
     (case (if truthy rid then findRun db (the rid) (issueId w) else None) of
        Some r \<Rightarrow> Inr \<lparr>tgRun = Some r, tgClaim = None, tgLate = None\<rparr>
      | None \<Rightarrow>
          bind_result (if truthy rid then assert_run_scope db w actor (the rid) else Inr ()) (\<lambda>_.
          let named = (if truthy rid \<and> is_uuid (the rid)
                then report_claim now status actor (issueId w) (\<lambda>c. clId c = the rid) db else None) in
          case (if named = None then report_claim now status actor (issueId w) (\<lambda>_. True) db else named) of
            Some c \<Rightarrow> Inr \<lparr>tgRun = open_run_of c db, tgClaim = Some c, tgLate = None\<rparr>
          | None \<Rightarrow>
              if truthy rid then Inl (NotFoundError ''WORK_RUN_NOT_FOUND_MESSAGE'')
              else case (if status = Some RUN_COMPLETED then lateRunAllowance now db w (the (actorId actor)) else None) of
                Some l \<Rightarrow> Inr \<lparr>tgRun = None, tgClaim = None, tgLate = Some l\<rparr>
              | None \<Rightarrow> Inl (ValidationError (if state_type_of db w = Some REVIEW \<and> status = Some RUN_COMPLETED
                  then ''LATE_RUN_REFUSED_MESSAGE'' else ''WORK_RUN_REQUIRES_ACTIVE_CLAIM_MESSAGE''))))"

text \<open>An agent proves the execution it reports for; a late run has no live lease to prove.\<close>

definition assert_execution ::
  "(string \<Rightarrow> string) \<Rightarrow> report_target \<Rightarrow> string option \<Rightarrow> claim_actor \<Rightarrow> (kernel_error, unit) result" where
  "assert_execution sha tg tok actor =
     (if actorKind actor \<noteq> AGENT \<or> tgLate tg \<noteq> None then Inr ()
      else let runHash = Option.bind (tgRun tg) runTokenHash; claimHash = Option.bind (tgClaim tg) clTokenHash in
        bind_result (assertWorkToken sha (if runHash = None then claimHash else runHash) tok) (\<lambda>_.
        throw_if (Option.bind (tgRun tg) executionRevokedAt \<noteq> None) (ValidationError ''This execution claim has been superseded.'')))"

section \<open>Writing the run\<close>

record report_fresh =
  rfRunId :: ident
  rfIdempotencyId :: ident
  rfLinkIds :: "ident list"
  rfGateActorId :: ident

text \<open>The follow-ups and the round a report stores with the run.\<close>

definition reported_followups :: "run_status option \<Rightarrow> report_run_input \<Rightarrow> run_followups option" where
  "reported_followups status inp = (if status = Some RUN_COMPLETED then rpFollowups inp else None)"

definition reported_round :: "report_run_input \<Rightarrow> int option" where
  "reported_round inp = map_option floor (rpScheduleRound inp)"

definition value_or_null :: "'a option option \<Rightarrow> 'a option" where
  "value_or_null v = (case v of Some x \<Rightarrow> x | None \<Rightarrow> None)"

definition end_time :: "run_status option \<Rightarrow> instant \<Rightarrow> instant option \<Rightarrow> instant option" where
  "end_time status now old = (if \<exists>s \<in> set TERMINAL_RUN_STATUSES. status = Some s then Some now else old)"

definition nextRunPublicId :: "claim_db \<Rightarrow> string \<times> claim_db" where
  "nextRunPublicId db = (''RUN-'' @ nat_text (Suc (runSequence db)), db\<lparr>runSequence := Suc (runSequence db)\<rparr>)"

definition new_run ::
  "(string \<Rightarrow> string) \<Rightarrow> ident \<Rightarrow> string \<Rightarrow> instant \<Rightarrow> claim_db \<Rightarrow> issue \<Rightarrow> run_status option \<Rightarrow> report_run_input \<Rightarrow> claim_actor \<Rightarrow> work_claim option \<Rightarrow> work_run" where
  "new_run sha fresh pid now db w status inp actor claim = (let frozen = snapshotContract sha (columns_of db w) w in
     \<lparr>runId = fresh, publicId = pid, runWorkId = issueId w, runActorId = actorId actor, runClaimId = map_option clId claim,
      claimSnapshotId = map_option clId claim, runStatus = (case status of Some s \<Rightarrow> s | None \<Rightarrow> RUNNING),
      runTokenHash = Option.bind claim clTokenHash, executionRevokedAt = None, contractRevision = Some (fst frozen),
      acceptanceDigest = Some (snd frozen), runRepository = repository w, commitSha = value_or_null (rpCommitSha inp),
      pullRequestNumber = map_option floor (value_or_null (rpPullRequestNumber inp)), startedAt = now,
      endedAt = end_time status now None, runSummary = value_or_null (rpSummary inp), runPhase = value_or_null (rpPhase inp),
      runExternalUrl = value_or_null (rpExternalUrl inp), runExecutionId = Option.bind claim clExecutionId,
      baseRevision = Some (revision w), runFollowups = reported_followups status inp, scheduleRound = reported_round inp,
      lastActivityAt = now, staleNotifiedAt = None\<rparr>)"

definition overwrite :: "'a option \<Rightarrow> 'a \<Rightarrow> 'a" where
  "overwrite v old = (case v of Some x \<Rightarrow> x | None \<Rightarrow> old)"

definition apply_report :: "instant \<Rightarrow> run_status option \<Rightarrow> report_run_input \<Rightarrow> work_run \<Rightarrow> work_run" where
  "apply_report now status inp r =
     r\<lparr>runStatus := overwrite status (runStatus r), commitSha := overwrite (rpCommitSha inp) (commitSha r),
       pullRequestNumber := overwrite (map_option (map_option floor) (rpPullRequestNumber inp)) (pullRequestNumber r),
       runPhase := overwrite (rpPhase inp) (runPhase r), runSummary := overwrite (rpSummary inp) (runSummary r),
       runExternalUrl := overwrite (rpExternalUrl inp) (runExternalUrl r),
       runFollowups := (if reported_followups status inp = None then runFollowups r else reported_followups status inp),
       scheduleRound := (if reported_round inp = None then scheduleRound r else reported_round inp),
       lastActivityAt := now, staleNotifiedAt := None, endedAt := end_time status now (endedAt r),
       runClaimId := (if status = Some RUN_COMPLETED then None else runClaimId r)\<rparr>"

definition target_changed :: "report_run_input \<Rightarrow> work_run \<Rightarrow> bool" where
  "target_changed inp r \<longleftrightarrow> holds (\<lambda>v. v \<noteq> commitSha r) (rpCommitSha inp) \<or>
     holds (\<lambda>v. map_option floor v \<noteq> pullRequestNumber r) (rpPullRequestNumber inp)"

definition recheck_evidence :: "instant \<Rightarrow> ident \<Rightarrow> claim_db \<Rightarrow> claim_db" where
  "recheck_evidence now i db =
     db\<lparr>runEvidences := update_rows (\<lambda>e. reRunId e = Some i \<and> verificationNextAt e \<noteq> None)
          (\<lambda>e. e\<lparr>verificationNextAt := Some now\<rparr>) (runEvidences db)\<rparr>"

definition open_run ::
  "(string \<Rightarrow> string) \<Rightarrow> report_fresh \<Rightarrow> instant \<Rightarrow> issue \<Rightarrow> run_status option \<Rightarrow> report_run_input \<Rightarrow> claim_actor \<Rightarrow> report_target \<Rightarrow>
   claim_db \<Rightarrow> (kernel_error, work_run \<times> claim_db) result" where
  "open_run sha fresh now w status inp actor tg db =
     bind_result (throw_if (tgClaim tg = None \<and> tgLate tg = None) (ValidationError ''WORK_RUN_REQUIRES_ACTIVE_CLAIM_MESSAGE'')) (\<lambda>_.
     let (pid, db1) = nextRunPublicId db; r = new_run sha (rfRunId fresh) pid now db w status inp actor (tgClaim tg) in
     Inr (r, db1\<lparr>runs := runs db1 @ [r]\<rparr>))"

text \<open>The claim a later report of a run is made under.\<close>

definition continuing_claim ::
  "instant \<Rightarrow> issue \<Rightarrow> run_status option \<Rightarrow> claim_actor \<Rightarrow> report_target \<Rightarrow> work_run \<Rightarrow> claim_db \<Rightarrow> (kernel_error, work_claim) result" where
  "continuing_claim now w status actor tg r db =
     (case tgClaim tg of
        Some c \<Rightarrow> Inr c
      | None \<Rightarrow>
          (case (if truthy (runClaimId r)
                 then report_claim now status actor (issueId w) (\<lambda>c. Some (clId c) = runClaimId r) db else None) of
             Some c \<Rightarrow> Inr c
           | None \<Rightarrow> Inl (ValidationError ''WORK_RUN_REQUIRES_ACTIVE_CLAIM_MESSAGE'')))"

definition move_run ::
  "instant \<Rightarrow> issue \<Rightarrow> run_status option \<Rightarrow> report_run_input \<Rightarrow> claim_actor \<Rightarrow> report_target \<Rightarrow> work_run \<Rightarrow> claim_db \<Rightarrow>
   (kernel_error, work_claim \<times> work_run \<times> claim_db) result" where
  "move_run now w status inp actor tg r db =
     bind_result (throw_if (runActorId r \<noteq> actorId actor) (ValidationError ''WORK_RUN_ACTOR_MISMATCH_MESSAGE'')) (\<lambda>_.
     bind_result (throw_if (runStatus r \<in> set TERMINAL_RUN_STATUSES)
       (ValidationError (if status \<noteq> None \<and> status \<noteq> Some (runStatus r)
          then ''WORK_RUN_TERMINAL_MESSAGE'' else ''WORK_RUN_TERMINAL_REPLAY_MESSAGE''))) (\<lambda>_.
     bind_result (continuing_claim now w status actor tg r db) (\<lambda>c.
     bind_result (throw_if (holds (\<lambda>s. s \<noteq> runStatus r \<and> s \<notin> set (ALLOWED_RUN_TRANSITIONS (runStatus r))) status)
       (ValidationError ''WORK_RUN_TRANSITION_INVALID_MESSAGE'')) (\<lambda>_.
     let db1 = update_runs (\<lambda>x. runId x = runId r) (apply_report now status inp) db in
     Inr (c, apply_report now status inp r, if target_changed inp r then recheck_evidence now (runId r) db1 else db1)))))"

section \<open>What a report does to the work\<close>

definition INCIDENT_LABEL_NAME :: string where
  "INCIDENT_LABEL_NAME = ''Incident''"

definition isIncidentWork :: "claim_db \<Rightarrow> issue \<Rightarrow> bool" where
  "isIncidentWork db w \<longleftrightarrow> (\<exists>l \<in> set (labelNames (columns_of db w)). js_lower l = js_lower INCIDENT_LABEL_NAME)"

text \<open>A state transition: the audit row it wrote, by position, and the work after it.\<close>

type_synonym transition = "nat option \<times> issue \<times> claim_db"

definition moveToInProgress :: "claim_actor \<Rightarrow> issue \<Rightarrow> claim_db \<Rightarrow> transition" where
  "moveToInProgress actor w db =
     (if state_type_of db w \<notin> {Some UNSTARTED, Some BACKLOG} then (None, w, db)
      else case first_state db (teamId w) STARTED of
        None \<Rightarrow> (None, w, db)
      | Some s \<Rightarrow>
          if count_rows (\<lambda>x. issueId x = issueId w \<and> stateId x = stateId w) (issues db) \<noteq> 1 then (None, w, db)
          else let w' = w\<lparr>stateId := wsId s\<rparr> in
            (Some (length (audits db)), w',
             recordWorkAudit (Some (write_actor.truncate actor)) (Some w) w' (issueId w)
               (update_issue (issueId w) (\<lambda>x. x\<lparr>stateId := wsId s\<rparr>) db)))"

text \<open>Submitting for review also lets the gate grade the work in the shadow.\<close>

definition moveToInReview ::
  "(string \<Rightarrow> string) \<Rightarrow> ident \<Rightarrow> instant \<Rightarrow> claim_actor \<Rightarrow> issue \<Rightarrow> claim_db \<Rightarrow> (kernel_error, transition) result" where
  "moveToInReview sha gate now actor w db =
     (if state_type_of db w \<in> {None, Some REVIEW, Some COMPLETED, Some CANCELED} then Inr (None, w, db)
      else case first_state db (teamId w) REVIEW of
        None \<Rightarrow> Inl (ValidationError ''WORK_REVIEW_STATE_MISSING_MESSAGE'')
      | Some s \<Rightarrow>
          if resolvedAt (columns_of db w) = None \<and> isIncidentWork db w
          then Inl (ValidationError ''INCIDENT_REVIEW_NEEDS_RESOLVED_MESSAGE'')
          else if count_rows (\<lambda>x. issueId x = issueId w \<and> revision x = revision w \<and> stateId x = stateId w) (issues db) \<noteq> 1
          then (case find_issue db (issueId w) of
                  None \<Rightarrow> Inl (RecordNotFound (issueId w))
                | Some x \<Rightarrow> if state_type_of db x \<in> {Some REVIEW, Some COMPLETED, Some CANCELED} then Inr (None, x, db)
                            else Inl (ValidationError ''WORK_RUN_CONFLICT_MESSAGE''))
          else let w' = w\<lparr>stateId := wsId s, revision := revision w + 1\<rparr>;
                   db1 = update_issue (issueId w) (\<lambda>x. x\<lparr>stateId := wsId s, revision := revision x + 1\<rparr>) db;
                   db2 = recordWorkAudit (Some (write_actor.truncate actor)) (Some w) w' (issueId w) db1;
                   db3 = enqueue_event now ''work.review_submitted'' (issueId w)
                     [(''fromRevision'', JNum (of_int (revision w))), (''toRevision'', JNum (of_int (revision w')))] db2 in
            Inr (Some (length (audits db)), w', snd (tryAutoAccept sha gate now db3 (issueId w) None)))"

definition MAX_RECIPIENTS :: nat where
  "MAX_RECIPIENTS = 10"

definition human_owners :: "claim_db \<Rightarrow> issue \<Rightarrow> ident list" where
  "human_owners db w =
     List.take MAX_RECIPIENTS (map tmUserId (filter (\<lambda>m. tmRole m = OWNER \<and> tmTeamId m = teamId w \<and>
       (\<exists>u \<in> set (users db). userId u = tmUserId m \<and> userKind u = HUMAN)) (memberships db)))"

definition resolveHumanRecipients :: "claim_db \<Rightarrow> issue \<Rightarrow> ident list" where
  "resolveHumanRecipients db w =
     (case Option.bind (if truthy (assigneeId w) then assigneeId w else None) (\<lambda>i. find_row userId i (users db)) of
        Some u \<Rightarrow> if userKind u = HUMAN then [userId u] else human_owners db w
      | None \<Rightarrow> human_owners db w)"

text \<open>The lease a late run was filed without goes now, and the audit says the run came late.\<close>

definition late_writes :: "issue \<Rightarrow> claim_actor \<Rightarrow> work_run \<Rightarrow> (instant \<times> ident option) option \<Rightarrow> claim_db \<Rightarrow> claim_db" where
  "late_writes w actor r late db =
     (case late of
        None \<Rightarrow> db
      | Some (expiredAt, stale) \<Rightarrow>
          recordWorkAudit (Some (write_actor.truncate (actor\<lparr>reason := Some (lateRunReason (publicId r) expiredAt)\<rparr>)))
            (Some w) w (issueId w) (delete_claims (\<lambda>c. Some (clId c) = stale) db))"

definition run_event :: "work_run \<Rightarrow> (string \<times> json) list" where
  "run_event r = [(''runId'', JStr (runId r)), (''publicId'', JStr (publicId r)),
     (''status'', JStr (run_status_text (runStatus r))), (''phase'', opt_json (runPhase r)),
     (''summary'', opt_json (runSummary r)), (''externalUrl'', opt_json (runExternalUrl r))]"

definition report_event :: "instant \<Rightarrow> bool \<Rightarrow> report_run_input \<Rightarrow> issue \<Rightarrow> work_run \<Rightarrow> claim_db \<Rightarrow> claim_db" where
  "report_event now isNew inp w r db =
     (case eventTypeForRun isNew (runStatus r) (rpDecisionRequested inp) of
        None \<Rightarrow> db | Some t \<Rightarrow> enqueue_event now t (issueId w) (run_event r) db)"

definition report_transition ::
  "(string \<Rightarrow> string) \<Rightarrow> report_fresh \<Rightarrow> instant \<Rightarrow> report_run_input \<Rightarrow> claim_actor \<Rightarrow> issue \<Rightarrow> work_run \<Rightarrow> work_claim option \<Rightarrow>
   claim_db \<Rightarrow> (kernel_error, transition) result" where
  "report_transition sha fresh now inp actor w r claim db =
     (if runStatus r = RUNNING then Inr (moveToInProgress actor w db)
      else if runStatus r = RUN_COMPLETED then
        let db1 = (case rpFollowups inp of Some f \<Rightarrow> linkFollowups (rfLinkIds fresh) f (issueId w) (actorId actor) db | None \<Rightarrow> db) in
        bind_result (if scheduleRound r = None then moveToInReview sha (rfGateActorId fresh) now actor w db1 else Inr (None, w, db1))
          (\<lambda>(a, w', db2). Inr (a, w', case claim of Some c \<Rightarrow> delete_claims (\<lambda>x. clId x = clId c) db2 | None \<Rightarrow> db2))
      else Inr (None, w, db))"

definition report_notices :: "bool \<Rightarrow> report_run_input \<Rightarrow> issue \<Rightarrow> work_run \<Rightarrow> claim_db \<Rightarrow> claim_db" where
  "report_notices isNew inp w r db =
     (case eventTypeForRun isNew (runStatus r) (rpDecisionRequested inp) of
        None \<Rightarrow> db
      | Some t \<Rightarrow> if t \<in> {''decision.requested'', ''run.completed''} then notify_all t (issueId w) (resolveHumanRecipients db w) db else db)"

text \<open>Everything after the run row is written.\<close>

definition finish_report ::
  "(string \<Rightarrow> string) \<Rightarrow> report_fresh \<Rightarrow> instant \<Rightarrow> report_run_input \<Rightarrow> claim_actor \<Rightarrow> issue \<Rightarrow> ident option \<Rightarrow> bool \<Rightarrow> report_target \<Rightarrow>
   work_claim option \<Rightarrow> work_run \<Rightarrow> claim_db \<Rightarrow> (kernel_error, issue \<times> claim_db) result" where
  "finish_report sha fresh now inp actor w idem isNew tg claim r db =
     (let db1 = report_event now isNew inp w r (late_writes w actor r (tgLate tg) db) in
      bind_result (report_transition sha fresh now inp actor w r claim db1) (\<lambda>(audit, w', db2).
      let db3 = report_notices isNew inp w r db2;
          db4 = (case idem of Some i \<Rightarrow> completeWorkIdempotency i (issueId w) (Some (runId r)) db3 | None \<Rightarrow> db3) in
      case find_issue db4 (issueId w') of
        None \<Rightarrow> Inl (RecordNotFound (issueId w'))
      | Some freshWork \<Rightarrow>
          (case (rpReceipt inp, audit) of
             (None, _) \<Rightarrow> Inr (freshWork, db4)
           | (Some x, None) \<Rightarrow> Inl (ValidationError ''RUN_RECEIPT_NEEDS_AUDIT_MESSAGE'')
           | (Some x, Some a) \<Rightarrow> bind_result (attachDecisionReceipt a x db4) (\<lambda>db5. Inr (freshWork, db5)))))"

definition assertScheduleRound :: "claim_db \<Rightarrow> ident \<Rightarrow> rat \<Rightarrow> (kernel_error, unit) result" where
  "assertScheduleRound db w n =
     (case find_row scWorkId w (schedules db) of
        None \<Rightarrow> Inl (ValidationError ''SCHEDULE_ROUND_NO_SCHEDULE_MESSAGE'')
      | Some s \<Rightarrow> throw_if (\<not> is_integer n \<or> n < 1 \<or> n > of_int (scRound s)) (ValidationError ''SCHEDULE_ROUND_MESSAGE''))"

type_synonym report_answer = "work_run \<times> issue \<times> bool"

text \<open>A report that is not a replay.\<close>

definition file_report ::
  "(string \<Rightarrow> string) \<Rightarrow> report_fresh \<Rightarrow> instant \<Rightarrow> report_run_input \<Rightarrow> claim_actor \<Rightarrow> issue \<Rightarrow> ident option \<Rightarrow> claim_db \<Rightarrow>
   (kernel_error, report_answer \<times> claim_db) result" where
  "file_report sha fresh now inp actor w idem db =
     bind_result (parseRunStatus (rpStatus inp)) (\<lambda>status.
     let missing = (status = Some RUN_COMPLETED \<and> rpFollowups inp = None) in
     bind_result (throw_if (missing \<and> followupsRequired now) (ValidationError ''RUN_FOLLOWUPS_MISSING_MESSAGE'')) (\<lambda>_.
     bind_result (case rpScheduleRound inp of Some n \<Rightarrow> assertScheduleRound db (issueId w) n | None \<Rightarrow> Inr ()) (\<lambda>_.
     bind_result (report_target_of now db w status (rpRunId inp) actor) (\<lambda>tg.
     bind_result (assert_execution sha tg (rpClaimToken inp) actor) (\<lambda>_.
     case tgRun tg of
       None \<Rightarrow>
         bind_result (open_run sha fresh now w status inp actor tg db) (\<lambda>(r, db1).
         bind_result (finish_report sha fresh now inp actor w idem True tg (tgClaim tg) r db1) (\<lambda>(w', db2).
         Inr ((r, w', missing), db2)))
     | Some r0 \<Rightarrow>
         bind_result (move_run now w status inp actor tg r0 db) (\<lambda>(c, r, db1).
         bind_result (finish_report sha fresh now inp actor w idem False tg (Some c) r db1) (\<lambda>(w', db2).
         Inr ((r, w', missing), db2))))))))"

definition replay_report ::
  "(string \<Rightarrow> string) \<Rightarrow> report_run_input \<Rightarrow> claim_actor \<Rightarrow> issue \<Rightarrow> work_idempotency \<Rightarrow> claim_db \<Rightarrow>
   (kernel_error, report_answer \<times> claim_db) result" where
  "replay_report sha inp actor w record db =
     bind_result (throw_if (wiWorkId record \<noteq> Some (issueId w)) (ValidationError ''WORK_IDEMPOTENCY_CONFLICT_MESSAGE'')) (\<lambda>_.
     case Option.bind (if truthy (wiResultId record) then wiResultId record else None) (\<lambda>i. find_row runId i (runs db)) of
       None \<Rightarrow> Inl (ValidationError ''WORK_IDEMPOTENCY_RESULT_UNAVAILABLE_MESSAGE'')
     | Some r \<Rightarrow>
         bind_result (throw_if (runWorkId r \<noteq> issueId w) (ValidationError ''WORK_IDEMPOTENCY_RESULT_UNAVAILABLE_MESSAGE'')) (\<lambda>_.
         bind_result (if actorKind actor = AGENT then assertWorkToken sha (runTokenHash r) (rpClaimToken inp) else Inr ()) (\<lambda>_.
         bind_result (throw_if (actorKind actor = AGENT \<and> executionRevokedAt r \<noteq> None)
           (ValidationError ''This execution claim has been superseded.'')) (\<lambda>_.
         Inr ((r, w, False), db)))))"

definition report_shape :: "report_run_input \<Rightarrow> claim_actor \<Rightarrow> (kernel_error, unit) result" where
  "report_shape inp actor =
     bind_result (throw_if (rpFollowups inp \<noteq> None \<and> js_upper (case rpStatus inp of Some s \<Rightarrow> s | None \<Rightarrow> []) \<noteq> ''COMPLETED'')
       (ValidationError ''RUN_FOLLOWUPS_NOT_COMPLETED_MESSAGE'')) (\<lambda>_.
     bind_result (throw_if (case value_or_null (rpCommitSha inp) of Some s \<Rightarrow> \<not> SHA_PATTERN s | None \<Rightarrow> False)
       (ValidationError ''commitSha must be a lowercase full 40-character Git SHA'')) (\<lambda>_.
     bind_result (throw_if (case value_or_null (rpPullRequestNumber inp) of Some n \<Rightarrow> \<not> is_safe_integer n \<or> n < 1 | None \<Rightarrow> False)
       (ValidationError ''pullRequestNumber must be a positive integer'')) (\<lambda>_.
     throw_if (\<not> truthy (actorId actor)) (ValidationError ''WORK_CLAIM_REQUIRES_ACTOR_MESSAGE''))))"

definition reportRun ::
  "(string \<Rightarrow> string) \<Rightarrow> report_fresh \<Rightarrow> instant \<Rightarrow> claim_db \<Rightarrow> report_run_input \<Rightarrow> claim_actor \<Rightarrow>
   (kernel_error, report_answer \<times> claim_db) result" where
  "reportRun sha fresh now db inp actor =
     bind_result (report_shape inp actor) (\<lambda>_.
     bind_result (requireWork db (rpWorkId inp)) (\<lambda>w.
     bind_result (assertExecutionAuthority db actor w ''report'' now) (\<lambda>_.
     bind_result (if js_upper (case rpStatus inp of Some s \<Rightarrow> s | None \<Rightarrow> ''RUNNING'') \<in> {''FAILED'', ''BLOCKED''} then Inr ()
       else bind_result (assertDeliveryExecution sha db w) (\<lambda>_. Inr ())) (\<lambda>_.
     if \<not> truthy (rpIdempotencyKey inp) then file_report sha fresh now inp actor w None db
     else bind_result (reserveWorkIdempotency (rfIdempotencyId fresh) actor (the (rpIdempotencyKey inp)) ''run_report''
         (hashIdempotencyRequest sha (report_request inp)) (teamId w) db) (\<lambda>((created, record), db1).
       if created then file_report sha fresh now inp actor w (Some (wiId record)) db1
       else replay_report sha inp actor w record db1)))))"

section \<open>Evidence\<close>

record attach_evidence_input =
  aeiWorkId :: string
  aeiKind :: string
  aeiUrl :: string
  aeiSummary :: "string option"
  aeiRunId :: "string option"
  aeiClaimToken :: "string option"
  aeiIdempotencyKey :: "string option"

definition EVIDENCE_KINDS :: "string list" where
  "EVIDENCE_KINDS = [''PR'', ''TEST'', ''LOG'', ''SCREENSHOT'', ''ARTIFACT'', ''DECISION'']"

definition parseEvidenceKind :: "string \<Rightarrow> (kernel_error, string) result" where
  "parseEvidenceKind v = (let k = js_upper (js_trim v) in
     if k \<notin> set EVIDENCE_KINDS then Inl (ValidationError ''WORK_EVIDENCE_KIND_INVALID_MESSAGE'') else Inr k)"

text \<open>An agent attaches to its own execution: unfailed, unrevoked, and under a live lease until it completed.\<close>

definition assert_evidence_execution ::
  "(string \<Rightarrow> string) \<Rightarrow> instant \<Rightarrow> claim_db \<Rightarrow> work_run option \<Rightarrow> string option \<Rightarrow> claim_actor \<Rightarrow> (kernel_error, unit) result" where
  "assert_evidence_execution sha now db run tok actor =
     (if actorKind actor \<noteq> AGENT then Inr ()
      else case run of
        None \<Rightarrow> Inl (ValidationError ''WORK_RUN_ACTOR_MISMATCH_MESSAGE'')
      | Some r \<Rightarrow>
          bind_result (throw_if (runActorId r \<noteq> actorId actor \<or> runStatus r = RUN_FAILED \<or> executionRevokedAt r \<noteq> None)
            (ValidationError ''WORK_RUN_ACTOR_MISMATCH_MESSAGE'')) (\<lambda>_.
          bind_result (assertWorkToken sha (runTokenHash r) tok) (\<lambda>_.
          if runStatus r = RUN_COMPLETED then Inr ()
          else case Option.bind (if truthy (runClaimId r) then runClaimId r else None) (\<lambda>i. find_row clId i (claims db)) of
            None \<Rightarrow> Inl (ValidationError ''An active execution lease is required to attach evidence to an unfinished run.'')
          | Some c \<Rightarrow> throw_if (Some (clActorId c) \<noteq> actorId actor \<or> \<not> live now c)
              (ValidationError ''An active execution lease is required to attach evidence to an unfinished run.''))))"

definition evidence_request :: "attach_evidence_input \<Rightarrow> json" where
  "evidence_request inp =
     JObj ([(''workId'', JStr (aeiWorkId inp)), (''kind'', JStr (aeiKind inp)), (''url'', JStr (aeiUrl inp)), (''idempotencyKey'', JNull)] @
       present ''summary'' JStr (aeiSummary inp) @ present ''runId'' JStr (aeiRunId inp) @ present ''claimToken'' JStr (aeiClaimToken inp))"

definition evidence_row ::
  "ident \<Rightarrow> instant \<Rightarrow> string \<Rightarrow> attach_evidence_input \<Rightarrow> claim_actor \<Rightarrow> issue \<Rightarrow> work_run option \<Rightarrow> run_evidence" where
  "evidence_row newId now k inp actor w run =
     \<lparr>reId = newId, reWorkId = issueId w, reRunId = map_option runId run, reKind = k, reSummary = aeiSummary inp,
      reUrl = aeiUrl inp, reActorId = actorId actor,
      verificationNextAt = (if k \<in> {''PR'', ''TEST''} then Some now else None), reRetractedAt = None, reVerifications = []\<rparr>"

text \<open>Evidence counts as activity of a running execution.\<close>

definition touch_run :: "instant \<Rightarrow> work_run option \<Rightarrow> claim_db \<Rightarrow> claim_db" where
  "touch_run now run db =
     update_runs (\<lambda>x. holds (\<lambda>r. runStatus r = RUNNING \<and> runId x = runId r) run)
       (\<lambda>x. x\<lparr>lastActivityAt := now, staleNotifiedAt := None\<rparr>) db"

text \<open>Attaching evidence also lets the gate grade the work.\<close>

definition add_run_evidence ::
  "(string \<Rightarrow> string) \<Rightarrow> ident \<Rightarrow> ident \<Rightarrow> instant \<Rightarrow> string \<Rightarrow> attach_evidence_input \<Rightarrow> claim_actor \<Rightarrow> issue \<Rightarrow> ident option \<Rightarrow>
   claim_db \<Rightarrow> (kernel_error, (run_evidence \<times> issue) \<times> claim_db) result" where
  "add_run_evidence sha newId gate now k inp actor w idem db =
     (let run = (if truthy (aeiRunId inp) then findRun db (the (aeiRunId inp)) (issueId w) else None) in
      bind_result (throw_if (truthy (aeiRunId inp) \<and> run = None) (NotFoundError ''WORK_RUN_NOT_FOUND_MESSAGE'')) (\<lambda>_.
      bind_result (throw_if (holds (\<lambda>r. runActorId r \<noteq> actorId actor) run) (ValidationError ''WORK_RUN_ACTOR_MISMATCH_MESSAGE'')) (\<lambda>_.
      let e = evidence_row newId now k inp actor w run;
          db1 = touch_run now run db;
          db2 = db1\<lparr>runEvidences := runEvidences db1 @ [e]\<rparr>;
          db3 = enqueue_event now ''artifact.attached'' (issueId w)
            [(''evidenceId'', JStr newId), (''kind'', JStr k), (''url'', JStr (aeiUrl inp)), (''summary'', opt_json (aeiSummary inp)),
             (''runId'', opt_json (reRunId e)), (''actorId'', opt_json (actorId actor))] db2;
          db4 = snd (tryAutoAccept sha gate now db3 (issueId w) (reRunId e));
          db5 = (case idem of Some i \<Rightarrow> completeWorkIdempotency i (issueId w) (Some newId) db4 | None \<Rightarrow> db4) in
      case find_issue db5 (issueId w) of
        None \<Rightarrow> Inl (RecordNotFound (issueId w))
      | Some x \<Rightarrow> Inr ((e, x), db5))))"

definition attachEvidence ::
  "(string \<Rightarrow> string) \<Rightarrow> ident \<Rightarrow> ident \<Rightarrow> ident \<Rightarrow> instant \<Rightarrow> claim_db \<Rightarrow> attach_evidence_input \<Rightarrow> claim_actor \<Rightarrow>
   (kernel_error, (run_evidence \<times> issue) \<times> claim_db) result" where
  "attachEvidence sha newId gate newKey now db inp actor =
     bind_result (parseEvidenceKind (aeiKind inp)) (\<lambda>k.
     bind_result (throw_if (\<not> truthy (actorId actor)) (ValidationError ''WORK_CLAIM_REQUIRES_ACTOR_MESSAGE'')) (\<lambda>_.
     bind_result (throw_if (\<not> truthy (aeiRunId inp) \<and> actorKind actor \<noteq> HUMAN) (ValidationError ''WORK_EVIDENCE_REQUIRES_RUN_MESSAGE'')) (\<lambda>_.
     bind_result (requireWork db (aeiWorkId inp)) (\<lambda>w.
     bind_result (assertExecutionAuthority db actor w ''report'' now) (\<lambda>_.
     bind_result (assert_evidence_execution sha now db
       (if truthy (aeiRunId inp) then findRun db (the (aeiRunId inp)) (issueId w) else None) (aeiClaimToken inp) actor) (\<lambda>_.
     if \<not> truthy (aeiIdempotencyKey inp) then add_run_evidence sha newId gate now k inp actor w None db
     else bind_result (reserveWorkIdempotency newKey actor (the (aeiIdempotencyKey inp)) ''evidence_attach''
         (hashIdempotencyRequest sha (evidence_request inp)) (teamId w) db) (\<lambda>((created, record), db1).
       if created then add_run_evidence sha newId gate now k inp actor w (Some (wiId record)) db1
       else bind_result (throw_if (wiWorkId record \<noteq> Some (issueId w)) (ValidationError ''WORK_IDEMPOTENCY_CONFLICT_MESSAGE'')) (\<lambda>_.
         case Option.bind (if truthy (wiResultId record) then wiResultId record else None) (\<lambda>i. find_row reId i (runEvidences db1)) of
           None \<Rightarrow> Inl (ValidationError ''WORK_IDEMPOTENCY_RESULT_UNAVAILABLE_MESSAGE'')
         | Some e \<Rightarrow> if reWorkId e \<noteq> issueId w then Inl (ValidationError ''WORK_IDEMPOTENCY_RESULT_UNAVAILABLE_MESSAGE'')
                     else Inr ((e, w), db1)))))))))"

section \<open>Is the execution alive\<close>

datatype run_presence = Waiting | Live | Stale | Settled

definition DEFAULT_RUN_STALE_AFTER_MS :: int where
  "DEFAULT_RUN_STALE_AFTER_MS = 30 * 60000"

definition runPresence :: "instant \<Rightarrow> int \<Rightarrow> work_run \<Rightarrow> run_presence" where
  "runPresence now staleAfter r =
     (if runStatus r \<in> {QUEUED, BLOCKED} then Waiting
      else if runStatus r \<noteq> RUNNING then Settled
      else if now - lastActivityAt r \<ge> staleAfter then Stale else Live)"

end
