(* ===== verification/Run_Safety.thy ===== *)
theory Run_Safety
  imports Work_Runs
begin

text \<open>
  What reports guarantee. The invariant \<open>exec_ok\<close> adds to the one of the leases that a claim has at most
  one open run; \<open>runs_grow\<close> says that reports and lease operations never lose or rewrite a closed run.
\<close>

section \<open>What a report leaves alone\<close>

lemma ensureActor_frame:
  assumes "ensureAutoAcceptActor f db = (a, db')"
  shows "claims db' = claims db" and "runs db' = runs db" and "issues db' = issues db" and "states db' = states db"
    and "audits db' = audits db" and "evaluations db' = evaluations db" and "reviewDecisions db' = reviewDecisions db"
  using assms by (auto simp: ensureAutoAcceptActor_def split: option.splits if_splits)

text \<open>The gate either does nothing or records one evaluation it skips.\<close>

lemma tryAutoAccept_cases:
  obtains "snd (tryAutoAccept sha f now db w i) = db"
  | a g r x db1 where "snd (tryAutoAccept sha f now db w i) = recordSkipped now a g r x db1" and "ensureAutoAcceptActor f db = (a, db1)"
proof -
  obtain a db1 where e: "ensureAutoAcceptActor f db = (a, db1)" by (cases "ensureAutoAcceptActor f db")
  show thesis
  proof (cases "find_issue db w")
    case None
    then have "snd (tryAutoAccept sha f now db w i) = db" by (simp add: tryAutoAccept_def)
    then show thesis by (rule that(1))
  next
    case (Some x)
    show thesis
    proof (cases "state_type_of db x = Some REVIEW")
      case False
      with Some have "snd (tryAutoAccept sha f now db w i) = db" by (simp add: tryAutoAccept_def)
      then show thesis by (rule that(1))
    next
      case True
      with Some e have "\<exists>g r. snd (tryAutoAccept sha f now db w i) = recordSkipped now a g r x db1"
        by (simp add: tryAutoAccept_def Let_def) blast
      with that(2) e show thesis by blast
    qed
  qed
qed

lemma recordSkipped_tables [simp]:
  "states (recordSkipped now a g i w db) = states db"
  "audits (recordSkipped now a g i w db) = audits db"
  by (simp_all add: recordSkipped_def enqueue_event_def)

lemma tryAutoAccept_frame [simp]:
  "claims (snd (tryAutoAccept sha f now db w i)) = claims db"
  "runs (snd (tryAutoAccept sha f now db w i)) = runs db"
  "issues (snd (tryAutoAccept sha f now db w i)) = issues db"
  "states (snd (tryAutoAccept sha f now db w i)) = states db"
  "audits (snd (tryAutoAccept sha f now db w i)) = audits db"
  "reviewDecisions (snd (tryAutoAccept sha f now db w i)) = reviewDecisions db"
  by (cases rule: tryAutoAccept_cases[of sha f now db w i]; simp add: ensureActor_frame)+

lemma linkFollowups_frame [simp]:
  "claims (linkFollowups n f w b db) = claims db"
  "runs (linkFollowups n f w b db) = runs db"
  "issues (linkFollowups n f w b db) = issues db"
  "states (linkFollowups n f w b db) = states db"
  by (simp_all add: linkFollowups_def Let_def split: run_followups.splits)

lemma moveToInProgress_frame:
  assumes "moveToInProgress a w db = (x, w', db')"
  shows "claims db' = claims db" and "runs db' = runs db"
  using assms by (auto simp: moveToInProgress_def Let_def split: option.splits if_splits)

lemma moveToInReview_frame:
  assumes "moveToInReview sha g now a w db = Inr (x, w', db')"
  shows "claims db' = claims db" and "runs db' = runs db"
  using assms by (auto simp: moveToInReview_def Let_def split: option.splits if_splits)

lemma report_event_frame [simp]:
  "claims (report_event now n inp w r db) = claims db"
  "runs (report_event now n inp w r db) = runs db"
  by (simp_all add: report_event_def split: option.splits)

lemma report_notices_frame [simp]:
  "claims (report_notices n inp w r db) = claims db"
  "runs (report_notices n inp w r db) = runs db"
  by (simp_all add: report_notices_def split: option.splits)

lemma attachReceipt_frame:
  assumes "attachDecisionReceipt a x db = Inr db'"
  shows "claims db' = claims db" and "runs db' = runs db"
  using assms by (auto simp: attachDecisionReceipt_def Let_def split: if_splits)

lemma delete_claims_cong:
  assumes "claims a = claims b" and "runs a = runs b"
  shows "claims (delete_claims P a) = claims (delete_claims P b)" and "runs (delete_claims P a) = runs (delete_claims P b)"
  by (simp_all add: delete_claims_def Let_def assms)

text \<open>The claims a report ends: the expired one of a late run, and the one a completed run was made under.\<close>

definition late_release :: "report_target \<Rightarrow> claim_db \<Rightarrow> claim_db" where
  "late_release tg db = (case tgLate tg of None \<Rightarrow> db | Some (t, stale) \<Rightarrow> delete_claims (\<lambda>c. Some (clId c) = stale) db)"

definition report_releases :: "report_target \<Rightarrow> work_claim option \<Rightarrow> work_run \<Rightarrow> claim_db \<Rightarrow> claim_db" where
  "report_releases tg claim r db =
     (case claim of
        Some c \<Rightarrow> if runStatus r = RUN_COMPLETED then delete_claims (\<lambda>x. clId x = clId c) (late_release tg db) else late_release tg db
      | None \<Rightarrow> late_release tg db)"

lemma late_writes_frame [simp]:
  "claims (late_writes w a r (tgLate tg) db) = claims (late_release tg db)"
  "runs (late_writes w a r (tgLate tg) db) = runs (late_release tg db)"
  by (simp_all add: late_writes_def late_release_def split: option.splits)

lemma report_transition_frame:
  assumes "report_transition sha fresh now inp a w r claim db = Inr (x, w', db')"
  shows "claims db' = claims (report_releases \<lparr>tgRun = None, tgClaim = None, tgLate = None\<rparr> claim r db)"
    and "runs db' = runs (report_releases \<lparr>tgRun = None, tgClaim = None, tgLate = None\<rparr> claim r db)"
proof -
  have "claims db' = claims (report_releases \<lparr>tgRun = None, tgClaim = None, tgLate = None\<rparr> claim r db) \<and>
      runs db' = runs (report_releases \<lparr>tgRun = None, tgClaim = None, tgLate = None\<rparr> claim r db)"
  proof (cases "runStatus r = RUN_COMPLETED")
    case False
    with assms show ?thesis
      by (auto simp: report_transition_def report_releases_def late_release_def
          split: option.splits if_splits dest: moveToInProgress_frame)
  next
    case True
    define d where "d = (case rpFollowups inp of Some f \<Rightarrow> linkFollowups (rfLinkIds fresh) f (issueId w) (actorId a) db | None \<Rightarrow> db)"
    have d: "claims d = claims db" "runs d = runs db" by (simp_all add: d_def split: option.splits)
    from assms True obtain d2 where
        m: "(if scheduleRound r = None then moveToInReview sha (rfGateActorId fresh) now a w d else Inr (None, w, d)) = Inr (x, w', d2)"
      and db': "db' = (case claim of Some c \<Rightarrow> delete_claims (\<lambda>x. clId x = clId c) d2 | None \<Rightarrow> d2)"
      unfolding d_def by (auto simp: report_transition_def Let_def)
    from m d have d2: "claims d2 = claims db" "runs d2 = runs db"
      by (auto split: if_splits dest: moveToInReview_frame)
    show ?thesis using True d2 delete_claims_cong[OF d2]
      by (simp add: db' report_releases_def late_release_def split: option.splits)
  qed
  then show "claims db' = claims (report_releases \<lparr>tgRun = None, tgClaim = None, tgLate = None\<rparr> claim r db)"
    and "runs db' = runs (report_releases \<lparr>tgRun = None, tgClaim = None, tgLate = None\<rparr> claim r db)" by blast+
qed

lemma complete_opt_frame [simp]:
  "claims (case i of None \<Rightarrow> d | Some k \<Rightarrow> completeWorkIdempotency k w x d) = claims d"
  "runs (case i of None \<Rightarrow> d | Some k \<Rightarrow> completeWorkIdempotency k w x d) = runs d"
  by (simp_all split: option.splits)

lemma finish_report_frame:
  assumes "finish_report sha fresh now inp a w i n tg claim r db = Inr (w', db')"
  shows "claims db' = claims (report_releases tg claim r db)" and "runs db' = runs (report_releases tg claim r db)"
proof -
  define d1 where "d1 = report_event now n inp w r (late_writes w a r (tgLate tg) db)"
  from assms obtain x w2 d2 where
      t: "report_transition sha fresh now inp a w r claim d1 = Inr (x, w2, d2)"
    and e: "claims db' = claims d2" "runs db' = runs d2"
    unfolding d1_def by (fastforce simp: finish_report_def Let_def split: option.splits dest: attachReceipt_frame)
  note f = report_transition_frame[OF t]
  have d1: "claims d1 = claims (late_release tg db)" "runs d1 = runs (late_release tg db)" by (simp_all add: d1_def)
  show "claims db' = claims (report_releases tg claim r db)" and "runs db' = runs (report_releases tg claim r db)"
    using delete_claims_cong[OF d1] d1
    by (simp_all add: e f report_releases_def late_release_def[of "\<lparr>tgRun = None, tgClaim = None, tgLate = None\<rparr>"] split: option.splits)
qed

section \<open>The invariant\<close>

definition single_open :: "work_run list \<Rightarrow> bool" where
  "single_open rs \<longleftrightarrow> (\<forall>r \<in> set rs. \<forall>s \<in> set rs. is_open_run r \<and> is_open_run s \<and> runClaimId r = runClaimId s \<longrightarrow> runId r = runId s)"

definition exec_ok :: "claim_db \<Rightarrow> bool" where
  "exec_ok db \<longleftrightarrow> claims_ok db \<and> unique_key runId (runs db) \<and> single_open (runs db)"

definition runs_grow :: "claim_db \<Rightarrow> claim_db \<Rightarrow> bool" where
  "runs_grow db db' \<longleftrightarrow> length (runs db) \<le> length (runs db') \<and>
     list_all2 run_forward (runs db) (List.take (length (runs db)) (runs db'))"

lemma runs_grow_refl [simp]: "runs_grow db db"
  by (simp add: runs_grow_def list_all2_refl)

lemma forward_grow: "runs_forward db db' \<Longrightarrow> runs_grow db db'"
  by (frule list_all2_lengthD[OF runs_forward_def[THEN iffD1]]) (simp add: runs_forward_def runs_grow_def)

lemma runs_grow_trans:
  assumes "runs_grow a b" and "runs_grow b c"
  shows "runs_grow a c"
proof -
  let ?n = "length (runs a)"
  from assms have n: "?n \<le> length (runs b)" "length (runs b) \<le> length (runs c)" by (simp_all add: runs_grow_def)
  have "list_all2 run_forward (List.take ?n (runs b)) (List.take ?n (List.take (length (runs b)) (runs c)))"
    using assms(2) by (intro list_all2_takeI) (simp add: runs_grow_def)
  with n have "list_all2 run_forward (List.take ?n (runs b)) (List.take ?n (runs c))" by (simp add: min_def)
  then have "list_all2 run_forward (runs a) (List.take ?n (runs c))"
    using assms(1) unfolding runs_grow_def by (blast intro: list_all2_trans[of run_forward run_forward run_forward] run_forward_trans)
  with n show ?thesis by (simp add: runs_grow_def)
qed

lemma runs_grow_append: "runs db' = runs db @ rs \<Longrightarrow> runs_grow db db'"
  by (simp add: runs_grow_def list_all2_refl)

lemma exec_ok_cong: "claims a = claims b \<Longrightarrow> runs a = runs b \<Longrightarrow> exec_ok a \<longleftrightarrow> exec_ok b"
  by (simp add: exec_ok_def claims_ok_def)

text \<open>Moving runs forward under intact leases keeps the invariant: an open run stays with the claim it had.\<close>

lemma forward_exec_ok:
  assumes "exec_ok db" and "claims_ok db'" and "runs_forward db db'"
  shows "exec_ok db'"
proof -
  have l2: "list_all2 run_forward (runs db) (runs db')" using assms(3) by (simp add: runs_forward_def)
  then have "map runId (runs db') = map runId (runs db)"
    by (induction rule: list_all2_induct) (auto simp: run_forward_def)
  then have u: "unique_key runId (runs db')" using assms(1) by (simp add: exec_ok_def unique_key_def)
  have origin: "\<exists>r \<in> set (runs db). is_open_run r \<and> runId r = runId r' \<and> runClaimId r = runClaimId r'"
    if r': "r' \<in> set (runs db')" "is_open_run r'" for r'
  proof -
    from l2 r'(1) obtain r where r: "r \<in> set (runs db)" "run_forward r r'"
      by (auto simp: list_all2_conv_all_nth in_set_conv_nth) (metis nth_mem)
    from open_runD[OF assms(2) r'] have "runClaimId r' \<noteq> None" by fastforce
    with r r'(2) show ?thesis by (auto simp: run_forward_def is_open_run_def)
  qed
  have "single_open (runs db')" unfolding single_open_def
  proof (intro ballI impI)
    fix r s
    assume "r \<in> set (runs db')" "s \<in> set (runs db')" and h: "is_open_run r \<and> is_open_run s \<and> runClaimId r = runClaimId s"
    then obtain r0 s0 where "r0 \<in> set (runs db)" "is_open_run r0" "runId r0 = runId r" "runClaimId r0 = runClaimId r"
      "s0 \<in> set (runs db)" "is_open_run s0" "runId s0 = runId s" "runClaimId s0 = runClaimId s"
      using origin[of r] origin[of s] by blast
    with h assms(1) show "runId r = runId s" unfolding exec_ok_def single_open_def by metis
  qed
  with u assms(2) show ?thesis by (simp add: exec_ok_def)
qed

lemma delete_claims_run:
  assumes "r' \<in> set (runs (delete_claims P db))"
  shows "\<exists>r \<in> set (runs db). r' = r \<and> (\<forall>c \<in> set (claims db). P c \<longrightarrow> runClaimId r \<noteq> Some (clId c)) \<or>
    r' = r\<lparr>runClaimId := None\<rparr> \<and> (\<exists>c \<in> set (claims db). P c \<and> runClaimId r = Some (clId c))"
proof -
  from assms obtain r where r: "r \<in> set (runs db)"
    "r' = (if \<exists>c \<in> set (map clId (filter P (claims db))). runClaimId r = Some c then r\<lparr>runClaimId := None\<rparr> else r)"
    unfolding delete_claims_def Let_def by (auto simp: set_update_rows simp del: set_map)
  show ?thesis by (rule bexI[OF _ r(1)]) (use r(2) in auto)
qed

lemma delete_exec_ok:
  assumes ok: "exec_ok db"
    and free: "\<And>c r. c \<in> set (claims db) \<Longrightarrow> P c \<Longrightarrow> r \<in> set (runs db) \<Longrightarrow> is_open_run r \<Longrightarrow> runClaimId r \<noteq> Some (clId c)"
  shows "exec_ok (delete_claims P db)"
proof (rule forward_exec_ok[OF ok _ delete_claims_forward])
  have c: "claims_ok db" using ok by (simp add: exec_ok_def)
  show "claims_ok (delete_claims P db)" unfolding claims_ok_def
  proof (intro conjI ballI impI)
    show "unique_key clWorkId (claims (delete_claims P db))" "unique_key clId (claims (delete_claims P db))"
      using c by (auto simp: delete_claims_def Let_def claims_ok_def intro: unique_key_filter)
    fix r' assume r': "r' \<in> set (runs (delete_claims P db))" "is_open_run r'"
    from delete_claims_run[OF r'(1)] obtain r where r: "r \<in> set (runs db)"
      "r' = r \<and> (\<forall>c \<in> set (claims db). P c \<longrightarrow> runClaimId r \<noteq> Some (clId c)) \<or>
       r' = r\<lparr>runClaimId := None\<rparr> \<and> (\<exists>c \<in> set (claims db). P c \<and> runClaimId r = Some (clId c))" by blast
    with r'(2) have op: "is_open_run r" by (auto simp: is_open_run_def)
    with r free[OF _ _ r(1) op] have eq: "r' = r" by blast
    from open_runD[OF c r(1) op] obtain c0 where c0: "c0 \<in> set (claims db)" "runClaimId r = Some (clId c0)"
      "clWorkId c0 = runWorkId r" "claimSnapshotId r = Some (clId c0)" "executionRevokedAt r = None" by blast
    from free[OF c0(1) _ r(1) op] c0(2) have "\<not> P c0" by blast
    with c0 show "bound_to_claim (claims (delete_claims P db)) r'"
      by (auto simp: eq bound_to_claim_def delete_claims_def Let_def)
  qed
qed

lemma append_exec_ok:
  assumes "exec_ok db" and "claims db' = claims db" and "runs db' = runs db @ [r]" and "runId r \<notin> runId ` set (runs db)"
    and "is_open_run r \<Longrightarrow> bound_to_claim (claims db) r"
    and "\<And>s. s \<in> set (runs db) \<Longrightarrow> is_open_run s \<Longrightarrow> is_open_run r \<Longrightarrow> runClaimId s \<noteq> runClaimId r"
  shows "exec_ok db'"
proof -
  have c: "claims_ok db" and u: "unique_key runId (runs db)" and s: "single_open (runs db)"
    using assms(1) by (simp_all add: exec_ok_def)
  have "claims_ok db'" using c assms(5) by (simp add: claims_ok_def assms(2,3))
  moreover have "single_open (runs db')"
    unfolding single_open_def assms(3)
  proof (intro ballI impI)
    fix x y
    assume m: "x \<in> set (runs db @ [r])" "y \<in> set (runs db @ [r])"
      and h: "is_open_run x \<and> is_open_run y \<and> runClaimId x = runClaimId y"
    from m consider "x = y" | "x \<in> set (runs db)" "y \<in> set (runs db)" | "x = r" "y \<in> set (runs db)" | "x \<in> set (runs db)" "y = r"
      by auto
    then show "runId x = runId y"
    proof cases
      case 2
      with s h show ?thesis unfolding single_open_def by blast
    next
      case 3
      with assms(6)[of y] h show ?thesis by metis
    next
      case 4
      with assms(6)[of x] h show ?thesis by metis
    qed simp
  qed
  ultimately show ?thesis using u assms(4) by (simp add: exec_ok_def assms(3))
qed

section \<open>What a report is made under\<close>

lemma report_claimD:
  assumes "report_claim now st a w P db = Some c"
  shows "c \<in> set (claims db)" and "Some (clActorId c) = actorId a" and "P c" and "clWorkId c = w"
    and "actorKind a = AGENT \<Longrightarrow> live now c"
  using assms by (auto simp: report_claim_def Let_def find_Some_iff in_set_conv_nth)

lemma open_run_ofD:
  assumes "open_run_of c db = Some r"
  shows "r \<in> set (runs db)" and "runClaimId r = Some (clId c)" and "is_open_run r"
proof -
  let ?L = "sort_key (\<lambda>r. - startedAt r) (filter (\<lambda>r. runClaimId r = Some (clId c) \<and> is_open_run r) (runs db))"
  from assms obtain rs where "?L = r # rs" by (auto simp: open_run_of_def split: list.splits)
  then have "r \<in> set ?L" by (metis list.set_intros(1))
  then show "r \<in> set (runs db)" and "runClaimId r = Some (clId c)" and "is_open_run r" by simp_all
qed

lemma open_run_of_None:
  assumes "open_run_of c db = None" and "r \<in> set (runs db)" and "is_open_run r"
  shows "runClaimId r \<noteq> Some (clId c)"
proof -
  from assms(1) have "sort_key (\<lambda>r. - startedAt r) (filter (\<lambda>r. runClaimId r = Some (clId c) \<and> is_open_run r) (runs db)) = []"
    by (auto simp: open_run_of_def split: list.splits)
  then have "filter (\<lambda>r. runClaimId r = Some (clId c) \<and> is_open_run r) (runs db) = []"
    using set_sort[of "\<lambda>r. - startedAt r"] by (metis list.set(1) set_empty)
  with assms(2,3) show ?thesis by (auto simp: filter_empty_conv)
qed

lemma findRunD: "findRun db i w = Some r \<Longrightarrow> r \<in> set (runs db) \<and> runWorkId r = w"
  by (auto simp: findRun_def find_Some_iff split: option.splits)

lemma report_target_cases:
  assumes "report_target_of now db w st rid a = Inr tg"
  obtains (named) r where "tg = \<lparr>tgRun = Some r, tgClaim = None, tgLate = None\<rparr>" and "truthy rid"
      and "r \<in> set (runs db)" and "runWorkId r = issueId w"
  | (claimed) c P where "tg = \<lparr>tgRun = open_run_of c db, tgClaim = Some c, tgLate = None\<rparr>"
      and "report_claim now st a (issueId w) P db = Some c"
  | (late) l where "tg = \<lparr>tgRun = None, tgClaim = None, tgLate = Some l\<rparr>" and "\<not> truthy rid" and "st = Some RUN_COMPLETED"
      and "report_claim now st a (issueId w) (\<lambda>_. True) db = None" and "lateRunAllowance now db w (the (actorId a)) = Some l"
  using assms findRunD
  by (auto simp: report_target_of_def Let_def split: option.splits if_splits)

text \<open>The run a report continues belongs to the claim it is made under.\<close>

lemma move_run_cases:
  assumes "report_target_of now db w st rid a = Inr tg" and "tgRun tg = Some r0"
    and "move_run now w st inp a tg r0 db = Inr (c, r, db1)"
  shows "tgLate tg = None \<and> r0 \<in> set (runs db) \<and> is_open_run r0 \<and> runActorId r0 = actorId a \<and> r = apply_report now st inp r0 \<and>
    (\<forall>s. st = Some s \<longrightarrow> s = runStatus r0 \<or> s \<in> set (ALLOWED_RUN_TRANSITIONS (runStatus r0))) \<and>
    c \<in> set (claims db) \<and> clWorkId c = issueId w \<and> Some (clActorId c) = actorId a \<and> (actorKind a = AGENT \<longrightarrow> live now c) \<and>
    runClaimId r0 = Some (clId c) \<and> claims db1 = claims db \<and>
    runs db1 = update_rows (\<lambda>x. runId x = runId r0) (apply_report now st inp) (runs db)"
proof -
  from assms(3) have m: "runActorId r0 = actorId a" "runStatus r0 \<notin> set TERMINAL_RUN_STATUSES" "r = apply_report now st inp r0"
      "continuing_claim now w st a tg r0 db = Inr c"
      "\<forall>s. st = Some s \<longrightarrow> s = runStatus r0 \<or> s \<in> set (ALLOWED_RUN_TRANSITIONS (runStatus r0))"
      "claims db1 = claims db" "runs db1 = update_rows (\<lambda>x. runId x = runId r0) (apply_report now st inp) (runs db)"
    by (auto simp: move_run_def holds_iff Let_def recheck_evidence_def update_runs_def split: if_splits)
  from m(2) have op: "is_open_run r0" by (cases "runStatus r0") (auto simp: is_open_run_def TERMINAL_RUN_STATUSES_def)
  from assms(1) show ?thesis
  proof (cases rule: report_target_cases)
    case (named r)
    with assms(2) m(4) have rc: "report_claim now st a (issueId w) (\<lambda>c. Some (clId c) = runClaimId r0) db = Some c"
      by (auto simp: continuing_claim_def split: option.splits if_splits)
    from named assms(2) m op report_claimD[OF rc] show ?thesis by simp
  next
    case (claimed c0 P)
    with assms(2) m(4) have "c = c0" "open_run_of c0 db = Some r0" by (auto simp: continuing_claim_def)
    with claimed m op show ?thesis by (auto dest: report_claimD open_run_ofD)
  next
    case late
    with assms(2) show ?thesis by simp
  qed
qed

lemma open_run_row:
  assumes "open_run sha fresh now w st inp a tg db = Inr (r, db1)"
  shows "runId r = rfRunId fresh" and "runWorkId r = issueId w" and "runClaimId r = map_option clId (tgClaim tg)"
    and "claimSnapshotId r = map_option clId (tgClaim tg)" and "executionRevokedAt r = None"
    and "runTokenHash r = Option.bind (tgClaim tg) clTokenHash" and "runStatus r = (case st of Some s \<Rightarrow> s | None \<Rightarrow> RUNNING)"
    and "scheduleRound r = reported_round inp" and "claims db1 = claims db" and "runs db1 = runs db @ [r]"
    and "issues db1 = issues db" and "states db1 = states db"
  using assms by (auto simp: open_run_def new_run_def nextRunPublicId_def Let_def)

lemma apply_report_forward: "is_open_run r \<Longrightarrow> run_forward r (apply_report now st inp r)"
  by (simp add: run_forward_def apply_report_def)

lemma apply_report_id [simp]: "runId (apply_report now st inp r) = runId r" "runWorkId (apply_report now st inp r) = runWorkId r"
  by (simp_all add: apply_report_def)

section \<open>Reports keep the invariant\<close>

lemma release_one:
  assumes "tgLate tg = None"
  shows "report_releases tg claim r db =
    (if runStatus r = RUN_COMPLETED \<and> claim \<noteq> None then delete_claims (\<lambda>x. clId x = clId (the claim)) db else db)"
  using assms by (auto simp: report_releases_def late_release_def split: option.splits)

lemma continue_ok:
  assumes ok: "exec_ok db" and r0: "r0 \<in> set (runs db)" "is_open_run r0" and c: "runClaimId r0 = Some (clId c)"
    and r: "r = apply_report now st inp r0" and late: "tgLate tg = None" and cl: "claims db1 = claims db"
    and rn: "runs db1 = update_rows (\<lambda>x. runId x = runId r0) (apply_report now st inp) (runs db)"
  shows "exec_ok (report_releases tg (Some c) r db1) \<and> runs_forward db (report_releases tg (Some c) r db1)"
proof -
  have u: "unique_key runId (runs db)" and so: "single_open (runs db)" and ck: "claims_ok db" using ok by (simp_all add: exec_ok_def)
  have same: "x = r0" if "x \<in> set (runs db)" "runId x = runId r0" for x
    using unique_key_inj[OF u that(1) r0(1) that(2)] .
  have row: "x = r \<or> x \<in> set (runs db) \<and> runId x \<noteq> runId r0" if "x \<in> set (runs db1)" for x
    using that same unfolding rn set_update_rows r by (auto split: if_splits)
  have fw: "runs_forward db db1" unfolding runs_forward_def rn list_all2_conv_all_nth update_rows_def
    using same apply_report_forward[OF r0(2)] by (auto dest!: nth_mem)
  have closed: "is_open_run r \<Longrightarrow> runClaimId r = runClaimId r0 \<and> claimSnapshotId r = claimSnapshotId r0 \<and>
      executionRevokedAt r = executionRevokedAt r0 \<and> runWorkId r = runWorkId r0"
    unfolding r by (auto simp: apply_report_def overwrite_def is_open_run_def)
  have "claims_ok db1" unfolding claims_ok_def cl
  proof (intro conjI ballI impI)
    show "unique_key clWorkId (claims db)" "unique_key clId (claims db)" using ck by (simp_all add: claims_ok_def)
    fix x assume x: "x \<in> set (runs db1)" "is_open_run x"
    from row[OF x(1)] show "bound_to_claim (claims db) x"
    proof
      assume "x = r"
      with closed x(2) ck r0 show ?thesis by (auto simp: claims_ok_def bound_to_claim_def)
    qed (use ck x(2) in \<open>simp add: claims_ok_def\<close>)
  qed
  from forward_exec_ok[OF ok this fw] have ok1: "exec_ok db1" .
  have "runClaimId x \<noteq> Some (clId d)"
    if comp: "runStatus r = RUN_COMPLETED" and "d \<in> set (claims db1)" and d: "clId d = clId c" and x: "x \<in> set (runs db1)" "is_open_run x" for d x
  proof -
    from comp have "\<not> is_open_run r" by (simp add: is_open_run_def)
    with row[OF x(1)] x(2) have m: "x \<in> set (runs db)" "runId x \<noteq> runId r0" by blast+
    from so m r0 x(2) have "runClaimId x \<noteq> runClaimId r0" unfolding single_open_def by blast
    with c d show ?thesis by simp
  qed
  then have "runStatus r = RUN_COMPLETED \<Longrightarrow> exec_ok (delete_claims (\<lambda>x. clId x = clId c) db1)"
    by (intro delete_exec_ok[OF ok1]) blast
  with ok1 fw runs_forward_trans[OF fw delete_claims_forward] show ?thesis by (simp add: release_one[OF late])
qed

lemma open_ok:
  assumes ok: "exec_ok db" and fresh: "runId r \<notin> runId ` set (runs db)" and cl: "claims db1 = claims db" and rn: "runs db1 = runs db @ [r]"
    and late: "tgLate tg = None" and c: "c \<in> set (claims db)" "clWorkId c = runWorkId r" and none: "open_run_of c db = None"
    and r: "runClaimId r = Some (clId c)" "claimSnapshotId r = Some (clId c)" "executionRevokedAt r = None"
  shows "exec_ok (report_releases tg (Some c) r db1) \<and> runs_grow db (report_releases tg (Some c) r db1)"
proof -
  have ok1: "exec_ok db1"
  proof (rule append_exec_ok[OF ok cl rn fresh])
    show "bound_to_claim (claims db) r" using c r by (auto simp: bound_to_claim_def)
    show "\<And>s. s \<in> set (runs db) \<Longrightarrow> is_open_run s \<Longrightarrow> runClaimId s \<noteq> runClaimId r"
      using open_run_of_None[OF none] r(1) by simp
  qed
  have gr: "runs_grow db db1" by (rule runs_grow_append[OF rn])
  have "exec_ok (delete_claims (\<lambda>x. clId x = clId c) db1)" if "runStatus r = RUN_COMPLETED"
  proof (rule delete_exec_ok[OF ok1])
    fix d x assume "clId d = clId c" and x: "x \<in> set (runs db1)" "is_open_run x"
    from that x have "x \<in> set (runs db)" by (auto simp: rn is_open_run_def)
    with open_run_of_None[OF none] x(2) \<open>clId d = clId c\<close> show "runClaimId x \<noteq> Some (clId d)" by simp
  qed
  with ok1 gr runs_grow_trans[OF gr forward_grow[OF delete_claims_forward]] show ?thesis
    by (simp add: release_one[OF late])
qed

lemma late_ok:
  assumes ok: "exec_ok db" and fresh: "runId r \<notin> runId ` set (runs db)" and cl: "claims db1 = claims db" and rn: "runs db1 = runs db @ [r]"
    and r: "runStatus r = RUN_COMPLETED" and late: "tgLate tg = Some (t, stale)"
    and free: "\<And>d x. d \<in> set (claims db) \<Longrightarrow> Some (clId d) = stale \<Longrightarrow> x \<in> set (runs db) \<Longrightarrow> is_open_run x \<Longrightarrow> runClaimId x \<noteq> Some (clId d)"
  shows "exec_ok (report_releases tg None r db1) \<and> runs_grow db (report_releases tg None r db1)"
proof -
  have nr: "\<not> is_open_run r" using r by (simp add: is_open_run_def)
  have ok1: "exec_ok db1" by (rule append_exec_ok[OF ok cl rn fresh]) (use nr in simp_all)
  have "exec_ok (delete_claims (\<lambda>c. Some (clId c) = stale) db1)"
  proof (rule delete_exec_ok[OF ok1])
    fix d x assume d: "d \<in> set (claims db1)" "Some (clId d) = stale" and x: "x \<in> set (runs db1)" "is_open_run x"
    from x nr have "x \<in> set (runs db)" by (auto simp: rn)
    with free d x(2) cl show "runClaimId x \<noteq> Some (clId d)" by simp
  qed
  with runs_grow_trans[OF runs_grow_append[OF rn] forward_grow[OF delete_claims_forward]] show ?thesis
    by (simp add: report_releases_def late_release_def late)
qed

text \<open>
  A late run is filed beside the execution it finishes. When the lease it was made under is still there, that
  lease ends with the report, and a run left open under it would be left without a claim.
\<close>

definition abandoned_run :: "instant \<Rightarrow> claim_db \<Rightarrow> ident \<Rightarrow> claim_actor \<Rightarrow> work_run \<Rightarrow> bool" where
  "abandoned_run now db w actor r \<longleftrightarrow> r \<in> set (runs db) \<and> is_open_run r \<and>
     (\<exists>c \<in> set (claims db). clWorkId c = w \<and> Some (clActorId c) = actorId actor \<and> \<not> live now c \<and> runClaimId r = Some (clId c))"

definition leaves_orphan :: "instant \<Rightarrow> claim_db \<Rightarrow> report_run_input \<Rightarrow> claim_actor \<Rightarrow> bool" where
  "leaves_orphan now db inp actor \<longleftrightarrow> actorKind actor = AGENT \<and> \<not> truthy (rpRunId inp) \<and>
     parseRunStatus (rpStatus inp) = Inr (Some RUN_COMPLETED) \<and>
     (\<exists>w r. requireWork db (rpWorkId inp) = Inr w \<and> abandoned_run now db (issueId w) actor r)"

lemma lateRunAllowanceD:
  assumes "lateRunAllowance now db w a = Some (t, stale)"
  shows "state_type_of db w = Some REVIEW" and "\<And>c. c \<in> set (claims db) \<Longrightarrow> clWorkId c = issueId w \<Longrightarrow> \<not> live now c"
    and "now - LATE_RUN_WINDOW_MS < t"
    and "\<And>i. stale = Some i \<Longrightarrow> \<exists>c \<in> set (claims db). clId c = i \<and> clWorkId c = issueId w \<and> clActorId c = a \<and> leaseUntil c = t"
proof -
  let ?cs = "filter (\<lambda>c. clWorkId c = issueId w) (claims db)"
  let ?P = "\<lambda>c. clActorId c = a \<and> now - LATE_RUN_WINDOW_MS < leaseUntil c"
  show "state_type_of db w = Some REVIEW" using assms by (simp add: lateRunAllowance_def Let_def split: if_splits)
  show "\<not> live now c" if "c \<in> set (claims db)" "clWorkId c = issueId w" for c
    using assms that by (auto simp: lateRunAllowance_def Let_def list_ex_iff split: if_splits)
  have "now - LATE_RUN_WINDOW_MS < t \<and> (\<forall>i. stale = Some i \<longrightarrow> (\<exists>c \<in> set ?cs. clId c = i \<and> clActorId c = a \<and> leaseUntil c = t))"
  proof (cases "find ?P ?cs")
    case None
    with assms show ?thesis
      by (auto simp: lateRunAllowance_def Let_def split: if_splits option.splits list.splits json.splits)
  next
    case (Some c)
    then have "?P c \<and> c \<in> set ?cs" by (auto simp: find_Some_iff simp del: set_filter)
    with assms Some show ?thesis by (auto simp: lateRunAllowance_def Let_def split: if_splits)
  qed
  then show "now - LATE_RUN_WINDOW_MS < t"
    and "\<And>i. stale = Some i \<Longrightarrow> \<exists>c \<in> set (claims db). clId c = i \<and> clWorkId c = issueId w \<and> clActorId c = a \<and> leaseUntil c = t"
    by auto
qed

lemma lateRunAllowance_own:
  assumes "lateRunAllowance now db w a = Some (t, stale)" and "c \<in> set (claims db)" and "clWorkId c = issueId w"
    and only: "\<And>d. d \<in> set (claims db) \<Longrightarrow> clWorkId d = issueId w \<Longrightarrow> d = c"
  shows "stale = Some (clId c)"
proof -
  let ?cs = "filter (\<lambda>d. clWorkId d = issueId w) (claims db)"
  let ?P = "\<lambda>d. clActorId d = a \<and> now - LATE_RUN_WINDOW_MS < leaseUntil d"
  have "?cs \<noteq> []" using assms(2,3) by (auto simp: filter_empty_conv)
  with assms(1) obtain d where d: "find ?P ?cs = Some d" "stale = Some (clId d)"
    unfolding lateRunAllowance_def Let_def by (cases "find ?P ?cs") (simp_all split: if_splits)
  from d(1) have "d \<in> set ?cs" by (auto simp: find_Some_iff simp del: set_filter)
  then have "d = c" by (intro only) simp_all
  with d(2) show ?thesis by simp
qed

lemma file_report_parts:
  assumes "file_report sha fresh now inp a w i db = Inr ((r, w', m), db')"
  obtains st tg where "parseRunStatus (rpStatus inp) = Inr st"
    and "report_target_of now db w st (rpRunId inp) a = Inr tg" and "assert_execution sha tg (rpClaimToken inp) a = Inr ()"
    and "\<forall>r0. tgRun tg = Some r0 \<longrightarrow> (\<exists>c db1. move_run now w st inp a tg r0 db = Inr (c, r, db1) \<and>
           finish_report sha fresh now inp a w i False tg (Some c) r db1 = Inr (w', db'))"
    and "tgRun tg = None \<longrightarrow> (\<exists>db1. open_run sha fresh now w st inp a tg db = Inr (r, db1) \<and>
           finish_report sha fresh now inp a w i True tg (tgClaim tg) r db1 = Inr (w', db'))"
proof -
  from assms obtain st tg u where "parseRunStatus (rpStatus inp) = Inr st"
    and "report_target_of now db w st (rpRunId inp) a = Inr tg" and "assert_execution sha tg (rpClaimToken inp) a = Inr u"
    and "(case tgRun tg of
       None \<Rightarrow>
         bind_result (open_run sha fresh now w st inp a tg db) (\<lambda>(r, db1).
         bind_result (finish_report sha fresh now inp a w i True tg (tgClaim tg) r db1) (\<lambda>(w', db2).
         Inr ((r, w', st = Some RUN_COMPLETED \<and> rpFollowups inp = None), db2)))
     | Some r0 \<Rightarrow>
         bind_result (move_run now w st inp a tg r0 db) (\<lambda>(c, r, db1).
         bind_result (finish_report sha fresh now inp a w i False tg (Some c) r db1) (\<lambda>(w', db2).
         Inr ((r, w', st = Some RUN_COMPLETED \<and> rpFollowups inp = None), db2)))) = Inr ((r, w', m), db')"
    unfolding file_report_def Let_def bind_result_eq_Inr by blast
  then show thesis by (intro that[of st tg]) auto
qed

lemma file_report_ok:
  assumes ok: "exec_ok db" and fresh: "rfRunId fresh \<notin> runId ` set (runs db)" and act: "truthy (actorId a)"
    and f: "file_report sha fresh now inp a w i db = Inr ((r, w', m), db')"
    and orphan: "\<And>x. actorKind a = AGENT \<Longrightarrow> \<not> truthy (rpRunId inp) \<Longrightarrow> parseRunStatus (rpStatus inp) = Inr (Some RUN_COMPLETED) \<Longrightarrow>
      \<not> abandoned_run now db (issueId w) a x"
  shows "exec_ok db' \<and> runs_grow db db'"
proof -
  from f obtain st tg where st: "parseRunStatus (rpStatus inp) = Inr st"
    and tg: "report_target_of now db w st (rpRunId inp) a = Inr tg"
    and moved: "\<forall>r0. tgRun tg = Some r0 \<longrightarrow> (\<exists>c db1. move_run now w st inp a tg r0 db = Inr (c, r, db1) \<and>
           finish_report sha fresh now inp a w i False tg (Some c) r db1 = Inr (w', db'))"
    and opened: "tgRun tg = None \<longrightarrow> (\<exists>db1. open_run sha fresh now w st inp a tg db = Inr (r, db1) \<and>
           finish_report sha fresh now inp a w i True tg (tgClaim tg) r db1 = Inr (w', db'))"
    by (rule file_report_parts) (rule that, assumption+)
  show ?thesis
  proof (cases "tgRun tg")
    case (Some r0)
    with moved obtain c db1 where mv: "move_run now w st inp a tg r0 db = Inr (c, r, db1)"
      and fin: "finish_report sha fresh now inp a w i False tg (Some c) r db1 = Inr (w', db')" by blast
    note mc = move_run_cases[OF tg Some mv]
    have "exec_ok (report_releases tg (Some c) r db1) \<and> runs_forward db (report_releases tg (Some c) r db1)"
      by (rule continue_ok[OF ok, of r0 c r now st inp tg db1]) (use mc in simp_all)
    with finish_report_frame[OF fin] forward_grow[of db "report_releases tg (Some c) r db1"] show ?thesis
      by (simp add: runs_grow_def exec_ok_def claims_ok_def)
  next
    case None
    with opened obtain db1 where op: "open_run sha fresh now w st inp a tg db = Inr (r, db1)"
      and fin: "finish_report sha fresh now inp a w i True tg (tgClaim tg) r db1 = Inr (w', db')" by blast
    note r = open_run_row[OF op]
    have "exec_ok (report_releases tg (tgClaim tg) r db1) \<and> runs_grow db (report_releases tg (tgClaim tg) r db1)"
      using tg
    proof (cases rule: report_target_cases)
      case named
      with None show ?thesis by simp
    next
      case (claimed c P)
      with None r fresh report_claimD[OF claimed(2)] open_ok[OF ok, of r db1 tg c] show ?thesis by simp
    next
      case (late l)
      obtain t stale where l: "l = (t, stale)" by (cases l)
      note lr = lateRunAllowanceD[OF late(5)[unfolded l]]
      have "runClaimId x \<noteq> Some (clId d)"
        if d: "d \<in> set (claims db)" "Some (clId d) = stale" and x: "x \<in> set (runs db)" "is_open_run x" for d x
      proof
        assume xd: "runClaimId x = Some (clId d)"
        from lr(4) d(2) obtain c where c: "c \<in> set (claims db)" "clId c = clId d" "clWorkId c = issueId w" "clActorId c = the (actorId a)"
          by metis
        from act have ac: "Some (clActorId c) = actorId a" using c(4) by (auto simp: truthy_def split: option.splits)
        from late(4) c ac have "actorKind a = AGENT"
          by (auto simp: report_claim_def find_None_iff late(3) TERMINAL_RUN_STATUSES_def Let_def)
        moreover have "abandoned_run now db (issueId w) a x"
          using c ac x xd lr(2)[OF c(1,3)] unfolding abandoned_run_def by metis
        ultimately show False using orphan late(2,3) st by blast
      qed
      with late(1,3) r fresh late_ok[OF ok, of r db1 tg t stale] show ?thesis by (simp add: l)
    qed
    with finish_report_frame[OF fin] show ?thesis by (simp add: runs_grow_def exec_ok_def claims_ok_def)
  qed
qed

text \<open>A report is filed, or replays the answer recorded under its key and changes no execution.\<close>

text \<open>A keyed report whose key the actor has used for a report in the team before is a replay.\<close>

definition report_replays :: "claim_db \<Rightarrow> report_run_input \<Rightarrow> claim_actor \<Rightarrow> issue \<Rightarrow> bool" where
  "report_replays db inp a w \<longleftrightarrow> truthy (rpIdempotencyKey inp) \<and> key_used db a ''run_report'' (the (rpIdempotencyKey inp)) (teamId w)"

lemma reportRun_parts:
  assumes "reportRun sha fresh now db inp a = Inr (ans, db')"
  obtains (filed) w i db1 where "requireWork db (rpWorkId inp) = Inr w" and "truthy (actorId a)"
      and "file_report sha fresh now inp a w i db1 = Inr (ans, db')" and "claims db1 = claims db" and "runs db1 = runs db"
      and "issues db1 = issues db" and "states db1 = states db" and "truthy (rpIdempotencyKey inp) \<or> db1 = db"
      and "\<not> report_replays db inp a w" and "reviewDecisions db1 = reviewDecisions db" and "evaluations db1 = evaluations db"
  | (replayed) w rec where "requireWork db (rpWorkId inp) = Inr w" and "truthy (rpIdempotencyKey inp)"
      and "claims db' = claims db" and "runs db' = runs db" and "replay_report sha inp a w rec db' = Inr (ans, db')"
      and "report_replays db inp a w" and "db' = db"
proof -
  from assms obtain w where w: "requireWork db (rpWorkId inp) = Inr w" and act: "truthy (actorId a)"
    by (auto simp: reportRun_def report_shape_def)
  show thesis
  proof (cases "truthy (rpIdempotencyKey inp)")
    case False
    with assms w filed[OF w act, of None db] show thesis by (auto simp: reportRun_def report_replays_def)
  next
    case True
    with assms w obtain created rec db1 where
        res: "reserveWorkIdempotency (rfIdempotencyId fresh) a (the (rpIdempotencyKey inp)) ''run_report''
          (hashIdempotencyRequest sha (report_request inp)) (teamId w) db = Inr ((created, rec), db1)"
      and rest: "(if created then file_report sha fresh now inp a w (Some (wiId rec)) db1
        else replay_report sha inp a w rec db1) = Inr (ans, db')"
      by (auto simp: reportRun_def)
    note fr = reserve_frame[OF res] and cr = reserve_created[OF res]
    have cr1: "created \<longleftrightarrow> \<not> report_replays db inp a w" using True cr(1) by (simp add: report_replays_def)
    show thesis
    proof (cases created)
      case True
      with rest filed[OF w act _ fr(1,2,3,4)] cr1 cr(3,4) \<open>truthy (rpIdempotencyKey inp)\<close> show thesis by simp
    next
      case False
      with rest have "replay_report sha inp a w rec db1 = Inr (ans, db')" "db' = db1"
        by (auto simp: replay_report_def split: option.splits if_splits)
      with replayed[OF w True] fr cr(2) cr1 False show thesis by blast
    qed
  qed
qed

lemma report_exec_ok:
  assumes "exec_ok db" and "rfRunId fresh \<notin> runId ` set (runs db)" and "\<not> leaves_orphan now db inp a"
    and "reportRun sha fresh now db inp a = Inr (ans, db')"
  shows "exec_ok db' \<and> runs_grow db db'"
  using assms(4)
proof (cases rule: reportRun_parts)
  case (filed w i db1)
  obtain r w' m where ans: "ans = (r, w', m)" by (cases ans)
  have "exec_ok db1" using assms(1) by (rule exec_ok_cong[THEN iffD1, rotated -1]) (simp_all add: filed)
  moreover have "\<not> abandoned_run now db1 (issueId w) a x"
    if "actorKind a = AGENT" "\<not> truthy (rpRunId inp)" "parseRunStatus (rpStatus inp) = Inr (Some RUN_COMPLETED)" for x
    using assms(3) that filed(1) by (auto simp: leaves_orphan_def abandoned_run_def filed(4,5))
  ultimately have "exec_ok db' \<and> runs_grow db1 db'"
    using file_report_ok[of db1 fresh a sha now inp w i r w' m db'] filed(2,3) assms(2) by (simp add: ans filed(5))
  then show ?thesis by (simp add: runs_grow_def filed(5))
next
  case (replayed w rec)
  then show ?thesis using assms(1) by (simp add: runs_grow_def exec_ok_def claims_ok_def list_all2_refl)
qed

lemma touch_forward: "runs_forward db (touch_run now r db)"
  by (auto simp: runs_forward_def touch_run_def update_runs_def run_forward_def is_open_run_def intro!: update_rows_forward)

lemma touch_claims [simp]: "claims (touch_run now r db) = claims db"
  by (simp add: touch_run_def)

lemma touch_ok: "claims_ok db \<Longrightarrow> claims_ok (touch_run now r db)"
  by (auto simp: claims_ok_def touch_run_def update_runs_def set_update_rows bound_to_claim_def is_open_run_def)

lemma touch_exec_ok: "exec_ok db \<Longrightarrow> exec_ok (touch_run now r db) \<and> runs_grow db (touch_run now r db)"
  by (rule conjI[OF forward_exec_ok[OF _ touch_ok touch_forward] forward_grow[OF touch_forward]]) (auto simp: exec_ok_def)

lemma add_evidence_frame:
  assumes "add_run_evidence sha n g now k inp a w i db = Inr (ans, db')"
  shows "claims db' = claims db \<and> (\<exists>r. runs db' = runs (touch_run now r db))"
proof -
  let ?r = "if truthy (aeiRunId inp) then findRun db (the (aeiRunId inp)) (issueId w) else None"
  from assms have "claims db' = claims db \<and> runs db' = runs (touch_run now ?r db)"
    unfolding add_run_evidence_def Let_def by (clarsimp split: option.splits)
  then show ?thesis by blast
qed

lemma add_evidence_ok:
  assumes "exec_ok db" and "add_run_evidence sha n g now k inp a w i db = Inr (ans, db')"
  shows "exec_ok db' \<and> runs_grow db db'"
proof -
  from add_evidence_frame[OF assms(2)] obtain r where "claims db' = claims db" "runs db' = runs (touch_run now r db)" by blast
  with touch_exec_ok[OF assms(1), of now r] show ?thesis by (simp add: exec_ok_def claims_ok_def runs_grow_def)
qed

lemma attachEvidence_parts:
  assumes "attachEvidence sha n g k now db inp a = Inr (ans, db')"
  obtains (added) kd w i db1 where "claims db1 = claims db" and "runs db1 = runs db"
      and "add_run_evidence sha n g now kd inp a w i db1 = Inr (ans, db')"
  | (replayed) "claims db' = claims db" and "runs db' = runs db"
proof -
  from assms obtain w kd where rest: "(if \<not> truthy (aeiIdempotencyKey inp) then add_run_evidence sha n g now kd inp a w None db
     else bind_result (reserveWorkIdempotency k a (the (aeiIdempotencyKey inp)) ''evidence_attach''
         (hashIdempotencyRequest sha (evidence_request inp)) (teamId w) db) (\<lambda>((created, record), db1).
       if created then add_run_evidence sha n g now kd inp a w (Some (wiId record)) db1
       else bind_result (throw_if (wiWorkId record \<noteq> Some (issueId w)) (ValidationError ''WORK_IDEMPOTENCY_CONFLICT_MESSAGE'')) (\<lambda>_.
         case Option.bind (if truthy (wiResultId record) then wiResultId record else None) (\<lambda>i. find_row reId i (runEvidences db1)) of
           None \<Rightarrow> Inl (ValidationError ''WORK_IDEMPOTENCY_RESULT_UNAVAILABLE_MESSAGE'')
         | Some e \<Rightarrow> if reWorkId e \<noteq> issueId w then Inl (ValidationError ''WORK_IDEMPOTENCY_RESULT_UNAVAILABLE_MESSAGE'')
                     else Inr ((e, w), db1)))) = Inr (ans, db')"
    unfolding attachEvidence_def bind_result_eq_Inr by blast
  show thesis
  proof (cases "truthy (aeiIdempotencyKey inp)")
    case False
    with rest added show thesis by simp
  next
    case True
    with rest obtain created rec db1 where
        res: "reserveWorkIdempotency k a (the (aeiIdempotencyKey inp)) ''evidence_attach''
          (hashIdempotencyRequest sha (evidence_request inp)) (teamId w) db = Inr ((created, rec), db1)"
      and "created \<and> add_run_evidence sha n g now kd inp a w (Some (wiId rec)) db1 = Inr (ans, db') \<or> db' = db1"
      by (auto split: if_splits option.splits)
    with reserve_frame(1,2)[OF res] added replayed show thesis by blast
  qed
qed

lemma evidence_exec_ok:
  assumes "exec_ok db" and "attachEvidence sha n g k now db inp a = Inr (ans, db')"
  shows "exec_ok db' \<and> runs_grow db db'"
  using assms(2)
proof (cases rule: attachEvidence_parts)
  case (added kd w i db1)
  from assms(1) have "exec_ok db1" by (simp add: exec_ok_def claims_ok_def added)
  from add_evidence_ok[OF this added(3)] show ?thesis by (simp add: runs_grow_def added)
next
  case replayed
  with assms(1) show ?thesis by (simp add: exec_ok_def claims_ok_def runs_grow_def list_all2_refl)
qed

section \<open>Sequences of operations\<close>

text \<open>Leases and reports together, without the late report that leaves a run open behind it.\<close>

inductive exec_step :: "(string \<Rightarrow> string) \<Rightarrow> claim_db \<Rightarrow> claim_db \<Rightarrow> bool" for sha where
  leases: "claim_step sha db db' \<Longrightarrow> exec_step sha db db'"
| reports: "reportRun sha fresh now db inp actor = Inr (a, db') \<Longrightarrow> rfRunId fresh \<notin> runId ` set (runs db) \<Longrightarrow>
    \<not> leaves_orphan now db inp actor \<Longrightarrow> exec_step sha db db'"
| evidence: "attachEvidence sha n g k now db inp actor = Inr (a, db') \<Longrightarrow> exec_step sha db db'"

inductive_cases exec_stepE: "exec_step sha db db'"

lemma exec_step_ok:
  assumes "exec_ok db" and "exec_step sha db db'"
  shows "exec_ok db' \<and> runs_grow db db'"
  using assms(2)
proof cases
  case leases
  from claim_step_ok[OF _ leases] assms(1) have "claims_ok db'" "runs_forward db db'" by (simp_all add: exec_ok_def)
  with forward_exec_ok[OF assms(1)] forward_grow show ?thesis by blast
qed (use report_exec_ok[OF assms(1)] evidence_exec_ok[OF assms(1)] in blast)+

interpretation exec_runs: step_system "exec_step sha" exec_ok runs_grow for sha
  by unfold_locales (auto dest: exec_step_ok intro: runs_grow_trans)

section \<open>Properties\<close>

definition proves :: "(string \<Rightarrow> string) \<Rightarrow> string option \<Rightarrow> string option \<Rightarrow> bool" where
  "proves sha tok hash \<longleftrightarrow> truthy tok \<and> hash = Some (sha (the tok))"

lemma assert_execution_ok:
  assumes "assert_execution sha tg tok a = Inr ()" and "actorKind a = AGENT" and "tgLate tg = None"
  shows "(\<forall>r. tgRun tg = Some r \<longrightarrow> executionRevokedAt r = None) \<and>
    (proves sha tok (Option.bind (tgRun tg) runTokenHash) \<or>
     Option.bind (tgRun tg) runTokenHash = None \<and> proves sha tok (Option.bind (tgClaim tg) clTokenHash))"
  using assms by (auto simp: assert_execution_def Let_def assertWorkToken_ok proves_def truthy_def split: if_splits)

lemma filed_is_fenced:
  assumes f: "file_report sha fresh now inp a w i db = Inr ((r, w', m), db')" and ag: "actorKind a = AGENT"
  shows "(\<exists>c \<in> set (claims db). clWorkId c = issueId w \<and> Some (clActorId c) = actorId a \<and> live now c \<and>
      (runId r = rfRunId fresh \<and> runClaimId r = Some (clId c) \<and> runTokenHash r = clTokenHash c \<and> proves sha (rpClaimToken inp) (clTokenHash c) \<or>
       (\<exists>r0 \<in> set (runs db). runId r0 = runId r \<and> runClaimId r0 = Some (clId c) \<and> is_open_run r0 \<and> runActorId r0 = actorId a \<and>
          executionRevokedAt r0 = None \<and> (runStatus r = runStatus r0 \<or> runStatus r \<in> set (ALLOWED_RUN_TRANSITIONS (runStatus r0))) \<and>
          (proves sha (rpClaimToken inp) (runTokenHash r0) \<or> runTokenHash r0 = None \<and> proves sha (rpClaimToken inp) (clTokenHash c))))) \<or>
    runId r = rfRunId fresh \<and> runStatus r = RUN_COMPLETED \<and> runClaimId r = None \<and> runTokenHash r = None \<and>
      state_type_of db w = Some REVIEW \<and> (\<forall>c \<in> set (claims db). clWorkId c = issueId w \<longrightarrow> \<not> live now c)"
proof -
  from f obtain st tg where tg: "report_target_of now db w st (rpRunId inp) a = Inr tg"
    and ex: "assert_execution sha tg (rpClaimToken inp) a = Inr ()"
    and moved: "\<forall>r0. tgRun tg = Some r0 \<longrightarrow> (\<exists>c db1. move_run now w st inp a tg r0 db = Inr (c, r, db1) \<and>
           finish_report sha fresh now inp a w i False tg (Some c) r db1 = Inr (w', db'))"
    and opened: "tgRun tg = None \<longrightarrow> (\<exists>db1. open_run sha fresh now w st inp a tg db = Inr (r, db1) \<and>
           finish_report sha fresh now inp a w i True tg (tgClaim tg) r db1 = Inr (w', db'))"
    by (rule file_report_parts) (rule that, assumption+)
  show ?thesis
  proof (cases "tgRun tg")
    case (Some r0)
    with moved obtain c db1 where mv: "move_run now w st inp a tg r0 db = Inr (c, r, db1)" by blast
    note mc = move_run_cases[OF tg Some mv]
    have ts: "runStatus r = runStatus r0 \<or> runStatus r \<in> set (ALLOWED_RUN_TRANSITIONS (runStatus r0))"
      using mc by (cases st) (auto simp: apply_report_def overwrite_def)
    have "tgClaim tg = None \<or> tgClaim tg = Some c"
      using mv by (auto simp: move_run_def continuing_claim_def Let_def split: option.splits)
    with assert_execution_ok[OF ex ag] mc Some have
      "executionRevokedAt r0 = None" "proves sha (rpClaimToken inp) (runTokenHash r0) \<or> runTokenHash r0 = None \<and> proves sha (rpClaimToken inp) (clTokenHash c)"
      by (auto simp: proves_def)
    note own = this
    show ?thesis
    proof (rule disjI1, intro bexI[of _ c] conjI)
      show "runId r = rfRunId fresh \<and> runClaimId r = Some (clId c) \<and> runTokenHash r = clTokenHash c \<and> proves sha (rpClaimToken inp) (clTokenHash c) \<or>
         (\<exists>r0 \<in> set (runs db). runId r0 = runId r \<and> runClaimId r0 = Some (clId c) \<and> is_open_run r0 \<and> runActorId r0 = actorId a \<and>
          executionRevokedAt r0 = None \<and> (runStatus r = runStatus r0 \<or> runStatus r \<in> set (ALLOWED_RUN_TRANSITIONS (runStatus r0))) \<and>
          (proves sha (rpClaimToken inp) (runTokenHash r0) \<or> runTokenHash r0 = None \<and> proves sha (rpClaimToken inp) (clTokenHash c)))"
        by (intro disjI2 bexI[of _ r0]) (use mc ts own in simp_all)
    qed (use mc ag in simp_all)
  next
    case None
    with opened obtain db1 where op: "open_run sha fresh now w st inp a tg db = Inr (r, db1)" by blast
    note r = open_run_row[OF op]
    from tg show ?thesis
    proof (cases rule: report_target_cases)
      case named
      with None show ?thesis by simp
    next
      case (claimed c P)
      with None r assert_execution_ok[OF ex ag] report_claimD[OF claimed(2)] ag show ?thesis
        by (intro disjI1 bexI[of _ c]) (auto simp: proves_def[of _ _ None])
    next
      case (late l)
      obtain t stale where l: "l = (t, stale)" by (cases l)
      from late(1,3) r lateRunAllowanceD(1,2)[OF late(5)[unfolded l]] show ?thesis by (intro disjI2) auto
    qed
  qed
qed

text \<open>
  C2: An agent's report is fenced. It replays an earlier answer without touching an execution, or it is made under a
  live lease of that agent on that work, whose token (or the token of the unrevoked open run it continues, in an
  allowed transition) it presents, or it files a late completed run on work in review that nobody holds.
\<close>

theorem report_is_fenced:
  assumes "reportRun sha fresh now db inp actor = Inr ((r, w, m), db')" and "actorKind actor = AGENT"
  shows "\<exists>x. requireWork db (rpWorkId inp) = Inr x \<and>
    (claims db' = claims db \<and> runs db' = runs db \<and> r \<in> set (runs db) \<and> runWorkId r = issueId x \<and>
       proves sha (rpClaimToken inp) (runTokenHash r) \<and> executionRevokedAt r = None \<or>
     (\<exists>c \<in> set (claims db). clWorkId c = issueId x \<and> Some (clActorId c) = actorId actor \<and> live now c \<and>
       (runId r = rfRunId fresh \<and> runClaimId r = Some (clId c) \<and> runTokenHash r = clTokenHash c \<and> proves sha (rpClaimToken inp) (clTokenHash c) \<or>
        (\<exists>r0 \<in> set (runs db). runId r0 = runId r \<and> runClaimId r0 = Some (clId c) \<and> is_open_run r0 \<and> runActorId r0 = actorId actor \<and>
           executionRevokedAt r0 = None \<and> (runStatus r = runStatus r0 \<or> runStatus r \<in> set (ALLOWED_RUN_TRANSITIONS (runStatus r0))) \<and>
           (proves sha (rpClaimToken inp) (runTokenHash r0) \<or> runTokenHash r0 = None \<and> proves sha (rpClaimToken inp) (clTokenHash c))))) \<or>
     runId r = rfRunId fresh \<and> runStatus r = RUN_COMPLETED \<and> runClaimId r = None \<and> runTokenHash r = None \<and>
       state_type_of db x = Some REVIEW \<and> (\<forall>c \<in> set (claims db). clWorkId c = issueId x \<longrightarrow> \<not> live now c))"
  using assms(1)
proof (cases rule: reportRun_parts)
  case (filed x i db1)
  have "state_type_of db1 x = state_type_of db x" by (simp add: state_type_of_def find_state_def filed(7))
  with filed_is_fenced[OF filed(3) assms(2)] filed(1,4,5) show ?thesis by simp
next
  case (replayed x rec)
  then have "r \<in> set (runs db') \<and> runWorkId r = issueId x \<and> proves sha (rpClaimToken inp) (runTokenHash r) \<and> executionRevokedAt r = None"
    using assms(2) by (auto simp: replay_report_def assertWorkToken_ok proves_def Option.bind_eq_Some_conv
        split: option.splits if_splits dest: find_row_Some)
  with replayed show ?thesis by simp
qed

text \<open>
  C3: Along any sequence of claims, releases, sweeps, reports and evidence, except the late report that abandons its
  open run, a work item has at most one claim and at most one open run, and that run belongs to the
  present claim and is not revoked; no run is lost, a closed one keeps its status and summary, and a revoked
  one stays revoked.
\<close>

theorem reports_stay_fenced:
  assumes "exec_ok db" and "(exec_step sha)\<^sup>*\<^sup>* db db'"
  shows "distinct (map clWorkId (claims db')) \<and>
    (\<forall>r \<in> set (runs db'). is_open_run r \<longrightarrow>
       (\<exists>c. find_claim db' (runWorkId r) = Some c \<and> runClaimId r = Some (clId c) \<and> executionRevokedAt r = None) \<and>
       (\<forall>s \<in> set (runs db'). is_open_run s \<and> runWorkId s = runWorkId r \<longrightarrow> s = r)) \<and>
    length (runs db) \<le> length (runs db') \<and> list_all2 run_forward (runs db) (List.take (length (runs db)) (runs db'))"
proof -
  have ok: "exec_ok db'" by (rule exec_runs.run_inv[OF assms(2,1)])
  then have ck: "claims_ok db'" by (simp add: exec_ok_def)
  have own: "\<exists>c. find_claim db' (runWorkId r) = Some c \<and> runClaimId r = Some (clId c) \<and> executionRevokedAt r = None"
    if "r \<in> set (runs db')" "is_open_run r" for r
    using open_runD[OF ck that] claim_of_work[OF ck] by metis
  have "s = r" if r: "r \<in> set (runs db')" "is_open_run r" and s: "s \<in> set (runs db')" "is_open_run s" and w: "runWorkId s = runWorkId r" for r s
  proof -
    from own[OF r] own[OF s] w have "runClaimId s = runClaimId r" by auto
    with ok r s have "runId s = runId r" unfolding exec_ok_def single_open_def by blast
    with unique_key_inj[of runId "runs db'" s r] ok r s show ?thesis by (simp add: exec_ok_def)
  qed
  with own ck exec_runs.run_mono[OF assms(2,1)] show ?thesis
    by (auto simp: claims_ok_def unique_key_def runs_grow_def)
qed

text \<open>A filed report moves no run that has no claim: it continues the run of a claim or opens another.\<close>

lemma report_spares_unclaimed:
  assumes f: "file_report sha fresh now inp a w i db = Inr ((r, w', m), db')" and u: "unique_key runId (runs db)"
    and fresh: "rfRunId fresh \<notin> runId ` set (runs db)" and x: "x \<in> set (runs db)" "runClaimId x = None"
  shows "x \<in> set (runs db') \<and> runId r \<noteq> runId x"
proof -
  have rel: "x \<in> set (runs (report_releases tg claim q d))" if "x \<in> set (runs d)" for tg claim q d
    using that x(2) by (auto simp: report_releases_def late_release_def delete_claims_def set_update_rows Let_def
        intro!: image_eqI[of _ _ x] split: option.splits)
  from f obtain st tg where tg: "report_target_of now db w st (rpRunId inp) a = Inr tg"
    and moved: "\<forall>r0. tgRun tg = Some r0 \<longrightarrow> (\<exists>c db1. move_run now w st inp a tg r0 db = Inr (c, r, db1) \<and>
           finish_report sha fresh now inp a w i False tg (Some c) r db1 = Inr (w', db'))"
    and opened: "tgRun tg = None \<longrightarrow> (\<exists>db1. open_run sha fresh now w st inp a tg db = Inr (r, db1) \<and>
           finish_report sha fresh now inp a w i True tg (tgClaim tg) r db1 = Inr (w', db'))"
    by (rule file_report_parts) (rule that, assumption+)
  show ?thesis
  proof (cases "tgRun tg")
    case (Some r0)
    with moved obtain c db1 where mv: "move_run now w st inp a tg r0 db = Inr (c, r, db1)"
      and fin: "finish_report sha fresh now inp a w i False tg (Some c) r db1 = Inr (w', db')" by blast
    note mc = move_run_cases[OF tg Some mv]
    then have "runId x \<noteq> runId r0" using unique_key_inj[OF u x(1), of r0] x(2) by auto
    with mc x(1) show ?thesis using rel finish_report_frame(2)[OF fin] by (auto simp: set_update_rows intro!: image_eqI[of _ _ x])
  next
    case None
    with opened obtain db1 where op: "open_run sha fresh now w st inp a tg db = Inr (r, db1)"
      and fin: "finish_report sha fresh now inp a w i True tg (tgClaim tg) r db1 = Inr (w', db')" by blast
    with x(1) fresh rel finish_report_frame(2)[OF fin] open_run_row(1,10)[OF op] show ?thesis by auto
  qed
qed

text \<open>A late report drops the expired claim of the work, and with it the link of the run made under it.\<close>

lemma late_report_drops:
  assumes f: "file_report sha fresh now inp a w i db = Inr ((r, w', m), db')" and kind: "actorKind a = AGENT" and run: "\<not> truthy (rpRunId inp)"
    and c: "c \<in> set (claims db)" "clWorkId c = issueId w" "\<not> live now c"
    and only: "\<And>d. d \<in> set (claims db) \<Longrightarrow> clWorkId d = issueId w \<Longrightarrow> d = c"
  shows "claims db' = filter (\<lambda>d. clId d \<noteq> clId c) (claims db)"
    and "runs db' = update_rows (\<lambda>x. \<exists>d \<in> set (map clId (filter (\<lambda>d. clId d = clId c) (claims db))). runClaimId x = Some d)
      (\<lambda>x. x\<lparr>runClaimId := None\<rparr>) (runs db @ [r])"
    and "runId r = rfRunId fresh"
proof -
  from f obtain st tg where tg: "report_target_of now db w st (rpRunId inp) a = Inr tg"
    and opened: "tgRun tg = None \<longrightarrow> (\<exists>db1. open_run sha fresh now w st inp a tg db = Inr (r, db1) \<and>
           finish_report sha fresh now inp a w i True tg (tgClaim tg) r db1 = Inr (w', db'))"
    by (rule file_report_parts) (rule that, assumption+)
  from tg obtain t stale where l: "tg = \<lparr>tgRun = None, tgClaim = None, tgLate = Some (t, stale)\<rparr>"
    and al: "lateRunAllowance now db w (the (actorId a)) = Some (t, stale)"
  proof (cases rule: report_target_cases)
    case (claimed d P)
    from report_claimD[OF claimed(2)] only c(3) kind show ?thesis by blast
  qed (use run in auto)
  have "stale = Some (clId c)" by (rule lateRunAllowance_own[OF al c(1,2) only])
  moreover from opened l obtain db1 where op: "open_run sha fresh now w st inp a tg db = Inr (r, db1)"
    and "finish_report sha fresh now inp a w i True tg None r db1 = Inr (w', db')" by auto
  moreover note open_run_row(9,10)[OF op]
  ultimately show "claims db' = filter (\<lambda>d. clId d \<noteq> clId c) (claims db)"
    and "runs db' = update_rows (\<lambda>x. \<exists>d \<in> set (map clId (filter (\<lambda>d. clId d = clId c) (claims db))). runClaimId x = Some d)
      (\<lambda>x. x\<lparr>runClaimId := None\<rparr>) (runs db @ [r])"
    using finish_report_frame[of sha fresh now inp a w i True tg None r db1 w' db']
    by (simp_all add: report_releases_def late_release_def delete_claims_def Let_def l)
  show "runId r = rfRunId fresh" by (rule open_run_row(1)[OF op])
qed

text \<open>
  C38: A late report abandons the execution it finishes. When an agent files a completed run for work in review after its
  lease ran out, and its run under that lease is still open, then that run stays open with no claim; every report
  that succeeds next leaves it as it is, and one that answers with it is a replay that changes nothing.
\<close>

theorem late_report_orphans_run:
  assumes "exec_ok db" and "rfRunId fresh \<notin> runId ` set (runs db)" and "actorKind actor = AGENT" and "\<not> truthy (rpRunId inp)"
    and "requireWork db (rpWorkId inp) = Inr w" and "abandoned_run now db (issueId w) actor r"
    and "reportRun sha fresh now db inp actor = Inr (a, db')" and "\<not> report_replays db inp actor w"
  shows "r\<lparr>runClaimId := None\<rparr> \<in> set (runs db') \<and> is_open_run (r\<lparr>runClaimId := None\<rparr>) \<and> find_claim db' (issueId w) = None \<and>
    (\<forall>fresh2 later inp2 actor2 r2 w2 m2 db2. rfRunId fresh2 \<notin> runId ` set (runs db') \<longrightarrow>
       reportRun sha fresh2 later db' inp2 actor2 = Inr ((r2, w2, m2), db2) \<longrightarrow>
       r\<lparr>runClaimId := None\<rparr> \<in> set (runs db2) \<and> (runId r2 = runId r \<longrightarrow> report_replays db' inp2 actor2 w2 \<and> db2 = db'))"
proof -
  let ?r = "r\<lparr>runClaimId := None\<rparr>"
  have ck: "claims_ok db" using assms(1) by (simp add: exec_ok_def)
  from assms(6) obtain c where r: "r \<in> set (runs db)" "is_open_run r" and c: "c \<in> set (claims db)" "clWorkId c = issueId w"
      "\<not> live now c" "runClaimId r = Some (clId c)"
    by (auto simp: abandoned_run_def)
  have only: "d = c" if "d \<in> set (claims db)" "clWorkId d = issueId w" for d
    using unique_key_inj[of clWorkId "claims db" d c] ck c that by (simp add: claims_ok_def)
  obtain r1 w1 m1 where a: "a = (r1, w1, m1)" by (cases a)
  from assms(7) obtain i d where f: "file_report sha fresh now inp actor w i d = Inr ((r1, w1, m1), db')"
    and d: "claims d = claims db" "runs d = runs db"
    using assms(5,8) unfolding a by (cases rule: reportRun_parts) auto
  note dr = late_report_drops[OF f assms(3,4), unfolded d, OF c(1-3) only]
  have mem: "?r \<in> set (runs db')"
  proof -
    have "?r \<in> (\<lambda>x. if \<exists>d \<in> set (map clId (filter (\<lambda>d. clId d = clId c) (claims db))). runClaimId x = Some d
        then x\<lparr>runClaimId := None\<rparr> else x) ` set (runs db @ [r1])"
      by (rule image_eqI[of _ _ r]) (use r(1) c(1,4) in auto)
    with dr(2) show ?thesis by (simp only: set_update_rows)
  qed
  have "unique_key runId (runs db @ [r1])" using assms(1,2) by (simp add: exec_ok_def dr(3))
  then have u: "unique_key runId (runs db')" by (simp add: dr(2) unique_key_update)
  have later: "?r \<in> set (runs db2) \<and> (runId r2 = runId r \<longrightarrow> report_replays db' inp2 actor2 w2 \<and> db2 = db')"
    if fresh2: "rfRunId fresh2 \<notin> runId ` set (runs db')" and rep: "reportRun sha fresh2 now2 db' inp2 actor2 = Inr ((r2, w2, m2), db2)"
    for fresh2 now2 inp2 actor2 r2 w2 m2 db2
    using rep
  proof (cases rule: reportRun_parts)
    case (filed v k e)
    from report_spares_unclaimed[OF filed(3), unfolded filed(5), OF u fresh2 mem] show ?thesis by simp
  next
    case (replayed v rec)
    then have "w2 = v" by (auto simp: replay_report_def split: option.splits if_splits)
    with replayed mem show ?thesis by simp
  qed
  have "find_claim db' (issueId w) = None" using only by (auto simp: find_claim_def find_row_None dr(1))
  with mem r(2) later show ?thesis by (simp add: is_open_run_def)
qed

section \<open>An execution reported while its lease runs, and after it ran out\<close>

definition review_state :: workflow_state where
  "review_state = \<lparr>wsId = ''review'', wsType = REVIEW, wsTeamId = ''t'', position = 3\<rparr>"

definition exec_db :: claim_db where
  "exec_db = lease_db\<lparr>states := states lease_db @ [review_state]\<rparr>"

definition late_db :: claim_db where
  "late_db = exec_db\<lparr>issues := [lease_work\<lparr>stateId := ''review''\<rparr>]\<rparr>"

definition agent_a :: claim_actor where
  "agent_a = \<lparr>actorId = Some ''a'', actorKind = AGENT, reason = None, surface = None, agentCredentialId = None\<rparr>"

definition plain_report :: "string \<Rightarrow> report_run_input" where
  "plain_report st = \<lparr>rpWorkId = ''w'', rpRunId = None, rpStatus = Some st, rpClaimToken = Some ''x'', rpReceipt = None,
     rpCommitSha = None, rpPullRequestNumber = None, rpPhase = None, rpSummary = Some (Some ''done''), rpExternalUrl = None,
     rpDecisionRequested = False, rpIdempotencyKey = None, rpFollowups = None, rpScheduleRound = None\<rparr>"

definition new_report :: report_fresh where
  "new_report = \<lparr>rfRunId = ''s'', rfIdempotencyId = ''k'', rfLinkIds = [], rfGateActorId = ''g''\<rparr>"

lemma exec_db_ok: "exec_ok exec_db" "exec_ok late_db"
  by code_simp+

lemma blocked_report: "is_ok (reportRun (\<lambda>s. s) new_report 50 exec_db (plain_report ''blocked'') agent_a)"
  by code_simp

lemma late_report: "is_ok (reportRun (\<lambda>s. s) new_report 200 late_db (plain_report ''completed'') agent_a)"
  by code_simp

theorem report_is_fenced_witness:
  "\<exists>r w m db'. reportRun (\<lambda>s. s) new_report 50 exec_db (plain_report ''blocked'') agent_a = Inr ((r, w, m), db') \<and>
     (\<exists>x. requireWork exec_db ''w'' = Inr x)"
proof -
  obtain r w m db' where rep: "reportRun (\<lambda>s. s) new_report 50 exec_db (plain_report ''blocked'') agent_a = Inr ((r, w, m), db')"
    using blocked_report by (cases "reportRun (\<lambda>s. s) new_report 50 exec_db (plain_report ''blocked'') agent_a") auto
  from report_is_fenced[OF rep] rep show ?thesis by (auto simp: agent_a_def plain_report_def)
qed

theorem reports_stay_fenced_witness:
  "\<exists>db'. (exec_step (\<lambda>s. s))\<^sup>*\<^sup>* exec_db db' \<and> map runStatus (runs db') = [BLOCKED] \<and> distinct (map clWorkId (claims db'))"
proof -
  obtain a db' where rep: "reportRun (\<lambda>s. s) new_report 50 exec_db (plain_report ''blocked'') agent_a = Inr (a, db')"
    using blocked_report by (cases "reportRun (\<lambda>s. s) new_report 50 exec_db (plain_report ''blocked'') agent_a") auto
  have "case reportRun (\<lambda>s. s) new_report 50 exec_db (plain_report ''blocked'') agent_a of
      Inr (a, db') \<Rightarrow> map runStatus (runs db') = [BLOCKED] | Inl e \<Rightarrow> False"
    by code_simp
  with rep have st: "map runStatus (runs db') = [BLOCKED]" by simp
  have "rfRunId new_report \<notin> runId ` set (runs exec_db)" by code_simp
  moreover have "\<not> leaves_orphan 50 exec_db (plain_report ''blocked'') agent_a"
  proof -
    have "parseRunStatus (rpStatus (plain_report ''blocked'')) = Inr (Some BLOCKED)" by code_simp
    then show ?thesis by (simp add: leaves_orphan_def)
  qed
  ultimately have run: "(exec_step (\<lambda>s. s))\<^sup>*\<^sup>* exec_db db'" by (intro r_into_rtranclp exec_step.reports[OF rep])
  from conjunct1[OF reports_stay_fenced[OF exec_db_ok(1) run]] run st show ?thesis by (intro exI[of _ db'] conjI)
qed

theorem late_report_orphans_run_witness:
  "\<exists>a db'. reportRun (\<lambda>s. s) new_report 200 late_db (plain_report ''completed'') agent_a = Inr (a, db') \<and>
     lease_run\<lparr>runClaimId := None\<rparr> \<in> set (runs db') \<and> find_claim db' ''w'' = None"
proof -
  obtain a db' where rep: "reportRun (\<lambda>s. s) new_report 200 late_db (plain_report ''completed'') agent_a = Inr (a, db')"
    using late_report by (cases "reportRun (\<lambda>s. s) new_report 200 late_db (plain_report ''completed'') agent_a") auto
  have w: "requireWork late_db (rpWorkId (plain_report ''completed'')) = Inr (lease_work\<lparr>stateId := ''review''\<rparr>)"
    by (simp add: requireWork_def findWorkByIdOrIdentifier_def find_issue_def find_row_def late_db_def plain_report_def lease_work_def)
  have "abandoned_run 200 late_db (issueId (lease_work\<lparr>stateId := ''review''\<rparr>)) agent_a lease_run"
    by (simp add: abandoned_run_def late_db_def exec_db_def lease_db_def lease_run_def lease_work_def agent_a_def live_def is_open_run_def)
  moreover have "rfRunId new_report \<notin> runId ` set (runs late_db)" by code_simp
  ultimately have "lease_run\<lparr>runClaimId := None\<rparr> \<in> set (runs db') \<and> find_claim db' ''w'' = None"
    using late_report_orphans_run[OF exec_db_ok(2) _ _ _ w _ rep]
    by (simp add: plain_report_def agent_a_def truthy_def lease_work_def report_replays_def)
  with rep show ?thesis by (intro exI[of _ a] exI[of _ db'] conjI) simp_all
qed

end
