(* ===== verification/Run_Completion.thy ===== *)
theory Run_Completion
  imports Run_Safety
begin

text \<open>
  What a completed run does to its work: it goes to review, its claim ends, and the auto-accept gate grades it in the
  shadow. This composes the report with the leases and with the gate.
\<close>

lemma first_state_type:
  assumes "unique_key wsId (states db)" and "first_state db team t = Some s"
  shows "find_state db (wsId s) = Some s \<and> wsType s = t"
  using first_state_mem[OF assms(2)] find_row_unique[OF assms(1)] by (simp add: find_state_def)

lemma gate_grades_once:
  assumes "find_issue db w = Some x" and "state_type_of db x = Some REVIEW"
  shows "\<exists>e. evaluations (snd (tryAutoAccept sha f now db w i)) = evaluations db @ [e] \<and> aeOutcome e = SKIPPED"
proof -
  obtain actor db1 where e: "ensureAutoAcceptActor f db = (actor, db1)" by (cases "ensureAutoAcceptActor f db")
  from assms obtain g r where "snd (tryAutoAccept sha f now db w i) = recordSkipped now actor g r x db1"
    by (auto simp: tryAutoAccept_def Let_def e)
  with recordSkipped_frame(5)[of now actor g r x db1] ensureActor_frame(6)[OF e] show ?thesis by simp
qed

text \<open>The part of the database the review transition is about.\<close>

definition same_kernel :: "claim_db \<Rightarrow> claim_db \<Rightarrow> bool" where
  "same_kernel a b \<longleftrightarrow> issues b = issues a \<and> states b = states a \<and> reviewDecisions b = reviewDecisions a \<and> evaluations b = evaluations a"

lemma same_kernelD:
  assumes "same_kernel a b"
  shows "find_issue b i = find_issue a i" and "state_type_of b w = state_type_of a w" and "evaluations b = evaluations a"
    and "reviewDecisions b = reviewDecisions a" and "states b = states a" and "issues b = issues a"
  using assms by (simp_all add: same_kernel_def find_issue_def state_type_of_def find_state_def)

lemma same_kernel_refl [simp]: "same_kernel a a"
  by (simp add: same_kernel_def)

lemma same_kernel_trans: "same_kernel a b \<Longrightarrow> same_kernel b c \<Longrightarrow> same_kernel a c"
  by (simp add: same_kernel_def)

lemma same_kernel_steps [simp]:
  "same_kernel db (delete_claims P db)" "same_kernel db (enqueue_event now t w d db)" "same_kernel db (notify_all t w us db)"
  "same_kernel db (completeWorkIdempotency i w x db)" "same_kernel db (linkFollowups n f w b db)" "same_kernel db (update_runs Q g db)"
  "same_kernel db (recheck_evidence now r db)"
  "stateId v = stateId u \<Longrightarrow> same_kernel db (recordWorkAudit act (Some v) u w db)"
  by (simp_all add: same_kernel_def delete_claims_def enqueue_event_def notify_all_def completeWorkIdempotency_def linkFollowups_def
      update_runs_def recheck_evidence_def recordWorkAudit_def Let_def split: run_followups.splits)

lemma kernel_report_event: "same_kernel db (report_event now n inp w r db)"
  by (simp add: report_event_def split: option.splits)

lemma kernel_report_notices: "same_kernel db (report_notices n inp w r db)"
  by (simp add: report_notices_def split: option.splits)

lemma kernel_late_writes: "same_kernel db (late_writes w a r l db)"
  unfolding late_writes_def
  by (auto split: option.splits intro: same_kernel_trans[OF same_kernel_steps(1) same_kernel_steps(8)])

lemma kernel_receipt: "attachDecisionReceipt a x db = Inr db' \<Longrightarrow> same_kernel db db'"
  by (auto simp: attachDecisionReceipt_def Let_def same_kernel_def split: if_splits)

text \<open>The transition itself: open work reaches review once, with the next revision, and is graded.\<close>

definition submitted :: "claim_db \<Rightarrow> issue \<Rightarrow> issue \<Rightarrow> claim_db \<Rightarrow> bool" where
  "submitted db w w' db' \<longleftrightarrow> issueId w' = issueId w \<and> find_issue db' (issueId w) = Some w' \<and> reviewDecisions db' = reviewDecisions db \<and>
     (if state_type_of db w \<in> {Some BACKLOG, Some UNSTARTED, Some STARTED}
      then state_type_of db' w' = Some REVIEW \<and> revision w' = revision w + 1 \<and>
        (\<exists>e. evaluations db' = evaluations db @ [e] \<and> aeOutcome e = SKIPPED)
      else w' = w \<and> evaluations db' = evaluations db)"

lemma submitted_kernel:
  assumes "submitted a w w' b" and "same_kernel a0 a" and "same_kernel b b'"
  shows "submitted a0 w w' b'"
  using assms(1) unfolding submitted_def same_kernelD[OF assms(2)] same_kernelD[OF assms(3)] .

lemma moveToInReview_submits:
  assumes iss: "unique_key issueId (issues db)" and ss: "unique_key wsId (states db)" and w: "find_issue db (issueId w) = Some w"
    and m: "moveToInReview sha g now a w db = Inr (x, w', db')"
  shows "submitted db w w' db'"
proof (cases "state_type_of db w \<in> {Some BACKLOG, Some UNSTARTED, Some STARTED}")
  case False
  then have "state_type_of db w \<in> {None, Some REVIEW, Some COMPLETED, Some CANCELED}"
    by (cases "state_type_of db w") (auto intro: state_type.exhaust)
  with m have "w' = w \<and> db' = db" by (auto simp: moveToInReview_def)
  with False w show ?thesis by (simp add: submitted_def)
next
  case True
  have n: "count_rows (\<lambda>x. issueId x = issueId w \<and> revision x = revision w \<and> stateId x = stateId w) (issues db) = 1"
    using count_rows_unique_key[OF iss, of "issueId w" "\<lambda>x. revision x = revision w \<and> stateId x = stateId w"] w
    by (simp add: find_issue_def)
  define up where "up = (\<lambda>(s::workflow_state) (db::claim_db). update_issue (issueId w) (\<lambda>x. x\<lparr>stateId := wsId s, revision := revision x + 1\<rparr>) db)"
  define au where "au = (\<lambda>(s::workflow_state) (db::claim_db). recordWorkAudit (Some (write_actor.truncate a)) (Some w)
      (w\<lparr>stateId := wsId s, revision := revision w + 1\<rparr>) (issueId w) db)"
  from m True n obtain s where s: "first_state db (teamId w) REVIEW = Some s"
    and w': "w' = w\<lparr>stateId := wsId s, revision := revision w + 1\<rparr>"
    and db': "db' = snd (tryAutoAccept sha g now (enqueue_event now ''work.review_submitted'' (issueId w)
      [(''fromRevision'', JNum (of_int (revision w))), (''toRevision'', JNum (of_int (revision w')))] (au s (up s db))) (issueId w) None)"
    unfolding moveToInReview_def Let_def up_def au_def by (auto split: option.splits if_splits)
  note st = first_state_type[OF ss s]
  obtain f where f: "find_state db (stateId w) = Some f" "\<not> is_terminal_type (wsType f)"
    using True by (auto simp: state_type_of_def is_terminal_type_def)
  have au: "issues (au s (up s db)) = issues (up s db)" "states (au s (up s db)) = states db"
    using f st by (simp_all add: au_def up_def recordWorkAudit_def recordReopenIfAny_def isReopen_def find_state_def Let_def split: option.splits)
  have k: "evaluations (au s (up s db)) = evaluations db" "reviewDecisions (au s (up s db)) = reviewDecisions db"
    by (simp_all add: au_def up_def recordWorkAudit_def recordReopenIfAny_def update_issue_def Let_def split: option.splits)
  have fi: "find_issue (up s db) (issueId w) = Some w'" unfolding up_def by (subst find_issue_update) (simp_all add: w w')
  show ?thesis
  proof -
    let ?d = "enqueue_event now ''work.review_submitted'' (issueId w)
      [(''fromRevision'', JNum (of_int (revision w))), (''toRevision'', JNum (of_int (revision w')))] (au s (up s db))"
    have d: "find_issue ?d (issueId w) = Some w'" "state_type_of ?d w' = Some REVIEW" "evaluations ?d = evaluations db"
        "reviewDecisions ?d = reviewDecisions db"
      using fi st au k by (simp_all add: find_issue_def state_type_of_def find_state_def w' enqueue_event_def)
    from gate_grades_once[OF d(1,2), of sha g now None] d True show ?thesis
      by (simp add: submitted_def db' w' find_issue_def state_type_of_def find_state_def)
  qed
qed

lemma kernel_followups: "same_kernel db (case f of Some x \<Rightarrow> linkFollowups n x w b db | None \<Rightarrow> db)"
  by (simp split: option.splits)

lemma kernel_complete: "same_kernel db (case i of Some k \<Rightarrow> completeWorkIdempotency k w x db | None \<Rightarrow> db)"
  by (simp split: option.splits)

lemma transition_submits:
  assumes u: "unique_key issueId (issues db)" "unique_key wsId (states db)" and w: "find_issue db (issueId w) = Some w"
    and r: "runStatus r = RUN_COMPLETED" "scheduleRound r = None"
    and t: "report_transition sha fresh now inp a w r claim db = Inr (x, w', db')"
  shows "submitted db w w' db'"
proof -
  let ?d = "case rpFollowups inp of Some f \<Rightarrow> linkFollowups (rfLinkIds fresh) f (issueId w) (actorId a) db | None \<Rightarrow> db"
  from t r obtain d2 where m: "moveToInReview sha (rfGateActorId fresh) now a w ?d = Inr (x, w', d2)"
    and db': "db' = (case claim of Some c \<Rightarrow> delete_claims (\<lambda>x. clId x = clId c) d2 | None \<Rightarrow> d2)"
    by (auto simp: report_transition_def Let_def)
  have k: "same_kernel db ?d" by (rule kernel_followups)
  have "submitted ?d w w' d2" by (rule moveToInReview_submits[OF _ _ _ m]) (use u w in \<open>simp_all add: same_kernelD[OF k]\<close>)
  then show ?thesis by (rule submitted_kernel[OF _ k]) (simp add: db' split: option.splits)
qed

lemma finish_submits:
  assumes u: "unique_key issueId (issues db)" "unique_key wsId (states db)" and w: "find_issue db (issueId w) = Some w"
    and r: "runStatus r = RUN_COMPLETED" "scheduleRound r = None"
    and f: "finish_report sha fresh now inp a w i n tg claim r db = Inr (w', db')"
  shows "submitted db w w' db'"
proof -
  let ?d1 = "report_event now n inp w r (late_writes w a r (tgLate tg) db)"
  have k1: "same_kernel db ?d1" by (rule same_kernel_trans[OF kernel_late_writes kernel_report_event])
  from f obtain x w2 d2 where t: "report_transition sha fresh now inp a w r claim ?d1 = Inr (x, w2, d2)"
    and rest: "(let db4 = (case i of Some k \<Rightarrow> completeWorkIdempotency k (issueId w) (Some (runId r)) (report_notices n inp w r d2)
          | None \<Rightarrow> report_notices n inp w r d2) in
      case find_issue db4 (issueId w2) of
        None \<Rightarrow> Inl (RecordNotFound (issueId w2))
      | Some freshWork \<Rightarrow>
          (case (rpReceipt inp, x) of
             (None, _) \<Rightarrow> Inr (freshWork, db4)
           | (Some y, None) \<Rightarrow> Inl (ValidationError ''RUN_RECEIPT_NEEDS_AUDIT_MESSAGE'')
           | (Some y, Some b) \<Rightarrow> bind_result (attachDecisionReceipt b y db4) (\<lambda>db5. Inr (freshWork, db5)))) = Inr (w', db')"
    unfolding finish_report_def Let_def bind_result_eq_Inr by (auto split: prod.splits)
  have s: "submitted ?d1 w w2 d2" by (rule transition_submits[OF _ _ _ r t]) (use u w in \<open>simp_all add: same_kernelD[OF k1]\<close>)
  let ?d4 = "case i of Some k \<Rightarrow> completeWorkIdempotency k (issueId w) (Some (runId r)) (report_notices n inp w r d2)
          | None \<Rightarrow> report_notices n inp w r d2"
  have k4: "same_kernel d2 ?d4" by (rule same_kernel_trans[OF kernel_report_notices kernel_complete])
  from s have "find_issue ?d4 (issueId w2) = Some w2" by (simp add: submitted_def same_kernelD[OF k4])
  with rest have "w' = w2 \<and> same_kernel ?d4 db'" by (auto simp: Let_def split: option.splits dest: kernel_receipt)
  with submitted_kernel[OF s k1 same_kernel_trans[OF k4]] show ?thesis by simp
qed

lemma open_run_kernel: "open_run sha fresh now w st inp a tg db = Inr (r, db1) \<Longrightarrow> same_kernel db db1"
  by (auto simp: open_run_def nextRunPublicId_def Let_def same_kernel_def)

lemma move_run_kernel: "move_run now w st inp a tg r0 db = Inr (c, r, db1) \<Longrightarrow> same_kernel db db1"
  by (auto simp: move_run_def Let_def split: if_splits intro: same_kernel_trans[OF same_kernel_steps(6,7)])

text \<open>The claim of the work is gone: the one the run was made under, or the expired one of a late run.\<close>

lemma completed_releases:
  assumes ok: "exec_ok db" and tg: "report_target_of now db w st rid a = Inr tg" and r: "runStatus r = RUN_COMPLETED"
    and cl: "claims db1 = claims db" and claim: "\<And>c. claim = Some c \<Longrightarrow> c \<in> set (claims db) \<and> clWorkId c = issueId w"
    and some: "tgLate tg = None \<Longrightarrow> claim \<noteq> None"
  shows "find_claim (report_releases tg claim r db1) (issueId w) = None"
proof -
  have one: "d = c" if "c \<in> set (claims db)" "d \<in> set (claims db)" "clWorkId c = issueId w" "clWorkId d = issueId w" for c d
    using unique_key_inj[of clWorkId "claims db" d c] ok that by (simp add: exec_ok_def claims_ok_def)
  have dc: "claims (delete_claims P d) = filter (\<lambda>c. \<not> P c) (claims d)" for P d by (simp add: delete_claims_def Let_def)
  show ?thesis
  proof (cases claim)
    case (Some c)
    have "clWorkId x \<noteq> issueId w" if x: "x \<in> set (claims (report_releases tg claim r db1))" for x
    proof
      assume "clWorkId x = issueId w"
      moreover have "x \<in> set (claims db)" and "clId x \<noteq> clId c"
        using x r cl Some by (auto simp: report_releases_def late_release_def dc split: option.splits)
      ultimately show False using one[of c x] claim[OF Some] by blast
    qed
    then show ?thesis unfolding find_claim_def find_row_None by (metis imageE)
  next
    case None
    with some obtain t stale where l: "tgLate tg = Some (t, stale)" by (cases "tgLate tg") auto
    from tg have al: "lateRunAllowance now db w (the (actorId a)) = Some (t, stale)"
      by (cases rule: report_target_cases) (use l in auto)
    have "clWorkId x \<noteq> issueId w" if x: "x \<in> set (claims db)" "Some (clId x) \<noteq> stale" for x
      using lateRunAllowance_own[OF al x(1)] one[OF x(1)] x(2) by blast
    moreover have "x \<in> set (claims db) \<and> Some (clId x) \<noteq> stale" if "x \<in> set (claims (report_releases tg claim r db1))" for x
      using that None l cl by (simp add: report_releases_def late_release_def dc)
    ultimately show ?thesis unfolding find_claim_def find_row_None by (metis imageE)
  qed
qed

text \<open>A report that is filed, from the work it was resolved to.\<close>

lemma file_submits:
  assumes ok: "exec_ok db" and u: "unique_key issueId (issues db)" "unique_key wsId (states db)" and row: "find_issue db (issueId x) = Some x"
    and f: "file_report sha fresh now inp actor x i db = Inr ((r, w, m), db')"
    and r: "runStatus r = RUN_COMPLETED" "scheduleRound r = None"
  shows "submitted db x w db' \<and> find_claim db' (issueId x) = None"
proof -
  from f obtain st tg where tg: "report_target_of now db x st (rpRunId inp) actor = Inr tg"
    and moved: "\<forall>r0. tgRun tg = Some r0 \<longrightarrow> (\<exists>c db1. move_run now x st inp actor tg r0 db = Inr (c, r, db1) \<and>
           finish_report sha fresh now inp actor x i False tg (Some c) r db1 = Inr (w, db'))"
    and opened: "tgRun tg = None \<longrightarrow> (\<exists>db1. open_run sha fresh now x st inp actor tg db = Inr (r, db1) \<and>
           finish_report sha fresh now inp actor x i True tg (tgClaim tg) r db1 = Inr (w, db'))"
    by (rule file_report_parts) (rule that, assumption+)
  show ?thesis
  proof (cases "tgRun tg")
    case (Some r0)
    with moved obtain c db1 where mv: "move_run now x st inp actor tg r0 db = Inr (c, r, db1)"
      and fin: "finish_report sha fresh now inp actor x i False tg (Some c) r db1 = Inr (w, db')" by blast
    note k = move_run_kernel[OF mv] and mc = move_run_cases[OF tg Some mv]
    have "submitted db1 x w db'" by (rule finish_submits[OF _ _ _ r fin]) (use u row in \<open>simp_all add: same_kernelD[OF k]\<close>)
    moreover have "find_claim (report_releases tg (Some c) r db1) (issueId x) = None"
      by (rule completed_releases[OF ok tg r(1)]) (use mc in auto)
    ultimately show ?thesis using submitted_kernel[OF _ k] finish_report_frame(1)[OF fin] by (simp add: find_claim_def)
  next
    case None
    with opened obtain db1 where op: "open_run sha fresh now x st inp actor tg db = Inr (r, db1)"
      and fin: "finish_report sha fresh now inp actor x i True tg (tgClaim tg) r db1 = Inr (w, db')" by blast
    note k = open_run_kernel[OF op]
    have "submitted db1 x w db'" by (rule finish_submits[OF _ _ _ r fin]) (use u row in \<open>simp_all add: same_kernelD[OF k]\<close>)
    moreover have "find_claim (report_releases tg (tgClaim tg) r db1) (issueId x) = None"
    proof (rule completed_releases[OF ok tg r(1) open_run_row(9)[OF op]])
      show "c \<in> set (claims db) \<and> clWorkId c = issueId x" if "tgClaim tg = Some c" for c
        using tg that by (cases rule: report_target_cases) (auto dest: report_claimD)
      show "tgClaim tg \<noteq> None" if "tgLate tg = None" using op that by (auto simp: open_run_def)
    qed
    ultimately show ?thesis using submitted_kernel[OF _ k] finish_report_frame(1)[OF fin] by (simp add: find_claim_def)
  qed
qed

section \<open>Properties\<close>

text \<open>
  C12: A completed run submits its work, whether or not the report carries an idempotency key. After a report that completes
  a run outside a schedule, the work has no claim;
  work that was not yet in review or closed is in review with the next revision and was graded once by the gate,
  which skips it; other work is unchanged; and no review decision was made. The exception is a report whose key the actor
  used before: it changes nothing and answers with a run of the work that was there.
\<close>

theorem completed_run_submits:
  assumes ok: "exec_ok db" and u: "unique_key issueId (issues db)" "unique_key wsId (states db)"
    and rep: "reportRun sha fresh now db inp actor = Inr ((r, w, m), db')"
    and r: "runStatus r = RUN_COMPLETED" "scheduleRound r = None"
  shows "\<exists>x. requireWork db (rpWorkId inp) = Inr x \<and>
    (if report_replays db inp actor x then db' = db \<and> w = x \<and> r \<in> set (runs db) \<and> runWorkId r = issueId x
     else find_claim db' (issueId x) = None \<and>
       issueId w = issueId x \<and> find_issue db' (issueId x) = Some w \<and> reviewDecisions db' = reviewDecisions db \<and>
       (if state_type_of db x \<in> {Some BACKLOG, Some UNSTARTED, Some STARTED}
        then state_type_of db' w = Some REVIEW \<and> revision w = revision x + 1 \<and>
          (\<exists>e. evaluations db' = evaluations db @ [e] \<and> aeOutcome e = SKIPPED)
        else w = x \<and> evaluations db' = evaluations db))"
  using rep
proof (cases rule: reportRun_parts)
  case (filed x i d)
  have k: "same_kernel db d" by (simp add: same_kernel_def filed)
  have "exec_ok d" using ok by (simp add: exec_ok_def claims_ok_def filed)
  from file_submits[OF this _ _ _ filed(3) r] u requireWork_row[OF u(1) filed(1)]
  have s: "submitted d x w db'" "find_claim db' (issueId x) = None" by (simp_all add: same_kernelD[OF k])
  with filed(1,9) submitted_kernel[OF s(1) k same_kernel_refl] show ?thesis by (simp add: submitted_def)
next
  case (replayed x rec)
  then have "w = x \<and> r \<in> set (runs db') \<and> runWorkId r = issueId x"
    by (auto simp: replay_report_def Option.bind_eq_Some_conv split: option.splits if_splits dest: find_row_Some)
  with replayed show ?thesis by simp
qed

lemma completed_report:
  "case reportRun (\<lambda>s. s) new_report 50 exec_db (plain_report ''completed'') agent_a of
     Inr ((r, w, m), db') \<Rightarrow> runStatus r = RUN_COMPLETED \<and> scheduleRound r = None | Inl e \<Rightarrow> False"
  by code_simp

theorem completed_run_submits_witness:
  "\<exists>r w m db'. reportRun (\<lambda>s. s) new_report 50 exec_db (plain_report ''completed'') agent_a = Inr ((r, w, m), db') \<and>
     state_type_of db' w = Some REVIEW \<and> revision w = 2 \<and> find_claim db' ''w'' = None"
proof -
  obtain r w m db' where rep: "reportRun (\<lambda>s. s) new_report 50 exec_db (plain_report ''completed'') agent_a = Inr ((r, w, m), db')"
    and r: "runStatus r = RUN_COMPLETED" "scheduleRound r = None"
    using completed_report by (cases "reportRun (\<lambda>s. s) new_report 50 exec_db (plain_report ''completed'') agent_a") (auto split: prod.splits)
  have x: "requireWork exec_db ''w'' = Inr lease_work" "state_type_of exec_db lease_work = Some UNSTARTED"
    "unique_key issueId (issues exec_db)" "unique_key wsId (states exec_db)"
    by (simp_all add: requireWork_def findWorkByIdOrIdentifier_def find_issue_def find_row_def state_type_of_def find_state_def
        exec_db_def lease_db_def lease_work_def review_state_def)
  from completed_run_submits[OF exec_db_ok(1) x(3,4) rep r] x(1,2) rep show ?thesis
    by (auto simp: plain_report_def truthy_def lease_work_def report_replays_def)
qed

end
