(* ===== verification/Lease_Refinement.thy ===== *)
theory Lease_Refinement
  imports Run_Safety
begin

text \<open>
  The contract of the lease table, and the proof that the operations on claims and runs implement it. Abstractly a
  work item is held by one party until some instant. Both levels are labelled by the operation performed, with who
  performs it, on what and when, and the contract says what each may do to the leases. A claim grants one lease to
  the claimant, over nothing, over an expired lease or over a lease of the claimant; an agent releases only a lease of
  its own that lasts, a person withdraws any; a sweep drops only leases expired at its clock; a report drops at most
  the reporter's lease on the reported work, and only when it completes; evidence changes nothing.
\<close>

record lease =
  holder :: ident
  held_until :: instant

type_synonym leases = "ident \<Rightarrow> lease option"

datatype lease_op =
    OpClaim claim_actor ident instant
  | OpRelease claim_actor ident instant
  | OpSweep instant
  | OpReport claim_actor ident bool \<comment> \<open>whether the report says completed\<close>
  | OpEvidence

inductive lease_step :: "leases \<Rightarrow> lease_op \<Rightarrow> leases \<Rightarrow> bool" where
  granted: "Some a = actorId actor \<Longrightarrow> now < u \<Longrightarrow> (\<And>l. m w = Some l \<Longrightarrow> holder l = a \<or> held_until l \<le> now) \<Longrightarrow>
    lease_step m (OpClaim actor w now) (m(w \<mapsto> \<lparr>holder = a, held_until = u\<rparr>))"
| returned: "actorKind actor = AGENT \<Longrightarrow> m w = Some l \<Longrightarrow> Some (holder l) = actorId actor \<Longrightarrow> now < held_until l \<Longrightarrow>
    lease_step m (OpRelease actor w now) (m(w := None))"
| withdrawn: "actorKind actor = HUMAN \<Longrightarrow> m w = Some l \<Longrightarrow> lease_step m (OpRelease actor w now) (m(w := None))"
| expired: "(\<And>w. w \<in> W \<Longrightarrow> \<exists>l. m w = Some l \<and> held_until l \<le> now) \<Longrightarrow> lease_step m (OpSweep now) (m |` (- W))"
| completed: "m w = Some l \<Longrightarrow> Some (holder l) = actorId actor \<Longrightarrow> lease_step m (OpReport actor w True) (m(w := None))"
| reported: "lease_step m (OpReport actor w d) m"
| attached: "lease_step m OpEvidence m"

inductive_cases lease_stepE: "lease_step m e m'"

text \<open>Sequences of labelled steps.\<close>

inductive trace :: "('s \<Rightarrow> 'l \<Rightarrow> 's \<Rightarrow> bool) \<Rightarrow> 's \<Rightarrow> 'l list \<Rightarrow> 's \<Rightarrow> bool" for step where
  trace_Nil: "trace step s [] s"
| trace_Cons: "step s l t \<Longrightarrow> trace step t ls u \<Longrightarrow> trace step s (l # ls) u"

lemma trace_one: "step s l t \<Longrightarrow> trace step s [l] t"
  by (rule trace_Cons[OF _ trace_Nil])

text \<open>
  Under the contract a lease that lasts is kept whatever the others do: unless its holder acts on the work, a person
  releases it, or the clock of a claim or a sweep has passed its end.
\<close>

fun spares :: "ident \<Rightarrow> lease \<Rightarrow> lease_op \<Rightarrow> bool" where
  "spares w l (OpClaim a v now) = (v = w \<longrightarrow> now < held_until l \<and> actorId a \<noteq> Some (holder l))"
| "spares w l (OpRelease a v now) = (v = w \<longrightarrow> actorKind a \<noteq> HUMAN \<and> actorId a \<noteq> Some (holder l))"
| "spares w l (OpSweep now) = (now < held_until l)"
| "spares w l (OpReport a v d) = (v = w \<longrightarrow> actorId a \<noteq> Some (holder l))"
| "spares w l OpEvidence = True"

lemma lease_step_spares: "lease_step m e m' \<Longrightarrow> m w = Some l \<Longrightarrow> spares w l e \<Longrightarrow> m' w = Some l"
  by (erule lease_stepE) (fastforce simp: restrict_map_def)+

lemma lease_trace_spares: "trace lease_step m es m' \<Longrightarrow> m w = Some l \<Longrightarrow> list_all (spares w l) es \<Longrightarrow> m' w = Some l"
  by (induction rule: trace.induct) (auto dest: lease_step_spares)

section \<open>The leases of a database\<close>

definition leases :: "claim_db \<Rightarrow> leases" where
  "leases db w = map_option (\<lambda>c. \<lparr>holder = clActorId c, held_until = leaseUntil c\<rparr>) (find_claim db w)"

lemma leases_cong: "claims a = claims b \<Longrightarrow> leases a = leases b"
  by (simp add: leases_def fun_eq_iff find_claim_def)

lemma leases_of_claim:
  assumes "claims_ok db" and "c \<in> set (claims db)"
  shows "leases db (clWorkId c) = Some \<lparr>holder = clActorId c, held_until = leaseUntil c\<rparr>"
  using claim_of_work[OF assms] by (simp add: leases_def)

lemma leases_delete:
  assumes ok: "claims_ok db" and c: "c \<in> set (claims db)" and d: "claims db' = filter (\<lambda>x. clId x \<noteq> clId c) (claims db)"
  shows "leases db' = (leases db)(clWorkId c := None)"
proof
  fix w
  have id: "x = c" if "x \<in> set (claims db)" "clId x = clId c" for x
    using unique_key_inj[of clId "claims db" x c] ok c that by (simp add: claims_ok_def)
  have wk: "x = c" if "x \<in> set (claims db)" "clWorkId x = clWorkId c" for x
    using unique_key_inj[of clWorkId "claims db" x c] ok c that by (simp add: claims_ok_def)
  have ok': "unique_key clWorkId (claims db')" using ok by (simp add: claims_ok_def d unique_key_filter)
  show "leases db' w = ((leases db)(clWorkId c := None)) w"
  proof (cases "find_claim db w")
    case None
    then have "find_claim db' w = None" by (auto simp: find_claim_def find_row_None d)
    with None show ?thesis by (simp add: leases_def)
  next
    case (Some x)
    note x = find_claimD[OF Some]
    show ?thesis
    proof (cases "x = c")
      case True
      with x have "find_claim db' w = None" using wk by (auto simp: find_claim_def find_row_None d)
      with True x show ?thesis by (simp add: leases_def)
    next
      case False
      with x id have "x \<in> set (claims db')" by (auto simp: d)
      with find_row_unique[OF ok'] x have "find_claim db' w = Some x" by (auto simp: find_claim_def)
      moreover have "w \<noteq> clWorkId c" using False x wk by blast
      ultimately show ?thesis using Some by (simp add: leases_def)
    qed
  qed
qed

section \<open>The operations implement the contract\<close>

lemma claim_refines:
  assumes ok: "claims_ok db" and fresh: "frClaimId fresh \<notin> clId ` set (claims db)" "frToken fresh \<noteq> []"
    and cw: "claimWork sha fresh now db i inp actor = Inr ((c, w, tk), db')"
  shows "lease_step (leases db) (OpClaim actor (issueId w) now) (leases db')"
proof -
  obtain w0 where w0: "issueId w = issueId w0" and t: "taken sha now db actor w0 c tk db'"
    using claimWork_taken[OF assms] by blast
  have "leases db' = (leases db)(issueId w \<mapsto> \<lparr>holder = clActorId c, held_until = leaseUntil c\<rparr>)"
    using t by (auto simp: fun_eq_iff leases_def taken_def w0)
  moreover have "holder l = clActorId c \<or> held_until l \<le> now" if "leases db (issueId w) = Some l" for l
  proof (cases "own_live_claim now actor db w0")
    case None
    with t that show ?thesis by (auto simp: taken_def no_live_claim_def leases_def w0 live_def not_less)
  next
    case (Some x)
    note x = own_live_claimD[OF Some]
    with t have "clActorId x = clActorId c" by (metis option.inject taken_def)
    with x that show ?thesis by (auto simp: leases_def w0)
  qed
  ultimately show ?thesis using t by (auto simp: taken_def live_def intro: lease_step.granted)
qed

lemma release_refines:
  assumes ok: "claims_ok db" and r: "releaseClaim sha now db i why tok actor = Inr ((v, h), db')"
  shows "lease_step (leases db) (OpRelease actor v now) (leases db')"
proof -
  from releaseClaim_result[OF r] obtain w :: issue and c :: work_claim where c: "find_claim db (issueId w) = Some c"
    and v: "v = issueId w" "h = clActorId c" and d: "db' = release_writes now (js_trim why) w c actor db"
    and who: "actorKind actor = HUMAN \<or> actorKind actor = AGENT \<and> Some (clActorId c) = actorId actor \<and> live now c" by blast
  obtain s where "claims db' = claims (end_claim now s (issueId w) c db)"
    using release_writes_frame[of now "js_trim why" w c actor db] unfolding d by blast
  then have cl: "claims db' = filter (\<lambda>x. clId x \<noteq> clId c) (claims db)" by (simp add: end_claim_claims)
  from find_claimD[OF c] have "c \<in> set (claims db)" "clWorkId c = v" by (auto simp: v)
  with leases_delete[OF ok _ cl] leases_of_claim[OF ok, of c] who show ?thesis
    by (auto simp: v live_def intro: lease_step.returned lease_step.withdrawn)
qed

text \<open>A sweep drops a set of expired leases: the union of what its single steps drop.\<close>

definition drops_expired :: "instant \<Rightarrow> leases \<Rightarrow> leases \<Rightarrow> bool" where
  "drops_expired now m m' \<longleftrightarrow> (\<exists>W. (\<forall>w \<in> W. \<exists>l. m w = Some l \<and> held_until l \<le> now) \<and> m' = m |` (- W))"

lemma drops_expired_refl [simp]: "drops_expired now m m"
  by (auto simp: drops_expired_def restrict_map_def intro!: exI[of _ "{}"])

lemma drops_expired_one: "m w = Some l \<Longrightarrow> held_until l \<le> now \<Longrightarrow> drops_expired now m (m(w := None))"
  by (auto simp: drops_expired_def restrict_map_def intro!: exI[of _ "{w}"])

lemma drops_expired_trans:
  assumes "drops_expired now m m'" and "drops_expired now m' m''"
  shows "drops_expired now m m''"
proof -
  from assms obtain W V where W: "\<forall>w \<in> W. \<exists>l. m w = Some l \<and> held_until l \<le> now" "m' = m |` (- W)"
    and V: "\<forall>w \<in> V. \<exists>l. m' w = Some l \<and> held_until l \<le> now" "m'' = m' |` (- V)"
    unfolding drops_expired_def by blast
  have "\<exists>l. m w = Some l \<and> held_until l \<le> now" if "w \<in> W \<union> V" for w
    using that W(1) V(1)[unfolded W(2)] by (auto simp: restrict_map_def split: if_splits)
  moreover have "m'' = m |` (- (W \<union> V))" by (auto simp: V(2) W(2) restrict_map_def)
  ultimately show ?thesis unfolding drops_expired_def by blast
qed

lemma sweep_refines:
  assumes "claims_ok db" and "sweep_each now is n db = (r, db')"
  shows "drops_expired now (leases db) (leases db')"
  using assms
proof (induction "is" arbitrary: n db)
  case (Cons i "is")
  show ?case
  proof (cases "sweep_claim now i db")
    case (Inl e)
    with Cons.prems show ?thesis by simp
  next
    case (Inr p)
    then obtain k d where p: "sweep_claim now i db = Inr (k, d)" by (cases p) auto
    have "drops_expired now (leases d) (leases db')"
      using Cons.IH[of d "n + k"] sweep_claim_ok[OF Cons.prems(1) p] Cons.prems(2) p by simp
    moreover have "drops_expired now (leases db) (leases d)"
      using sweep_claim_result[OF p]
    proof
      assume "\<exists>c s w. find_row clId i (claims db) = Some c \<and> \<not> live now c \<and> k = 1 \<and>
        claims d = claims (end_claim now s w c db) \<and> runs d = runs (end_claim now s w c db)"
      then obtain c where c: "c \<in> set (claims db)" "\<not> live now c" "claims d = filter (\<lambda>x. clId x \<noteq> clId c) (claims db)"
        by (auto simp: end_claim_claims dest: find_row_Some)
      then show ?thesis
        using leases_delete[OF Cons.prems(1) c(1,3)] drops_expired_one[where m = "leases db", OF leases_of_claim[OF Cons.prems(1) c(1)]]
        by (simp add: live_def not_less)
    qed simp
    ultimately show ?thesis by (rule drops_expired_trans[rotated])
  qed
qed simp

text \<open>A report ends at most one claim: the reporter's on the reported work, when the report says completed.\<close>

lemma report_ends_own:
  assumes act: "truthy (actorId a)" and f: "file_report sha fresh now inp a w i db = Inr ((r, w', m), db')"
  shows "claims db' = claims db \<or> parseRunStatus (rpStatus inp) = Inr (Some RUN_COMPLETED) \<and>
    (\<exists>c \<in> set (claims db). Some (clActorId c) = actorId a \<and> clWorkId c = issueId w \<and>
       claims db' = filter (\<lambda>x. clId x \<noteq> clId c) (claims db))"
proof -
  have dc: "claims (delete_claims P d) = filter (\<lambda>c. \<not> P c) (claims d)" for P d by (simp add: delete_claims_def Let_def)
  from f obtain st tg where st: "parseRunStatus (rpStatus inp) = Inr st" and tg: "report_target_of now db w st (rpRunId inp) a = Inr tg"
    and moved: "\<forall>r0. tgRun tg = Some r0 \<longrightarrow> (\<exists>c db1. move_run now w st inp a tg r0 db = Inr (c, r, db1) \<and>
           finish_report sha fresh now inp a w i False tg (Some c) r db1 = Inr (w', db'))"
    and opened: "tgRun tg = None \<longrightarrow> (\<exists>db1. open_run sha fresh now w st inp a tg db = Inr (r, db1) \<and>
           finish_report sha fresh now inp a w i True tg (tgClaim tg) r db1 = Inr (w', db'))"
    by (rule file_report_parts) (rule that, assumption+)
  show ?thesis
  proof (cases "tgRun tg")
    case (Some r0)
    with moved obtain c db1 where mv: "move_run now w st inp a tg r0 db = Inr (c, r, db1)"
      and fin: "finish_report sha fresh now inp a w i False tg (Some c) r db1 = Inr (w', db')" by blast
    note mc = move_run_cases[OF tg Some mv]
    then have "st = Some RUN_COMPLETED" if "runStatus r = RUN_COMPLETED"
      using that by (auto simp: apply_report_def overwrite_def is_open_run_def split: option.splits)
    with mc st finish_report_frame(1)[OF fin] show ?thesis by (auto simp: release_one dc)
  next
    case None
    with opened obtain db1 where op: "open_run sha fresh now w st inp a tg db = Inr (r, db1)"
      and fin: "finish_report sha fresh now inp a w i True tg (tgClaim tg) r db1 = Inr (w', db')" by blast
    note cl = finish_report_frame(1)[OF fin] and cl1 = open_run_row(9)[OF op] and rs = open_run_row(7)[OF op]
    from tg show ?thesis
    proof (cases rule: report_target_cases)
      case named
      with None show ?thesis by simp
    next
      case (claimed c P)
      with cl cl1 rs st report_claimD(1,2,4)[OF claimed(2)] show ?thesis
        by (auto simp: release_one dc split: option.splits)
    next
      case (late l)
      obtain t stale where l: "l = (t, stale)" by (cases l)
      have cl': "claims db' = filter (\<lambda>c. Some (clId c) \<noteq> stale) (claims db)"
        using cl cl1 late(1) by (simp add: l report_releases_def late_release_def dc)
      show ?thesis
      proof (cases stale)
        case (Some k)
        from lateRunAllowanceD(4)[OF late(5)[unfolded l] Some] obtain c where
          c: "c \<in> set (claims db)" "clId c = k" "clActorId c = the (actorId a)" "clWorkId c = issueId w" by blast
        with act have "Some (clActorId c) = actorId a" by (auto simp: truthy_def split: option.splits)
        with c cl' Some st late(3) show ?thesis by (intro disjI2 conjI bexI[of _ c]) simp_all
      qed (use cl' in simp)
    qed
  qed
qed

lemma report_refines:
  assumes ok: "claims_ok db" and rep: "reportRun sha fresh now db inp a = Inr (ans, db')" and w: "requireWork db (rpWorkId inp) = Inr w"
  shows "lease_step (leases db) (OpReport a (issueId w) (parseRunStatus (rpStatus inp) = Inr (Some RUN_COMPLETED))) (leases db')"
    (is "lease_step _ (OpReport a _ ?done) _")
  using rep
proof (cases rule: reportRun_parts)
  case (filed w1 i db1)
  with w have w1: "w1 = w" by simp
  obtain r w' m where ans: "ans = (r, w', m)" by (cases ans)
  from report_ends_own[OF filed(2) filed(3)[unfolded ans]] show ?thesis
  proof
    assume "claims db' = claims db1"
    with leases_cong[of db' db] filed(4) show ?thesis by (simp add: lease_step.reported)
  next
    assume "?done \<and> (\<exists>c \<in> set (claims db1). Some (clActorId c) = actorId a \<and> clWorkId c = issueId w1 \<and>
      claims db' = filter (\<lambda>x. clId x \<noteq> clId c) (claims db1))"
    then obtain c where d: "?done" and c: "c \<in> set (claims db)" "Some (clActorId c) = actorId a" "clWorkId c = issueId w"
        "claims db' = filter (\<lambda>x. clId x \<noteq> clId c) (claims db)"
      by (auto simp: filed(4) w1)
    have "lease_step (leases db) (OpReport a (clWorkId c) True) (leases db')"
      unfolding leases_delete[OF ok c(1,4)] by (rule lease_step.completed[where m = "leases db", OF leases_of_claim[OF ok c(1)]]) (simp add: c(2))
    with c(3) d show ?thesis by simp
  qed
next
  case (replayed w rec)
  with leases_cong[of db' db] show ?thesis by (simp add: lease_step.reported)
qed

section \<open>The simulation\<close>

text \<open>
  A forward simulation with the same labels on both levels: each concrete step is the abstract step of the same label,
  so a trace of operations is a trace of the contract.
\<close>

locale simulation =
  fixes step :: "'s \<Rightarrow> 'l \<Rightarrow> 's \<Rightarrow> bool" and inv :: "'s \<Rightarrow> bool" and astep :: "'a \<Rightarrow> 'l \<Rightarrow> 'a \<Rightarrow> bool" and abs :: "'s \<Rightarrow> 'a"
  assumes kept: "inv s \<Longrightarrow> step s l t \<Longrightarrow> inv t"
    and simulated: "inv s \<Longrightarrow> step s l t \<Longrightarrow> astep (abs s) l (abs t)"
begin

lemma trace_simulated: "trace step s ls t \<Longrightarrow> inv s \<Longrightarrow> trace astep (abs s) ls (abs t)"
  by (induction rule: trace.induct) (auto intro: trace.intros kept simulated)

end

text \<open>
  The steps of \<^const>\<open>exec_step\<close> with their labels: who calls, the work the call resolves and answers with, and
  the clock of the call.
\<close>

inductive exec_op :: "(string \<Rightarrow> string) \<Rightarrow> claim_db \<Rightarrow> lease_op \<Rightarrow> claim_db \<Rightarrow> bool" for sha where
  op_claim: "claimWork sha fresh now db i inp actor = Inr ((c, w, tk), db') \<Longrightarrow> frClaimId fresh \<notin> clId ` set (claims db) \<Longrightarrow>
    frToken fresh \<noteq> [] \<Longrightarrow> exec_op sha db (OpClaim actor (issueId w) now) db'"
| op_release: "releaseClaim sha now db i why tok actor = Inr ((v, h), db') \<Longrightarrow> exec_op sha db (OpRelease actor v now) db'"
| op_sweep: "sweepExpiredClaims now db = (r, db') \<Longrightarrow> exec_op sha db (OpSweep now) db'"
| op_report: "reportRun sha fresh now db inp actor = Inr (a, db') \<Longrightarrow> rfRunId fresh \<notin> runId ` set (runs db) \<Longrightarrow>
    \<not> leaves_orphan now db inp actor \<Longrightarrow> requireWork db (rpWorkId inp) = Inr w \<Longrightarrow>
    exec_op sha db (OpReport actor (issueId w) (parseRunStatus (rpStatus inp) = Inr (Some RUN_COMPLETED))) db'"
| op_evidence: "attachEvidence sha n g k now db inp actor = Inr (a, db') \<Longrightarrow> exec_op sha db OpEvidence db'"

lemma exec_op_step: "exec_op sha db e db' \<Longrightarrow> exec_step sha db db'"
  by (induction rule: exec_op.induct) (blast intro: exec_step.intros claim_step.intros)+

text \<open>Every step has a label: the labelled relation is the same system.\<close>

lemma exec_step_op: "exec_step sha db db' \<Longrightarrow> \<exists>e. exec_op sha db e db'"
proof (induction rule: exec_step.induct)
  case (leases db db')
  then show ?case
  proof cases
    case (claims fresh now i inp actor a)
    then show ?thesis by (cases a) (blast intro: exec_op.op_claim)
  next
    case (releases now i why tok actor a)
    then show ?thesis by (cases a) (blast intro: exec_op.op_release)
  qed (blast intro: exec_op.op_sweep)
next
  case (reports fresh now db inp actor a db')
  then obtain w where "requireWork db (rpWorkId inp) = Inr w" by (auto elim: reportRun_parts)
  with reports show ?case by (blast intro: exec_op.op_report)
qed (blast intro: exec_op.op_evidence)

lemma exec_op_simulated:
  assumes "exec_ok db" and "exec_op sha db e db'"
  shows "lease_step (leases db) e (leases db')"
proof -
  have ok: "claims_ok db" using assms(1) by (simp add: exec_ok_def)
  from assms(2) show ?thesis
  proof cases
    case op_claim
    then show ?thesis using claim_refines[OF ok] by blast
  next
    case op_release
    then show ?thesis using release_refines[OF ok] by blast
  next
    case (op_sweep now r)
    then have "drops_expired now (leases db) (leases db')" using sweep_refines[OF ok] by (simp add: sweepExpiredClaims_def)
    then obtain W where "\<forall>w \<in> W. \<exists>l. leases db w = Some l \<and> held_until l \<le> now" "leases db' = leases db |` (- W)"
      by (auto simp: drops_expired_def)
    with lease_step.expired[of W "leases db" now] op_sweep(1) show ?thesis by simp
  next
    case op_report
    then show ?thesis using report_refines[OF ok] by blast
  next
    case (op_evidence n g k now inp actor a)
    from op_evidence(2) have "claims db' = claims db"
      by (cases rule: attachEvidence_parts) (auto dest: add_evidence_frame)
    then show ?thesis using leases_cong[of db' db] op_evidence(1) by (simp add: lease_step.attached)
  qed
qed

interpretation lease_impl: simulation "exec_op sha" exec_ok lease_step leases for sha
  by unfold_locales (auto dest: exec_op_step exec_step_ok exec_op_simulated)

text \<open>
  C4: The operations on claims and runs implement the lease contract label by label: a sequence of claims, releases,
  sweeps, reports and evidence, each labelled with its actor, work and clock, is on the leases of the database the same
  sequence of contract steps. A claim never takes over another's lease that lasts, an agent gives back only its own, only
  a person withdraws another's, a sweep drops only what has expired, and a report ends at most the reporter's own lease on
  that work, when it says completed. Reports that leave a run orphaned are not steps.
\<close>

theorem leases_refine:
  assumes "exec_ok db" and "trace (exec_op sha) db ops db'"
  shows "trace lease_step (leases db) ops (leases db')"
  by (rule lease_impl.trace_simulated[OF assms(2,1)])

lemma takeover:
  "case claimWork (\<lambda>s. s) new_claim 200 exec_db ''w'' plain_input agent_b of
     Inr ((c, w, tk), db') \<Rightarrow> issueId w = ''w'' \<and> map clActorId (claims db') = [''b''] | Inl e \<Rightarrow> False"
  by code_simp

theorem leases_refine_witness:
  "leases exec_db ''w'' = Some \<lparr>holder = ''a'', held_until = 100\<rparr> \<and>
   (\<exists>db'. map clActorId (claims db') = [''b''] \<and> trace lease_step (leases exec_db) [OpClaim agent_b ''w'' 200] (leases db'))"
proof -
  obtain c w tk db' where cw: "claimWork (\<lambda>s. s) new_claim 200 exec_db ''w'' plain_input agent_b = Inr ((c, w, tk), db')"
    and w: "issueId w = ''w''" "map clActorId (claims db') = [''b'']"
    using takeover by (cases "claimWork (\<lambda>s. s) new_claim 200 exec_db ''w'' plain_input agent_b") (auto split: prod.splits)
  have "frClaimId new_claim \<notin> clId ` set (claims exec_db)" "frToken new_claim \<noteq> []" by code_simp+
  from exec_op.op_claim[OF cw this] have "trace (exec_op (\<lambda>s. s)) exec_db [OpClaim agent_b ''w'' 200] db'"
    by (intro trace_one) (simp add: w(1))
  note t = leases_refine[OF exec_db_ok(1) this]
  have "leases exec_db ''w'' = Some \<lparr>holder = ''a'', held_until = 100\<rparr>"
    by (simp add: leases_def find_claim_def find_row_def exec_db_def lease_db_def)
  then show ?thesis by (intro conjI exI[of _ db'] w(2) t)
qed

text \<open>
  C14: A lease outlasts everything the others do: after any sequence of operations in which its holder neither
  claims, releases nor reports the work, no person releases it and the claims on the work and the sweeps come before its end,
  the work is still claimed by the same holder until the same instant.
\<close>

theorem live_lease_survives:
  assumes "exec_ok db" and "trace (exec_op sha) db ops db'" and "find_claim db w = Some c"
    and "list_all (spares w \<lparr>holder = clActorId c, held_until = leaseUntil c\<rparr>) ops"
  shows "\<exists>c'. find_claim db' w = Some c' \<and> clActorId c' = clActorId c \<and> leaseUntil c' = leaseUntil c"
  using lease_trace_spares[OF lease_impl.trace_simulated[OF assms(2,1)] _ assms(4)] assms(3) by (auto simp: leases_def)

theorem live_lease_survives_witness:
  "\<exists>c'. find_claim (snd (sweepExpiredClaims 50 exec_db)) ''w'' = Some c' \<and> clActorId c' = ''a'' \<and> leaseUntil c' = 100"
proof -
  let ?db = "snd (sweepExpiredClaims 50 exec_db)"
  have "exec_op (\<lambda>s. s) exec_db (OpSweep 50) ?db" by (rule exec_op.op_sweep[of 50 _ "fst (sweepExpiredClaims 50 exec_db)"]) simp
  then have run: "trace (exec_op (\<lambda>s. s)) exec_db [OpSweep 50] ?db" by (rule trace_one)
  obtain c where c: "find_claim exec_db ''w'' = Some c" "clActorId c = ''a''" "leaseUntil c = 100"
    by (simp add: find_claim_def find_row_def exec_db_def lease_db_def)
  with live_lease_survives[OF exec_db_ok(1) run c(1)] show ?thesis by simp
qed

end
