(* ===== verification/Work_Schedule.thy ===== *)
theory Work_Schedule
  imports Request_Handoff Work_Runs
begin

text \<open>
  Scheduled rounds of work (\<^verbatim>\<open>packages/server/src/work-schedule.ts\<close>): setting, pausing and removing
  the schedule of an item, and the tick that fires every due round. The wall clock of a zone and the set
  of valid zones (\<^verbatim>\<open>Intl.DateTimeFormat\<close>) are parameters; \<open>clock zone\<close> is the clock the cron search
  reads. The cron search may not return for an arbitrary clock, so an operation that calls it returns an
  option, \<open>None\<close> when it never returns; for clocks that show minutes up to 59 it is shown to return. The tick runs
  one transaction per due schedule: an error ends it with the earlier transactions committed, so it returns
  its database beside the error.
\<close>

section \<open>Operations\<close>

definition SCHEDULE_MISSED_THRESHOLD :: int where
  "SCHEDULE_MISSED_THRESHOLD = 3"

record set_schedule_input =
  ssWorkId :: ident
  ssCron :: string
  ssTimezone :: string
  ssAgent :: string
  ssActive :: "bool option"

type_synonym zone_clock = "string \<Rightarrow> instant \<Rightarrow> wall_clock"

text \<open>\<^verbatim>\<open>active ? nextMatch(cron, timezone, now) : null\<close>.\<close>

definition next_run ::
  "zone_clock \<Rightarrow> bool \<Rightarrow> string \<Rightarrow> string \<Rightarrow> instant \<Rightarrow> (kernel_error, instant option) result option" where
  "next_run clock active cron zone now =
     (if \<not> active then Some (Inr None)
      else (case nextMatch (clock zone) cron now of
              Inl message \<Rightarrow> Some (Inl (ValidationError message))
            | Inr r \<Rightarrow> map_option Inr r))"

definition find_schedule :: "claim_db \<Rightarrow> ident \<Rightarrow> work_schedule option" where
  "find_schedule db w = find_row scWorkId w (schedules db)"

definition has_team_credential :: "claim_db \<Rightarrow> ident \<Rightarrow> ident \<Rightarrow> bool" where
  "has_team_credential db u team \<longleftrightarrow>
     (\<exists>c \<in> set (credentials db). acUserId c = u \<and> acTeamId c = team \<and> acRevokedAt c = None)"

text \<open>The checks of \<^verbatim>\<open>setWorkSchedule\<close>: the work and the agent it is set for.\<close>

definition schedule_guards ::
  "(string \<Rightarrow> bool) \<Rightarrow> set_schedule_input \<Rightarrow> claim_db \<Rightarrow> (kernel_error, issue \<times> user) result" where
  "schedule_guards validZone inp db =
     (case find_issue db (ssWorkId inp) of
        None \<Rightarrow> Inl (NotFoundError ''Work not found.'')
      | Some work \<Rightarrow>
          bind_result (throw_if (commitmentStatus work \<noteq> COMMITTED)
            (ValidationError ''SCHEDULE_WORK_NOT_COMMITTED_MESSAGE'')) (\<lambda>_.
          bind_result (throw_if (parseCron (js_trim (ssCron inp)) = None)
            (ValidationError CRON_FORMAT_MESSAGE)) (\<lambda>_.
          bind_result (throw_if (js_trim (ssTimezone inp) = [] \<or> \<not> validZone (js_trim (ssTimezone inp)))
            (ValidationError ''CRON_TIMEZONE_MESSAGE'')) (\<lambda>_.
          case resolveActorRef (request_db.truncate db) (js_trim (ssAgent inp)) of
            None \<Rightarrow> Inl (ValidationError ''SCHEDULE_AGENT_MESSAGE'')
          | Some agent \<Rightarrow>
              bind_result (throw_if (userKind agent \<noteq> AGENT \<or> \<not> has_team_credential db (userId agent) (teamId work))
                (ValidationError ''SCHEDULE_AGENT_MESSAGE'')) (\<lambda>_. Inr (work, agent))))))"

definition upsert_schedule ::
  "ident \<Rightarrow> ident option \<Rightarrow> ident \<Rightarrow> string \<Rightarrow> string \<Rightarrow> ident \<Rightarrow> bool \<Rightarrow> instant option \<Rightarrow> claim_db \<Rightarrow> claim_db" where
  "upsert_schedule newId byId w cron zone agent active nxt db =
     (if find_schedule db w = None
      then db\<lparr>schedules := schedules db @
             [\<lparr>scId = newId, scWorkId = w, scCron = cron, scTimezone = zone, scAgentId = agent, scActive = active,
               scRound = 0, scMissedRounds = 0, scNextRunAt = nxt, scLastFiredAt = None, scCreatedById = byId\<rparr>]\<rparr>
      else db\<lparr>schedules := update_rows (\<lambda>s. scWorkId s = w)
             (\<lambda>s. s\<lparr>scCron := cron, scTimezone := zone, scAgentId := agent, scActive := active, scNextRunAt := nxt\<rparr>)
             (schedules db)\<rparr>)"

definition setWorkSchedule ::
  "(string \<Rightarrow> bool) \<Rightarrow> zone_clock \<Rightarrow> ident \<Rightarrow> set_schedule_input \<Rightarrow> ident option \<Rightarrow> instant \<Rightarrow> claim_db \<Rightarrow>
   (kernel_error, work_schedule option \<times> claim_db) result option" where
  "setWorkSchedule validZone clock newId inp byId now db =
     (case schedule_guards validZone inp db of
        Inl e \<Rightarrow> Some (Inl e)
      | Inr (work, agent) \<Rightarrow>
          (let active = (case ssActive inp of Some b \<Rightarrow> b | None \<Rightarrow> True);
               cron = js_trim (ssCron inp); zone = js_trim (ssTimezone inp)
           in map_option (\<lambda>r. bind_result r (\<lambda>nxt.
                let db' = upsert_schedule newId byId (issueId work) cron zone (userId agent) active nxt db
                in Inr (find_schedule db' (issueId work), db')))
              (next_run clock active cron zone now)))"

definition clearWorkSchedule :: "ident \<Rightarrow> claim_db \<Rightarrow> bool \<times> claim_db" where
  "clearWorkSchedule w db =
     (count_rows (\<lambda>s. scWorkId s = w) (schedules db) > 0,
      db\<lparr>schedules := filter (\<lambda>s. scWorkId s \<noteq> w) (schedules db)\<rparr>)"

definition setWorkScheduleActive ::
  "zone_clock \<Rightarrow> ident \<Rightarrow> bool \<Rightarrow> instant \<Rightarrow> claim_db \<Rightarrow> (kernel_error, claim_db) result option" where
  "setWorkScheduleActive clock w active now db =
     (case find_schedule db w of
        None \<Rightarrow> Some (Inl (NotFoundError ''This item has no schedule.''))
      | Some s \<Rightarrow>
          map_option (\<lambda>r. bind_result r (\<lambda>nxt.
            Inr (db\<lparr>schedules := update_rows (\<lambda>x. scId x = scId s)
                   (\<lambda>x. x\<lparr>scActive := active, scNextRunAt := nxt\<rparr>) (schedules db)\<rparr>)))
          (next_run clock active (scCron s) (scTimezone s) now))"

section \<open>The tick\<close>

definition is_due :: "instant \<Rightarrow> work_schedule \<Rightarrow> bool" where
  "is_due now s \<longleftrightarrow> scActive s \<and> holds (\<lambda>t. t \<le> now) (scNextRunAt s)"

definition last_ran :: "claim_db \<Rightarrow> work_schedule \<Rightarrow> bool" where
  "last_ran db s \<longleftrightarrow> scRound s = 0 \<or>
     0 < count_rows (\<lambda>r. runWorkId r = scWorkId s \<and> scheduleRound r = Some (scRound s)) (runs db)"

definition advance_round :: "bool \<Rightarrow> instant \<Rightarrow> instant option \<Rightarrow> work_schedule \<Rightarrow> work_schedule" where
  "advance_round lastRan now nxt s =
     s\<lparr>scRound := scRound s + 1, scMissedRounds := (if lastRan then 0 else scMissedRounds s + 1),
       scLastFiredAt := Some now, scNextRunAt := nxt\<rparr>"

definition round_payload :: "work_schedule \<Rightarrow> (string \<times> json) list" where
  "round_payload s =
     [(''round'', JNum (of_int (scRound s))), (''cron'', JStr (scCron s)), (''timezone'', JStr (scTimezone s)),
      (''missedRounds'', JNum (of_int (scMissedRounds s))), (''agentId'', JStr (scAgentId s))]"

text \<open>The event of a round and the notice in the agent's inbox.\<close>

definition announce_round :: "instant \<Rightarrow> work_schedule \<Rightarrow> claim_db \<Rightarrow> claim_db" where
  "announce_round now s db =
     notify_all ''work.scheduled_run'' (scWorkId s) [scAgentId s]
       (enqueue_event now ''work.scheduled_run'' (scWorkId s) (round_payload s) db)"

definition fire_schedule ::
  "zone_clock \<Rightarrow> instant \<Rightarrow> ident \<Rightarrow> claim_db \<Rightarrow> (kernel_error, bool \<times> claim_db) result option" where
  "fire_schedule clock now i db =
     (case find_row scId i (schedules db) of
        None \<Rightarrow> Some (Inr (False, db))
      | Some s \<Rightarrow>
          if \<not> is_due now s then Some (Inr (False, db))
          else map_option (\<lambda>r. bind_result r (\<lambda>nxt.
            let current = (\<lambda>x. scId x = i \<and> scRound x = scRound s);
                s' = advance_round (last_ran db s) now nxt s;
                db' = db\<lparr>schedules := update_rows current
                  (\<lambda>x. x\<lparr>scRound := scRound s', scMissedRounds := scMissedRounds s', scLastFiredAt := Some now,
                         scNextRunAt := nxt\<rparr>) (schedules db)\<rparr>
            in if count_rows current (schedules db) \<noteq> 1 then Inr (False, db')
               else Inr (True, announce_round now s' db')))
          (next_run clock True (scCron s) (scTimezone s) now))"

fun fire_each ::
  "zone_clock \<Rightarrow> instant \<Rightarrow> ident list \<Rightarrow> nat \<Rightarrow> claim_db \<Rightarrow> (claim_db \<times> (kernel_error, nat) result) option" where
  "fire_each clock now [] fired db = Some (db, Inr fired)"
| "fire_each clock now (i # rest) fired db =
     (case fire_schedule clock now i db of
        None \<Rightarrow> None
      | Some (Inl e) \<Rightarrow> Some (db, Inl e)
      | Some (Inr (didFire, db')) \<Rightarrow> fire_each clock now rest (if didFire then fired + 1 else fired) db')"

definition fireDueSchedules ::
  "zone_clock \<Rightarrow> instant \<Rightarrow> claim_db \<Rightarrow> (claim_db \<times> (kernel_error, nat) result) option" where
  "fireDueSchedules clock now db =
     fire_each clock now (map scId (filter (is_due now) (schedules db))) 0 db"

text \<open>Ordered by the last firing, schedules that never fired last.\<close>

definition missedSchedules :: "(issue \<Rightarrow> bool) \<Rightarrow> claim_db \<Rightarrow> (work_schedule \<times> issue) list" where
  "missedSchedules selected db =
     (let missed = filter (\<lambda>s. scActive s \<and> SCHEDULE_MISSED_THRESHOLD \<le> scMissedRounds s
                             \<and> holds selected (find_issue db (scWorkId s))) (schedules db);
          ordered = sort_key (\<lambda>s. the (scLastFiredAt s)) (filter (\<lambda>s. scLastFiredAt s \<noteq> None) missed)
                    @ filter (\<lambda>s. scLastFiredAt s = None) missed
      in map (\<lambda>s. (s, the (find_issue db (scWorkId s)))) ordered)"

section \<open>The invariant of the schedule table\<close>

text \<open>
  A stored schedule has a cron line that parses, counts its rounds from 0 and fewer missed rounds than
  rounds, and fires nothing while it is paused. An item has at most one schedule.
\<close>

definition schedule_ok :: "work_schedule \<Rightarrow> bool" where
  "schedule_ok s \<longleftrightarrow> parseCron (scCron s) \<noteq> None \<and> 0 \<le> scMissedRounds s \<and>
     (scMissedRounds s < scRound s \<or> scMissedRounds s = 0 \<and> scRound s = 0) \<and>
     (\<not> scActive s \<longrightarrow> scNextRunAt s = None)"

definition schedules_ok :: "claim_db \<Rightarrow> bool" where
  "schedules_ok db \<longleftrightarrow> unique_key scId (schedules db) \<and> unique_key scWorkId (schedules db) \<and>
     (\<forall>s \<in> set (schedules db). schedule_ok s)"

text \<open>Announcements already made are kept.\<close>

definition announced_le :: "claim_db \<Rightarrow> claim_db \<Rightarrow> bool" where
  "announced_le db db' \<longleftrightarrow>
     take (length (workEvents db)) (workEvents db') = workEvents db \<and>
     take (length (workNotices db)) (workNotices db') = workNotices db"

inductive schedule_step :: "(string \<Rightarrow> bool) \<Rightarrow> zone_clock \<Rightarrow> claim_db \<Rightarrow> claim_db \<Rightarrow> bool"
  for validZone clock where
  set_schedule: "setWorkSchedule validZone clock newId inp byId now db = Some (Inr (s, db')) \<Longrightarrow>
     newId \<notin> scId ` set (schedules db) \<Longrightarrow> schedule_step validZone clock db db'"
| clear_schedule: "clearWorkSchedule w db = (b, db') \<Longrightarrow> schedule_step validZone clock db db'"
| activate_schedule: "setWorkScheduleActive clock w active now db = Some (Inr db') \<Longrightarrow>
     schedule_step validZone clock db db'"
| fire_schedules: "fireDueSchedules clock now db = Some (db', r) \<Longrightarrow> schedule_step validZone clock db db'"

lemma announced_refl: "announced_le db db"
  by (simp add: announced_le_def)

lemma take_prefix_trans:
  "take (length xs) ys = xs \<Longrightarrow> take (length ys) zs = ys \<Longrightarrow> take (length xs) zs = xs"
  by (metis append_take_drop_id length_append length_take min.absorb2 min.cobounded1 take_take)

lemma announced_trans: "announced_le a b \<Longrightarrow> announced_le b c \<Longrightarrow> announced_le a c"
  unfolding announced_le_def by (blast intro: take_prefix_trans)

lemma announced_schedules [simp]: "announced_le db (db\<lparr>schedules := rows\<rparr>)"
  by (simp add: announced_le_def)

lemma announce_frame [simp]:
  "schedules (announce_round now s db) = schedules db"
  "runs (announce_round now s db) = runs db"
  "announced_le db (announce_round now s db)"
  "announced_le db (announce_round now s (db\<lparr>schedules := rows\<rparr>))"
  by (simp_all add: announce_round_def notify_all_def enqueue_event_def announced_le_def)

lemma schedules_ok_cong: "schedules db' = schedules db \<Longrightarrow> schedules_ok db' = schedules_ok db"
  by (simp add: schedules_ok_def)

lemma update_schedules_ok:
  assumes "schedules_ok db" and "\<And>s. scId (f s) = scId s" and "\<And>s. scWorkId (f s) = scWorkId s"
    and "\<And>s. s \<in> set (schedules db) \<Longrightarrow> P s \<Longrightarrow> schedule_ok (f s)"
  shows "schedules_ok (db\<lparr>schedules := update_rows P f (schedules db)\<rparr>)"
  using assms by (auto simp: schedules_ok_def unique_key_update set_update_rows)

lemma next_run_inactive: "next_run clock active cron zone now = Some (Inr nxt) \<Longrightarrow> \<not> active \<Longrightarrow> nxt = None"
  by (simp add: next_run_def)

lemma guards_cron: "schedule_guards validZone inp db = Inr (w, a) \<Longrightarrow> parseCron (js_trim (ssCron inp)) \<noteq> None"
  by (auto simp: schedule_guards_def split: option.splits)

lemma upsert_ok:
  assumes "schedules_ok db" and "newId \<notin> scId ` set (schedules db)" and "parseCron cron \<noteq> None"
    and "\<not> active \<Longrightarrow> nxt = None"
  shows "schedules_ok (upsert_schedule newId byId w cron zone agent active nxt db)"
proof (cases "find_schedule db w")
  case None
  then have "w \<notin> scWorkId ` set (schedules db)" by (simp add: find_schedule_def find_row_None)
  with None assms show ?thesis by (auto simp: upsert_schedule_def schedules_ok_def schedule_ok_def)
next
  case (Some s)
  let ?f = "\<lambda>s. s\<lparr>scCron := cron, scTimezone := zone, scAgentId := agent, scActive := active, scNextRunAt := nxt\<rparr>"
  have "schedules_ok (db\<lparr>schedules := update_rows (\<lambda>s. scWorkId s = w) ?f (schedules db)\<rparr>)"
    using assms by (intro update_schedules_ok) (auto simp: schedules_ok_def schedule_ok_def)
  with Some show ?thesis by (simp add: upsert_schedule_def)
qed

lemma upsert_announced: "announced_le db (upsert_schedule newId byId w cron zone agent active nxt db)"
  by (simp add: upsert_schedule_def)

lemma set_schedule_Some:
  assumes "setWorkSchedule validZone clock newId inp byId now db = Some (Inr (s, db'))"
  obtains work agent active nxt where "schedule_guards validZone inp db = Inr (work, agent)"
    and "next_run clock active (js_trim (ssCron inp)) (js_trim (ssTimezone inp)) now = Some (Inr nxt)"
    and "db' = upsert_schedule newId byId (issueId work) (js_trim (ssCron inp)) (js_trim (ssTimezone inp))
      (userId agent) active nxt db"
  using assms by (auto simp: setWorkSchedule_def Let_def split: sum.splits prod.splits)

lemma clear_ok: "schedules_ok db \<Longrightarrow> schedules_ok (snd (clearWorkSchedule w db))"
  by (auto simp: clearWorkSchedule_def schedules_ok_def unique_key_filter)

lemma activate_Some:
  assumes "setWorkScheduleActive clock w active now db = Some (Inr db')"
  obtains s :: work_schedule and nxt where "next_run clock active (scCron s) (scTimezone s) now = Some (Inr nxt)"
    and "db' = db\<lparr>schedules := update_rows (\<lambda>x. scId x = scId s)
           (\<lambda>x. x\<lparr>scActive := active, scNextRunAt := nxt\<rparr>) (schedules db)\<rparr>"
  using assms by (auto simp: setWorkScheduleActive_def split: option.splits)

lemma activate_ok:
  assumes "schedules_ok db" and "setWorkScheduleActive clock w active now db = Some (Inr db')"
  shows "schedules_ok db' \<and> announced_le db db'"
  using assms(2)
proof (rule activate_Some)
  fix s :: work_schedule and nxt
  assume n: "next_run clock active (scCron s) (scTimezone s) now = Some (Inr nxt)"
    and db': "db' = db\<lparr>schedules := update_rows (\<lambda>x. scId x = scId s)
      (\<lambda>x. x\<lparr>scActive := active, scNextRunAt := nxt\<rparr>) (schedules db)\<rparr>"
  have "schedules_ok db'" unfolding db' using assms(1) next_run_inactive [OF n]
    by (intro update_schedules_ok) (auto simp: schedules_ok_def schedule_ok_def)
  then show ?thesis unfolding db' by simp
qed

lemma set_schedule_ok:
  assumes "schedules_ok db" and "setWorkSchedule validZone clock newId inp byId now db = Some (Inr (s, db'))"
    and "newId \<notin> scId ` set (schedules db)"
  shows "schedules_ok db' \<and> announced_le db db'"
  using assms(2)
proof (rule set_schedule_Some)
  fix work agent active nxt
  assume g: "schedule_guards validZone inp db = Inr (work, agent)"
    and n: "next_run clock active (js_trim (ssCron inp)) (js_trim (ssTimezone inp)) now = Some (Inr nxt)"
    and db': "db' = upsert_schedule newId byId (issueId work) (js_trim (ssCron inp)) (js_trim (ssTimezone inp))
      (userId agent) active nxt db"
  have "schedules_ok db'"
    unfolding db' by (rule upsert_ok [OF assms(1,3) guards_cron [OF g] next_run_inactive [OF n]])
  with upsert_announced show ?thesis unfolding db' by blast
qed

lemma fire_schedule_Some:
  assumes "fire_schedule clock now i db = Some (Inr (b, db'))"
  obtains (idle) "db' = db"
  | (fire) s nxt where "s \<in> set (schedules db)" and "scId s = i" and "scActive s"
      and "schedules db' = update_rows (\<lambda>x. scId x = i \<and> scRound x = scRound s)
        (\<lambda>x. x\<lparr>scRound := scRound s + 1, scMissedRounds := (if last_ran db s then 0 else scMissedRounds s + 1),
               scLastFiredAt := Some now, scNextRunAt := nxt\<rparr>) (schedules db)"
      and "announced_le db db'" and "runs db' = runs db"
proof (cases "find_row scId i (schedules db)")
  case None
  with assms show thesis by (intro idle) (simp add: fire_schedule_def)
next
  case (Some s)
  note s = find_row_Some [OF Some]
  show thesis
  proof (cases "is_due now s")
    case False
    with assms Some show thesis by (intro idle) (simp add: fire_schedule_def)
  next
    case True
    with assms Some obtain nxt where "next_run clock True (scCron s) (scTimezone s) now = Some (Inr nxt)"
      by (auto simp: fire_schedule_def)
    with assms Some True s show thesis
      by (intro fire [of s nxt])
        (auto simp: fire_schedule_def advance_round_def is_due_def Let_def split: if_splits)
  qed
qed

lemma fire_schedule_ok:
  assumes "schedules_ok db" and "fire_schedule clock now i db = Some (Inr (b, db'))"
  shows "schedules_ok db' \<and> announced_le db db'"
  using assms(2)
proof (cases rule: fire_schedule_Some)
  case idle
  with assms(1) show ?thesis by (simp add: announced_refl)
next
  case (fire s nxt)
  let ?f = "\<lambda>x. x\<lparr>scRound := scRound s + 1, scMissedRounds := (if last_ran db s then 0 else scMissedRounds s + 1),
               scLastFiredAt := Some now, scNextRunAt := nxt\<rparr>"
  have same: "x = s" if "x \<in> set (schedules db)" "scId x = i" for x
    using unique_key_inj that fire(1,2) assms(1) unfolding schedules_ok_def by metis
  from assms(1) fire(1) have "schedule_ok s" by (simp add: schedules_ok_def)
  with fire(3) have "schedule_ok (?f s)"
    by (auto simp: schedule_ok_def last_ran_def)
  then have "schedules_ok (db\<lparr>schedules := update_rows (\<lambda>x. scId x = i \<and> scRound x = scRound s) ?f (schedules db)\<rparr>)"
    using assms(1) by (intro update_schedules_ok) (simp_all, metis same)
  with fire(4) have "schedules_ok db'" by (simp add: schedules_ok_def)
  with fire(5) show ?thesis by blast
qed

lemma fire_each_ok:
  "fire_each clock now ids n db = Some (db', r) \<Longrightarrow> schedules_ok db \<Longrightarrow> schedules_ok db' \<and> announced_le db db'"
proof (induction ids arbitrary: n db)
  case Nil
  then show ?case by (simp add: announced_refl)
next
  case (Cons i ids)
  show ?case
  proof (cases "\<exists>e. fire_schedule clock now i db = Some (Inl e)")
    case True
    with Cons.prems show ?thesis by (auto simp: announced_refl)
  next
    case False
    with Cons.prems(1) obtain b db1 where one: "fire_schedule clock now i db = Some (Inr (b, db1))"
      by (auto split: option.splits sum.splits)
    from fire_schedule_ok [OF Cons.prems(2) one] Cons.IH [of _ db1] Cons.prems(1) one show ?thesis
      by (auto intro: announced_trans)
  qed
qed

lemma schedule_step_ok:
  assumes "schedule_step validZone clock db db'" and "schedules_ok db"
  shows "schedules_ok db' \<and> announced_le db db'"
  using assms
proof (cases rule: schedule_step.cases)
  case (set_schedule newId inp byId now s)
  with assms(2) set_schedule_ok show ?thesis by blast
next
  case (clear_schedule w b)
  with clear_ok [OF assms(2), of w] show ?thesis by (auto simp: clearWorkSchedule_def)
next
  case (activate_schedule w active now)
  with assms(2) activate_ok show ?thesis by blast
next
  case (fire_schedules now r)
  with assms(2) fire_each_ok show ?thesis unfolding fireDueSchedules_def by blast
qed

interpretation schedule_runs: step_system "schedule_step validZone clock" schedules_ok announced_le for validZone clock
  by unfold_locales (blast dest: schedule_step_ok, blast dest: schedule_step_ok, rule announced_refl, rule announced_trans)

section \<open>What a tick does\<close>

definition next_due :: "zone_clock \<Rightarrow> instant \<Rightarrow> work_schedule \<Rightarrow> instant option" where
  "next_due clock now s =
     (case nextMatch (clock (scTimezone s)) (scCron s) now of Inr (Some r) \<Rightarrow> r | _ \<Rightarrow> None)"

text \<open>The row a tick leaves of a schedule, the event and the notice it makes for it.\<close>

definition fired_row :: "zone_clock \<Rightarrow> instant \<Rightarrow> claim_db \<Rightarrow> work_schedule \<Rightarrow> work_schedule" where
  "fired_row clock now db s =
     (if is_due now s then advance_round (last_ran db s) now (next_due clock now s) s else s)"

definition round_event :: "instant \<Rightarrow> work_schedule \<Rightarrow> work_event" where
  "round_event now s =
     \<lparr>weType = ''work.scheduled_run'', weWorkId = scWorkId s, weData = round_payload s, weCreatedAt = now\<rparr>"

definition round_notice :: "work_schedule \<Rightarrow> work_notice" where
  "round_notice s = \<lparr>wnType = ''work.scheduled_run'', wnUserId = scAgentId s, wnWorkId = scWorkId s\<rparr>"

lemma next_run_due:
  assumes "\<forall>t. wMinute (clock (scTimezone s) t) \<le> 59" and "schedule_ok s"
  shows "next_run clock True (scCron s) (scTimezone s) now = Some (Inr (next_due clock now s)) \<and>
    (\<forall>t. next_due clock now s = Some t \<longrightarrow> now < t)"
proof -
  from assms(2) obtain f where f: "parseCron (scCron s) = Some f" by (auto simp: schedule_ok_def)
  have "60000 dvd first_minute now" by (simp add: first_minute_def)
  from next_loop_correct [OF assms(1) this] obtain r where
    r: "next_loop (clock (scTimezone s)) f (search_limit (first_minute now)) (first_minute now) = Some r"
      "first_match (clock (scTimezone s)) f (first_minute now) (search_limit (first_minute now)) r" by blast
  have "now < first_minute now"
    unfolding first_minute_def by (simp add: div_mult_mod_eq minus_mod_eq_div_mult [symmetric])
  with r(2) have "\<forall>t. r = Some t \<longrightarrow> now < t" by (auto simp: first_match_def)
  with r(1) f show ?thesis by (simp add: next_run_def next_due_def nextMatch_def)
qed

lemma fired_row_simps [simp]:
  "scId (fired_row clock now db s) = scId s" "scWorkId (fired_row clock now db s) = scWorkId s"
  "scAgentId (fired_row clock now db s) = scAgentId s"
  by (simp_all add: fired_row_def advance_round_def)

lemma fired_row_cong: "runs db' = runs db \<Longrightarrow> fired_row clock now db' = fired_row clock now db"
  by (rule ext) (simp add: fired_row_def last_ran_def)

lemma fire_due:
  assumes "schedules_ok db" and "s \<in> set (schedules db)" and "is_due now s" and "\<forall>t. wMinute (clock (scTimezone s) t) \<le> 59"
  shows "fire_schedule clock now (scId s) db = Some (Inr (True, announce_round now (fired_row clock now db s)
    (db\<lparr>schedules := update_rows (\<lambda>x. scId x = scId s) (fired_row clock now db) (schedules db)\<rparr>)))"
proof -
  let ?cur = "\<lambda>x. scId x = scId s \<and> scRound x = scRound s"
  have uniq: "unique_key scId (schedules db)" and ok: "schedule_ok s"
    using assms(1,2) by (simp_all add: schedules_ok_def)
  have found: "find_row scId (scId s) (schedules db) = Some s" using uniq assms(2) by (simp add: find_row_unique)
  have one: "count_rows ?cur (schedules db) = 1"
    using count_rows_unique_key [OF uniq, of "scId s" "\<lambda>x. scRound x = scRound s"] found by simp
  have same: "x = s" if "x \<in> set (schedules db)" "scId x = scId s" for x
    using unique_key_inj [OF uniq that(1) assms(2) that(2)] .
  have fired: "fired_row clock now db s = advance_round (last_ran db s) now (next_due clock now s) s"
    using assms(3) by (simp add: fired_row_def)
  have rows: "update_rows ?cur (\<lambda>x. x\<lparr>scRound := scRound (fired_row clock now db s),
        scMissedRounds := scMissedRounds (fired_row clock now db s), scLastFiredAt := Some now,
        scNextRunAt := next_due clock now s\<rparr>) (schedules db)
      = update_rows (\<lambda>x. scId x = scId s) (fired_row clock now db) (schedules db)"
    unfolding update_rows_def
    by (rule map_cong [OF refl]) (auto dest: same simp: fired advance_round_def)
  show ?thesis
    using next_run_due [of clock s now, OF assms(4) ok] assms(3) found one rows
    unfolding fire_schedule_def by (simp add: Let_def fired)
qed

lemma fire_rows:
  assumes "schedules_ok db" and "set rows \<subseteq> set (schedules db)" and "distinct (map scId rows)"
    and "\<forall>s \<in> set rows. is_due now s" and "\<forall>zone t. wMinute (clock zone t) \<le> 59"
  shows "\<exists>db'. fire_each clock now (map scId rows) n db = Some (db', Inr (n + length rows)) \<and>
    schedules db' = update_rows (\<lambda>x. scId x \<in> scId ` set rows) (fired_row clock now db) (schedules db) \<and>
    workEvents db' = workEvents db @ map (round_event now \<circ> fired_row clock now db) rows \<and>
    workNotices db' = workNotices db @ map round_notice rows"
  using assms
proof (induction rows arbitrary: n db)
  case Nil
  show ?case by (simp add: update_rows_def)
next
  case (Cons s rows)
  let ?f = "fired_row clock now db"
  let ?db = "announce_round now (?f s) (db\<lparr>schedules := update_rows (\<lambda>x. scId x = scId s) ?f (schedules db)\<rparr>)"
  have s: "s \<in> set (schedules db)" "is_due now s" using Cons.prems by simp_all
  have one: "fire_schedule clock now (scId s) db = Some (Inr (True, ?db))"
    using fire_due [OF Cons.prems(1) s] Cons.prems(5) by blast
  have "schedules_ok ?db" using fire_schedule_ok [OF Cons.prems(1) one] by blast
  moreover have "set rows \<subseteq> set (schedules ?db)"
    using Cons.prems(2,3) by (fastforce simp: set_update_rows image_iff)
  moreover have "distinct (map scId rows)" "\<forall>s \<in> set rows. is_due now s" using Cons.prems by simp_all
  ultimately obtain db' where
    rest: "fire_each clock now (map scId rows) (n + 1) ?db = Some (db', Inr (n + 1 + length rows))"
    and sched: "schedules db' = update_rows (\<lambda>x. scId x \<in> scId ` set rows) (fired_row clock now ?db) (schedules ?db)"
    and ev: "workEvents db' = workEvents ?db @ map (round_event now \<circ> fired_row clock now ?db) rows"
    and nt: "workNotices db' = workNotices ?db @ map round_notice rows"
    using Cons.IH [of ?db "n + 1"] Cons.prems(5) by blast
  have f: "fired_row clock now ?db = ?f" by (rule fired_row_cong) simp
  have "schedules db' = update_rows (\<lambda>x. scId x \<in> scId ` set (s # rows)) ?f (schedules db)"
    using Cons.prems(3) unfolding sched f by (auto simp: update_rows_def)
  moreover have "workEvents ?db = workEvents db @ [round_event now (?f s)]"
    by (simp add: announce_round_def notify_all_def enqueue_event_def round_event_def)
  moreover have "workNotices ?db = workNotices db @ [round_notice s]"
    by (simp add: announce_round_def notify_all_def enqueue_event_def round_notice_def)
  ultimately show ?case using rest one ev nt unfolding f by simp
qed

lemma fired_not_due:
  assumes "\<forall>t. wMinute (clock (scTimezone s) t) \<le> 59" and "schedule_ok s"
  shows "\<not> is_due now (fired_row clock now db s)"
proof (cases "is_due now s")
  case True
  with next_run_due [of clock s now, OF assms] show ?thesis
    by (auto simp: fired_row_def advance_round_def is_due_def holds_iff)
qed (simp add: fired_row_def)

section \<open>Properties\<close>

text \<open>
  C22: a tick fires every due round exactly once. When the clock of every zone shows minutes up to 59 the tick returns, counts the
  due schedules, and leaves every due schedule at its next round, with the missed count reset when a run of
  the last round was reported and raised by one otherwise; the other schedules are untouched. It makes one
  event and one inbox notice per due schedule and no others. Nothing is due afterwards, so a second tick
  at the same instant (another process, a retry) fires nothing and changes nothing.
\<close>

theorem due_rounds_fire_once:
  assumes "schedules_ok db" and "\<forall>zone t. wMinute (clock zone t) \<le> 59"
  shows "\<exists>db'. fireDueSchedules clock now db = Some (db', Inr (count_rows (is_due now) (schedules db))) \<and>
    schedules db' = map (fired_row clock now db) (schedules db) \<and>
    workEvents db' = workEvents db
      @ map (round_event now \<circ> fired_row clock now db) (filter (is_due now) (schedules db)) \<and>
    workNotices db' = workNotices db @ map round_notice (filter (is_due now) (schedules db)) \<and>
    fireDueSchedules clock now db' = Some (db', Inr 0)"
proof -
  let ?due = "filter (is_due now) (schedules db)"
  have uniq: "unique_key scId (schedules db)" using assms(1) by (simp add: schedules_ok_def)
  then have "distinct (map scId ?due)" using unique_key_filter unfolding unique_key_def by blast
  from fire_rows [OF assms(1) _ this _ assms(2), of now 0] obtain db' where
    fire: "fire_each clock now (map scId ?due) 0 db = Some (db', Inr (0 + length ?due))"
    and sched: "schedules db' = update_rows (\<lambda>x. scId x \<in> scId ` set ?due) (fired_row clock now db) (schedules db)"
    and ev: "workEvents db' = workEvents db @ map (round_event now \<circ> fired_row clock now db) ?due"
    and nt: "workNotices db' = workNotices db @ map round_notice ?due"
    by (simp only: set_filter) blast
  have due: "scId x \<in> scId ` set ?due \<longleftrightarrow> is_due now x" if "x \<in> set (schedules db)" for x
    using unique_key_bex [OF uniq that, of "is_due now"] by (auto simp: image_iff)
  have all: "schedules db' = map (fired_row clock now db) (schedules db)"
    unfolding sched update_rows_def by (rule map_cong [OF refl]) (simp add: due fired_row_def)
  have "filter (is_due now) (schedules db') = []"
    using assms fired_not_due unfolding all schedules_ok_def by (auto simp: filter_empty_conv)
  then have "fireDueSchedules clock now db' = Some (db', Inr 0)" by (simp add: fireDueSchedules_def)
  moreover have "fireDueSchedules clock now db = Some (db', Inr (count_rows (is_due now) (schedules db)))"
    using fire by (simp add: fireDueSchedules_def count_rows_def)
  ultimately show ?thesis using all ev nt by blast
qed

definition patrol :: work_schedule where
  "patrol = \<lparr>scId = ''s1'', scWorkId = ''w'', scCron = ''0 9 * * 1'', scTimezone = ''UTC'', scAgentId = ''b'',
     scActive = True, scRound = 2, scMissedRounds = 1, scNextRunAt = Some 0, scLastFiredAt = None, scCreatedById = None\<rparr>"

definition patrol_db :: claim_db where
  "patrol_db = lease_db\<lparr>schedules := [patrol]\<rparr>"

lemma patrol_ok: "schedules_ok patrol_db"
proof -
  have "parseCron ''0 9 * * 1'' \<noteq> None" by code_simp
  then show ?thesis by (simp add: schedules_ok_def schedule_ok_def patrol_db_def patrol_def)
qed

theorem due_rounds_fire_once_witness:
  "\<exists>db'. fireDueSchedules (\<lambda>_. day_clock) 5 patrol_db = Some (db', Inr 1) \<and>
     map scRound (schedules db') = [3] \<and> map scMissedRounds (schedules db') = [2] \<and>
     fireDueSchedules (\<lambda>_. day_clock) 5 db' = Some (db', Inr 0)"
proof -
  have due: "is_due 5 patrol" and ran: "\<not> last_ran patrol_db patrol"
    by (simp_all add: is_due_def holds_def last_ran_def patrol_def patrol_db_def lease_db_def lease_run_def count_rows_def)
  from due_rounds_fire_once [OF patrol_ok, of "\<lambda>_. day_clock" 5] day_clock_minute obtain db' where
    "fireDueSchedules (\<lambda>_. day_clock) 5 patrol_db = Some (db', Inr (count_rows (is_due 5) (schedules patrol_db)))"
    "schedules db' = map (fired_row (\<lambda>_. day_clock) 5 patrol_db) (schedules patrol_db)"
    "fireDueSchedules (\<lambda>_. day_clock) 5 db' = Some (db', Inr 0)" by blast
  moreover have "schedules patrol_db = [patrol]" by (simp add: patrol_db_def)
  ultimately show ?thesis using due ran by (simp add: count_rows_def fired_row_def advance_round_def) (simp add: patrol_def)
qed

text \<open>
  C25: over any sequence of settings, removals, pauses, resumptions and ticks an item keeps at most one
  schedule, every stored cron line parses, a paused schedule has no next round, missed rounds
  stay below the rounds fired, and no announced round is taken back.
\<close>

theorem schedule_runs_sound:
  assumes "(schedule_step validZone clock)\<^sup>*\<^sup>* db db'" and "schedules_ok db"
  shows "schedules_ok db' \<and> announced_le db db'"
  using schedule_runs.run_inv [OF assms] schedule_runs.run_mono [OF assms] by blast

theorem schedule_runs_sound_witness:
  "\<exists>db'. (schedule_step (\<lambda>_. True) (\<lambda>_. day_clock))\<^sup>*\<^sup>* patrol_db db' \<and> schedules_ok db' \<and>
     map scActive (schedules db') = [False] \<and> map scRound (schedules db') = [2]"
proof -
  let ?db = "patrol_db\<lparr>schedules := [patrol\<lparr>scActive := False, scNextRunAt := None\<rparr>]\<rparr>"
  have "setWorkScheduleActive (\<lambda>_. day_clock) ''w'' False 5 patrol_db = Some (Inr ?db)"
    by (simp add: setWorkScheduleActive_def find_schedule_def find_row_def patrol_db_def patrol_def next_run_def update_rows_def)
  then have "schedule_step (\<lambda>_. True) (\<lambda>_. day_clock) patrol_db ?db" by (rule activate_schedule)
  then have run: "(schedule_step (\<lambda>_. True) (\<lambda>_. day_clock))\<^sup>*\<^sup>* patrol_db ?db" by (rule r_into_rtranclp)
  with schedule_runs_sound [OF run patrol_ok] have
    "(schedule_step (\<lambda>_. True) (\<lambda>_. day_clock))\<^sup>*\<^sup>* patrol_db ?db \<and> schedules_ok ?db \<and>
     map scActive (schedules ?db) = [False] \<and> map scRound (schedules ?db) = [2]" by (simp add: patrol_def)
  then show ?thesis by (rule exI)
qed

end
