(* ===== verification/Iql.thy ===== *)
theory Iql
  imports Prelude
begin

text \<open>
  The query language of \<^verbatim>\<open>packages/shared/src/iql.ts\<close>: the tokenizer, the term parser with its
  errors, the reader of sort terms and the printer. The parser is total; what it accepts is exactly
  described by \<open>iql_query_ok\<close>: every accepted query satisfies it, and every query that satisfies it and
  whose values need no quotes is printed to a text that parses back to it.
\<close>

section \<open>Terms and errors\<close>

record iql_error =
  eMessage :: string
  eTerm :: string
  ePosition :: nat

datatype iql_op = OpEq | OpNeq | OpGt | OpGte | OpLt | OpLte

record iql_term =
  tField :: "string option"
  tOp :: iql_op
  tValue :: string
  tNegated :: bool
  tIndex :: nat

type_synonym iql_query = "iql_term list"

definition IQL_FIELDS :: "string list" where
  "IQL_FIELDS =
     [''team'', ''state'', ''state-type'', ''kind'', ''commitment'', ''assignee'', ''label'', ''priority'',
      ''severity'', ''updated'', ''link'', ''has'', ''project'']"

definition is_attr_char :: "char \<Rightarrow> bool" where
  "is_attr_char c \<longleftrightarrow> is_lower_letter c \<or> is_digit c \<or> c = CHR ''_''"

fun is_attr_key :: "string \<Rightarrow> bool" where
  "is_attr_key [] = False"
| "is_attr_key (c # s) =
     (is_lower_letter c \<and> 1 \<le> length s \<and> length s \<le> 39 \<and> list_all is_attr_char s)"

definition IQL_ATTR_FIELD :: "string \<Rightarrow> bool" where
  "IQL_ATTR_FIELD f \<longleftrightarrow> js_starts_with f ''attr.'' \<and> is_attr_key (drop 5 f)"

definition IQL_SORT_VALUE :: "string \<Rightarrow> bool" where
  "IQL_SORT_VALUE v \<longleftrightarrow>
     (case js_split CHR '':'' v of
        [f] \<Rightarrow> IQL_ATTR_FIELD f
      | [f, d] \<Rightarrow> IQL_ATTR_FIELD f \<and> (d = ''asc'' \<or> d = ''desc'')
      | _ \<Rightarrow> False)"

definition isAttrField :: "string option \<Rightarrow> bool" where
  "isAttrField f = (case f of None \<Rightarrow> False | Some s \<Rightarrow> IQL_ATTR_FIELD s)"

definition attrKey :: "string \<Rightarrow> string" where
  "attrKey f = drop (length ''attr.'') f"

datatype sort_direction = Ascending | Descending

definition readIqlSort :: "iql_term \<Rightarrow> (string \<times> sort_direction) option" where
  "readIqlSort t =
     (if tField t \<noteq> Some ''sort'' then None
      else (let parts = js_split CHR '':'' (tValue t)
            in Some (attrKey (hd parts),
                     if 1 < length parts \<and> parts ! 1 = ''desc'' then Descending else Ascending)))"

section \<open>The tokenizer\<close>

definition is_quote :: "char \<Rightarrow> bool" where
  "is_quote c \<longleftrightarrow> c = CHR 0x22 \<or> c = CHR 0x27"

text \<open>The loop over the characters, with its three variables; \<open>None\<close> when the text ends inside quotes.\<close>

fun tokenize_from :: "char option \<Rightarrow> bool \<Rightarrow> string \<Rightarrow> string \<Rightarrow> string list option" where
  "tokenize_from (Some qt) saw cur [] = None"
| "tokenize_from None saw cur [] = Some (if cur \<noteq> [] \<or> saw then [cur] else [])"
| "tokenize_from (Some qt) saw cur (c # s) =
     (if c = qt then tokenize_from None saw cur s else tokenize_from (Some qt) saw (cur @ [c]) s)"
| "tokenize_from None saw cur (c # s) =
     (if is_quote c then tokenize_from (Some c) True cur s
      else if is_space c then
        (if cur \<noteq> [] \<or> saw then map_option (Cons cur) (tokenize_from None False [] s)
         else tokenize_from None saw cur s)
      else tokenize_from None saw (cur @ [c]) s)"

definition tokenize :: "string \<Rightarrow> (iql_error, string list) result" where
  "tokenize input =
     (case tokenize_from None False [] input of
        None \<Rightarrow> Inl \<lparr>eMessage = ''Unterminated quoted string.'', eTerm = input, ePosition = length input\<rparr>
      | Some tokens \<Rightarrow> Inr tokens)"

section \<open>The parser\<close>

definition op_text :: "iql_op \<Rightarrow> string" where
  "op_text oper =
     (case oper of OpEq \<Rightarrow> '''' | OpNeq \<Rightarrow> ''!='' | OpGt \<Rightarrow> ''>'' | OpGte \<Rightarrow> ''>='' | OpLt \<Rightarrow> ''<'' | OpLte \<Rightarrow> ''<='')"

definition COMPARISON_PREFIXES :: "(string \<times> iql_op) list" where
  "COMPARISON_PREFIXES = [(''>='', OpGte), (''<='', OpLte), (''!='', OpNeq), (''>'', OpGt), (''<'', OpLt)]"

definition parseOpAndValue :: "string \<Rightarrow> iql_op \<times> string" where
  "parseOpAndValue raw =
     (case find (\<lambda>p. js_starts_with raw (fst p)) COMPARISON_PREFIXES of
        Some (prefix, oper) \<Rightarrow> (oper, drop (length prefix) raw)
      | None \<Rightarrow> (OpEq, raw))"

definition known_field :: "string \<Rightarrow> bool" where
  "known_field f \<longleftrightarrow> f \<in> set IQL_FIELDS \<or> f = ''sort'' \<or> IQL_ATTR_FIELD f"

definition quoted :: "string \<Rightarrow> string" where
  "quoted s = [CHR 0x22] @ s @ [CHR 0x22]"

definition reads_negated :: "string \<Rightarrow> bool" where
  "reads_negated token \<longleftrightarrow>
     js_starts_with token ''-'' \<and> 1 < length token \<and> \<not> is_digit (token ! 1)"

definition parse_token :: "nat \<Rightarrow> string \<Rightarrow> (iql_error, iql_term) result" where
  "parse_token position token =
     (let negated = reads_negated token;
          body = (if negated then drop 1 token else token);
          fail = (\<lambda>message. \<lparr>eMessage = message, eTerm = token, ePosition = position\<rparr>)
      in if CHR '':'' \<notin> set body then
           Inr \<lparr>tField = None, tOp = OpEq, tValue = body, tNegated = negated, tIndex = position\<rparr>
         else
           (let name = takeWhile (\<lambda>c. c \<noteq> CHR '':'') body;
                field = js_lower name;
                (oper, v) = parseOpAndValue (drop (length name + 1) body)
            in bind_result (throw_if (\<not> known_field field)
                 (fail (''Unknown field '' @ quoted field @ ''. Valid fields: '' @ js_join '', '' IQL_FIELDS
                        @ '', attr.<key>, sort.''))) (\<lambda>_.
               bind_result (throw_if (v = []) (fail (''Field '' @ quoted field @ '' requires a value.''))) (\<lambda>_.
               bind_result (throw_if (field = ''sort'' \<and> (oper \<noteq> OpEq \<or> negated \<or> \<not> IQL_SORT_VALUE v))
                 (fail ''sort takes attr.<key> or attr.<key>:desc (searchable fields only).'')) (\<lambda>_.
               bind_result (throw_if (IQL_ATTR_FIELD field \<and> oper \<noteq> OpEq \<and> oper \<noteq> OpNeq \<and> CHR '','' \<in> set v)
                 (fail (''Field '' @ quoted field @ '' compares with a single value, not a list.''))) (\<lambda>_.
               bind_result (throw_if ((field = ''priority'' \<or> field = ''updated'') \<and> CHR '','' \<in> set v)
                 (fail (''Field '' @ quoted field @ '' accepts a single value, not a list.''))) (\<lambda>_.
               Inr \<lparr>tField = Some field, tOp = oper, tValue = v, tNegated = negated, tIndex = position\<rparr>)))))))"

definition parse_tokens :: "nat \<Rightarrow> string list \<Rightarrow> (iql_error, iql_query) result" where
  "parse_tokens from tokens = map_result (\<lambda>(position, token). parse_token position token) (enumerate from tokens)"

definition parseIql :: "string \<Rightarrow> (iql_error, iql_query) result" where
  "parseIql query = bind_result (tokenize query) (parse_tokens 1)"

definition assertValidIql :: "string \<Rightarrow> (iql_error, iql_query) result" where
  "assertValidIql query = parseIql query"

section \<open>The printer\<close>

definition describe_term :: "iql_term \<Rightarrow> string" where
  "describe_term t =
     (if tNegated t then ''-'' else '''') @
     (case tField t of None \<Rightarrow> tValue t | Some f \<Rightarrow> f @ '':'' @ op_text (tOp t) @ tValue t)"

definition describeIql :: "iql_query \<Rightarrow> string" where
  "describeIql q = js_join '' '' (map describe_term q)"

section \<open>The type of a query\<close>

text \<open>A value cannot continue the operator written before it.\<close>

definition op_value_ok :: "iql_op \<Rightarrow> string \<Rightarrow> bool" where
  "op_value_ok oper v \<longleftrightarrow> v \<noteq> [] \<and>
     (oper = OpEq \<longrightarrow> \<not> js_starts_with v ''>'' \<and> \<not> js_starts_with v ''<'' \<and> \<not> js_starts_with v ''!='') \<and>
     (oper = OpGt \<or> oper = OpLt \<longrightarrow> \<not> js_starts_with v ''='')"

definition free_term_ok :: "iql_term \<Rightarrow> bool" where
  "free_term_ok t \<longleftrightarrow> tOp t = OpEq \<and> CHR '':'' \<notin> set (tValue t) \<and>
     (if tNegated t then tValue t \<noteq> [] \<and> \<not> is_digit (hd (tValue t)) else \<not> reads_negated (tValue t))"

definition field_term_ok :: "string \<Rightarrow> iql_term \<Rightarrow> bool" where
  "field_term_ok f t \<longleftrightarrow> known_field f \<and> op_value_ok (tOp t) (tValue t) \<and>
     (f = ''sort'' \<longrightarrow> tOp t = OpEq \<and> \<not> tNegated t \<and> IQL_SORT_VALUE (tValue t)) \<and>
     (IQL_ATTR_FIELD f \<and> tOp t \<noteq> OpEq \<and> tOp t \<noteq> OpNeq \<longrightarrow> CHR '','' \<notin> set (tValue t)) \<and>
     (f = ''priority'' \<or> f = ''updated'' \<longrightarrow> CHR '','' \<notin> set (tValue t))"

definition iql_term_ok :: "nat \<Rightarrow> iql_term \<Rightarrow> bool" where
  "iql_term_ok i t \<longleftrightarrow> tIndex t = i \<and>
     (case tField t of None \<Rightarrow> free_term_ok t | Some f \<Rightarrow> field_term_ok f t)"

fun iql_terms_ok :: "nat \<Rightarrow> iql_query \<Rightarrow> bool" where
  "iql_terms_ok i [] = True"
| "iql_terms_ok i (t # ts) = (iql_term_ok i t \<and> iql_terms_ok (Suc i) ts)"

definition iql_query_ok :: "iql_query \<Rightarrow> bool" where
  "iql_query_ok q \<longleftrightarrow> iql_terms_ok 1 q"

text \<open>A value that can be written without quotes.\<close>

definition plain_text :: "string \<Rightarrow> bool" where
  "plain_text s \<longleftrightarrow> s \<noteq> [] \<and> list_all (\<lambda>c. \<not> is_quote c \<and> \<not> is_space c) s"

section \<open>Lemmas\<close>

lemma parseOpAndValue_ok:
  assumes "parseOpAndValue raw = (oper, v)" and "v \<noteq> []"
  shows "op_value_ok oper v"
  using assms
  by (auto simp: parseOpAndValue_def COMPARISON_PREFIXES_def op_value_ok_def js_starts_with_iff
      split: if_splits option.splits)

lemma parseOpAndValue_text:
  assumes "op_value_ok oper v"
  shows "parseOpAndValue (op_text oper @ v) = (oper, v)"
  using assms
  by (cases oper; cases v)
    (auto simp: parseOpAndValue_def COMPARISON_PREFIXES_def op_value_ok_def op_text_def
      split: if_splits option.splits)

lemma attr_key_chars: "is_attr_key k \<Longrightarrow> list_all is_attr_char k"
  by (cases k) (auto simp: is_attr_char_def)

lemma attr_char_plain:
  "is_attr_char c \<Longrightarrow> c \<noteq> CHR '':'' \<and> c \<noteq> CHR ''-'' \<and> \<not> is_quote c \<and> \<not> is_space c \<and> to_lower_char c = c"
  by (cases "c = CHR ''_''") (auto simp: is_attr_char_def is_quote_def Let_def js_simps)

lemma attr_field_chars:
  assumes "IQL_ATTR_FIELD f"
  obtains k where "f = ''attr.'' @ k" and "list_all is_attr_char k"
proof -
  from assms obtain k where "f = ''attr.'' @ k" by (auto simp: IQL_ATTR_FIELD_def js_starts_with_iff)
  with assms have "f = ''attr.'' @ k" and "list_all is_attr_char k"
    by (auto simp: IQL_ATTR_FIELD_def dest: attr_key_chars)
  then show thesis by (rule that)
qed

text \<open>A field name is printed as it is read: in lower case, unquoted, without a colon, after no sign.\<close>

lemma known_field_text:
  assumes "known_field f"
  shows "list_all (\<lambda>c. c \<noteq> CHR '':'' \<and> \<not> is_quote c \<and> \<not> is_space c \<and> to_lower_char c = c) f
    \<and> f \<noteq> [] \<and> \<not> is_digit (hd f) \<and> hd f \<noteq> CHR ''-''"
  (is "?Q f")
proof (cases "IQL_ATTR_FIELD f")
  case True
  then obtain k where "f = ''attr.'' @ k" "list_all is_attr_char k" by (rule attr_field_chars)
  moreover from this(2) have
    "list_all (\<lambda>c. c \<noteq> CHR '':'' \<and> \<not> is_quote c \<and> \<not> is_space c \<and> to_lower_char c = c) k"
    by (rule list.pred_mono_strong) (blast dest: attr_char_plain)
  ultimately show ?thesis by (simp add: is_quote_def Let_def js_simps)
next
  case False
  with assms have "f \<in> set (''sort'' # IQL_FIELDS)" by (auto simp: known_field_def)
  moreover have "list_all ?Q (''sort'' # IQL_FIELDS)" by (simp add: IQL_FIELDS_def is_quote_def Let_def js_simps)
  ultimately show ?thesis unfolding list_all_iff by blast
qed

lemma known_field_lower: "known_field f \<Longrightarrow> js_lower f = f"
  by (drule known_field_text) (auto simp: js_lower_def list_all_iff intro: map_idI)

lemma reads_negated_Cons [simp]:
  "reads_negated (CHR ''-'' # s) \<longleftrightarrow> s \<noteq> [] \<and> \<not> is_digit (hd s)"
  by (cases s) (auto simp: reads_negated_def)

lemma reads_negated_D: "reads_negated s \<Longrightarrow> \<exists>u. s = CHR ''-'' # u \<and> u \<noteq> [] \<and> \<not> is_digit (hd u)"
  by (auto simp: reads_negated_def js_starts_with_iff neq_Nil_conv)

lemma parse_token_field:
  assumes "(if reads_negated token then drop 1 token else token) = name @ CHR '':'' # rest"
    and "CHR '':'' \<notin> set name"
  shows "parse_token i token = Inr t \<longleftrightarrow>
    (case parseOpAndValue rest of (oper, v) \<Rightarrow>
       t = \<lparr>tField = Some (js_lower name), tOp = oper, tValue = v, tNegated = reads_negated token, tIndex = i\<rparr> \<and>
       v \<noteq> [] \<and> known_field (js_lower name) \<and>
       (js_lower name = ''sort'' \<longrightarrow> oper = OpEq \<and> \<not> reads_negated token \<and> IQL_SORT_VALUE v) \<and>
       (IQL_ATTR_FIELD (js_lower name) \<and> oper \<noteq> OpEq \<and> oper \<noteq> OpNeq \<longrightarrow> CHR '','' \<notin> set v) \<and>
       (js_lower name = ''priority'' \<or> js_lower name = ''updated'' \<longrightarrow> CHR '','' \<notin> set v))"
proof -
  have name: "takeWhile (\<lambda>c. c \<noteq> CHR '':'') (name @ CHR '':'' # rest) = name"
    using assms(2) by (induction name) auto
  show ?thesis
    unfolding parse_token_def Let_def assms(1) name
    by (cases "parseOpAndValue rest") auto
qed

lemma parse_token_free:
  assumes "CHR '':'' \<notin> set (if reads_negated token then drop 1 token else token)"
  shows "parse_token i token =
    Inr \<lparr>tField = None, tOp = OpEq, tValue = (if reads_negated token then drop 1 token else token),
         tNegated = reads_negated token, tIndex = i\<rparr>"
  using assms unfolding parse_token_def Let_def by simp

lemma parse_token_typed:
  assumes "parse_token i token = Inr t"
  shows "iql_term_ok i t"
proof -
  let ?body = "if reads_negated token then drop 1 token else token"
  show ?thesis
  proof (cases "CHR '':'' \<in> set ?body")
    case False
    with parse_token_free [OF False] assms show ?thesis
      by (auto simp: iql_term_ok_def free_term_ok_def dest: reads_negated_D split: if_splits)
  next
    case True
    then obtain name rest where body: "?body = name @ CHR '':'' # rest" and no: "CHR '':'' \<notin> set name"
      by (blast dest: split_list_first)
    obtain oper v where op: "parseOpAndValue rest = (oper, v)" by (cases "parseOpAndValue rest")
    from assms have typed: "t = \<lparr>tField = Some (js_lower name), tOp = oper, tValue = v,
        tNegated = reads_negated token, tIndex = i\<rparr>" and "v \<noteq> []"
      unfolding parse_token_field [OF body no] op by simp_all
    from parseOpAndValue_ok [OF op this(2)] have "op_value_ok oper v" .
    with assms show ?thesis
      unfolding parse_token_field [OF body no] op typed by (simp add: iql_term_ok_def field_term_ok_def)
  qed
qed

lemma parse_tokens_Cons:
  "parse_tokens i (token # tokens) =
     bind_result (parse_token i token) (\<lambda>t. bind_result (parse_tokens (Suc i) tokens) (\<lambda>ts. Inr (t # ts)))"
  by (simp add: parse_tokens_def)

lemma parse_tokens_typed: "parse_tokens i tokens = Inr q \<Longrightarrow> iql_terms_ok i q"
proof (induction tokens arbitrary: i q)
  case Nil
  then show ?case by (simp add: parse_tokens_def)
next
  case (Cons token tokens)
  then show ?case by (auto simp: parse_tokens_Cons dest: parse_token_typed)
qed

lemma parse_described:
  assumes "iql_term_ok i t"
  shows "parse_token i (describe_term t) = Inr t"
proof (cases "tField t")
  case None
  with assms have free: "free_term_ok t" and i: "tIndex t = i" by (simp_all add: iql_term_ok_def)
  from free have neg: "reads_negated (describe_term t) = tNegated t"
    by (auto simp: describe_term_def None free_term_ok_def split: if_splits)
  have body: "(if reads_negated (describe_term t) then drop 1 (describe_term t) else describe_term t) = tValue t"
    unfolding neg by (simp add: describe_term_def None)
  from free have "CHR '':'' \<notin> set (tValue t)" by (simp add: free_term_ok_def)
  from parse_token_free [of "describe_term t" i, unfolded body, unfolded neg, OF this] show ?thesis
    using free None i by (simp add: free_term_ok_def)
next
  case (Some f)
  with assms have typed: "field_term_ok f t" and i: "tIndex t = i" by (simp_all add: iql_term_ok_def)
  then have known: "known_field f" and ov: "op_value_ok (tOp t) (tValue t)" by (simp_all add: field_term_ok_def)
  note spelled = known_field_text [OF known]
  from spelled have neg: "reads_negated (describe_term t) = tNegated t"
    by (cases f) (auto simp: describe_term_def Some dest: reads_negated_D)
  have body: "(if reads_negated (describe_term t) then drop 1 (describe_term t) else describe_term t)
      = f @ CHR '':'' # (op_text (tOp t) @ tValue t)"
    unfolding neg by (simp add: describe_term_def Some)
  have no: "CHR '':'' \<notin> set f" using spelled by (auto simp: list_all_iff)
  show ?thesis
    unfolding parse_token_field [OF body no] parseOpAndValue_text [OF ov] known_field_lower [OF known] neg
    using typed i Some by (cases t) (auto simp: field_term_ok_def op_value_ok_def)
qed

text \<open>Text without white space or quotes is one token, and a blank ends it.\<close>

lemma tokenize_plain:
  "list_all (\<lambda>c. \<not> is_quote c \<and> \<not> is_space c) s \<Longrightarrow>
   tokenize_from None saw cur (s @ rest) = tokenize_from None saw (cur @ s) rest"
  by (induction s arbitrary: cur) auto

lemma tokenize_join:
  "list_all plain_text tokens \<Longrightarrow> tokenize_from None False [] (js_join '' '' tokens) = Some tokens"
proof (induction "'' ''" tokens rule: js_join.induct)
  case 1
  show ?case by simp
next
  case (2 s)
  then have "list_all (\<lambda>c. \<not> is_quote c \<and> \<not> is_space c) s" and "s \<noteq> []" by (simp_all add: plain_text_def)
  with tokenize_plain [of s False "[]" "[]"] show ?case by simp
next
  case (3 s t ss)
  then have "list_all (\<lambda>c. \<not> is_quote c \<and> \<not> is_space c) s" and "s \<noteq> []" by (simp_all add: plain_text_def)
  moreover have "is_space CHR '' ''" and "\<not> is_quote CHR '' ''" by (simp_all add: is_quote_def js_simps)
  ultimately show ?case using 3 tokenize_plain [of s False "[]"] by simp
qed

lemma describe_plain:
  assumes "iql_term_ok i t" and "plain_text (tValue t)"
  shows "plain_text (describe_term t)"
proof (cases "tField t")
  case None
  with assms show ?thesis by (auto simp: describe_term_def plain_text_def is_quote_def js_simps)
next
  case (Some f)
  with assms have "known_field f" by (simp add: iql_term_ok_def field_term_ok_def)
  from known_field_text [OF this] have f: "list_all (\<lambda>c. \<not> is_quote c \<and> \<not> is_space c) f" by (auto simp: list_all_iff)
  have "list_all (\<lambda>c. \<not> is_quote c \<and> \<not> is_space c) (op_text (tOp t))"
    by (cases "tOp t") (simp_all add: op_text_def is_quote_def js_simps)
  moreover have "\<not> is_quote CHR ''-'' \<and> \<not> is_space CHR ''-'' \<and> \<not> is_quote CHR '':'' \<and> \<not> is_space CHR '':''"
    by (simp add: is_quote_def js_simps)
  ultimately show ?thesis using assms(2) f by (simp add: describe_term_def plain_text_def Some)
qed

lemma described_tokens_plain:
  "iql_terms_ok i q \<Longrightarrow> list_all (\<lambda>t. plain_text (tValue t)) q \<Longrightarrow> list_all plain_text (map describe_term q)"
  by (induction q arbitrary: i) (auto intro: describe_plain)

lemma parse_described_tokens:
  "iql_terms_ok i q \<Longrightarrow> parse_tokens i (map describe_term q) = Inr q"
proof (induction q arbitrary: i)
  case Nil
  show ?case by (simp add: parse_tokens_def)
next
  case (Cons t q)
  then show ?case by (simp add: parse_tokens_Cons parse_described)
qed

lemma sort_value_key:
  assumes "IQL_SORT_VALUE v"
  shows "is_attr_key (attrKey (hd (js_split CHR '':'' v)))"
  using assms by (auto simp: IQL_SORT_VALUE_def IQL_ATTR_FIELD_def attrKey_def eval_nat_numeral split: list.splits)

lemma iql_terms_each: "iql_terms_ok i q \<Longrightarrow> t \<in> set q \<Longrightarrow> \<exists>j. iql_term_ok j t"
  by (induction q arbitrary: i) auto

section \<open>Properties\<close>

text \<open>
  C23: what the parser accepts is well typed. Every term of a parsed query is numbered from 1 by its
  position; a free-text term is an equality without a colon; a field term names one of the listed
  fields, \<^verbatim>\<open>sort\<close> or an attribute key in snake case of 2 to 40 characters, has a value that is not
  empty and does not continue its operator; \<^verbatim>\<open>sort\<close> is a positive equality with an attribute and an
  optional direction, and \<^verbatim>\<open>priority\<close>, \<^verbatim>\<open>updated\<close> and compared attributes carry one value.
  The sort reader then finds a real attribute key in every sort term.
\<close>

theorem parseIql_typed:
  assumes "parseIql query = Inr q"
  shows "iql_query_ok q \<and>
    (\<forall>t \<in> set q. tField t = Some ''sort'' \<longrightarrow> (\<exists>key d. readIqlSort t = Some (key, d) \<and> is_attr_key key))"
proof -
  from assms obtain tokens where "parse_tokens 1 tokens = Inr q" by (auto simp: parseIql_def)
  then have ok: "iql_query_ok q" unfolding iql_query_ok_def by (rule parse_tokens_typed)
  moreover have "\<forall>t \<in> set q. tField t = Some ''sort'' \<longrightarrow>
      (\<exists>key d. readIqlSort t = Some (key, d) \<and> is_attr_key key)"
  proof (intro ballI impI)
    fix t assume t: "t \<in> set q" and sort: "tField t = Some ''sort''"
    from iql_terms_each [OF ok [unfolded iql_query_ok_def] t] sort have "IQL_SORT_VALUE (tValue t)"
      by (auto simp: iql_term_ok_def field_term_ok_def)
    from sort_value_key [OF this] sort show "\<exists>key d. readIqlSort t = Some (key, d) \<and> is_attr_key key"
      by (simp add: readIqlSort_def Let_def)
  qed
  ultimately show ?thesis by blast
qed

definition sample_query :: iql_query where
  "sample_query =
     [\<lparr>tField = Some ''state'', tOp = OpEq, tValue = ''done'', tNegated = True, tIndex = 1\<rparr>,
      \<lparr>tField = Some ''priority'', tOp = OpGte, tValue = ''2'', tNegated = False, tIndex = 2\<rparr>,
      \<lparr>tField = None, tOp = OpEq, tValue = ''backup'', tNegated = False, tIndex = 3\<rparr>,
      \<lparr>tField = Some ''sort'', tOp = OpEq, tValue = ''attr.points:desc'', tNegated = False, tIndex = 4\<rparr>]"

lemma sample_query_parses: "parseIql ''-State:done  priority:>=2 \"backup\" sort:attr.points:desc'' = Inr sample_query"
  by code_simp

theorem parseIql_typed_witness:
  "parseIql ''-State:done  priority:>=2 \"backup\" sort:attr.points:desc'' = Inr sample_query \<and>
   iql_query_ok sample_query \<and>
   (\<exists>key d. readIqlSort (sample_query ! 3) = Some (key, d) \<and> is_attr_key key)"
proof -
  have "sample_query ! 3 \<in> set sample_query" "tField (sample_query ! 3) = Some ''sort''" by code_simp+
  with parseIql_typed [OF sample_query_parses] sample_query_parses show ?thesis by blast
qed

text \<open>
  C24: printing a query and parsing the text gives the query back, for every well-typed query whose
  values can be written without quotes. With the typing of parsed queries this makes the printer
  a section of the parser and its normal forms exactly the well-typed queries: field names come back in
  lower case, negations, operators, values and positions unchanged. (The printer writes no quotes, so
  a value with white space does not come back.)
\<close>

theorem describeIql_roundtrip:
  assumes "iql_query_ok q" and "\<forall>t \<in> set q. plain_text (tValue t)"
  shows "parseIql (describeIql q) = Inr q"
proof -
  have "list_all plain_text (map describe_term q)"
    using assms described_tokens_plain unfolding iql_query_ok_def list_all_iff by blast
  then have "tokenize (describeIql q) = Inr (map describe_term q)"
    by (simp add: tokenize_def describeIql_def tokenize_join)
  with assms(1) show ?thesis by (simp add: parseIql_def iql_query_ok_def parse_described_tokens)
qed

theorem describeIql_roundtrip_witness:
  "describeIql sample_query = ''-state:done priority:>=2 backup sort:attr.points:desc'' \<and>
   parseIql (describeIql sample_query) = Inr sample_query"
proof -
  have "iql_query_ok sample_query" by code_simp
  moreover have "\<forall>t \<in> set sample_query. plain_text (tValue t)" by code_simp
  ultimately have "parseIql (describeIql sample_query) = Inr sample_query" by (rule describeIql_roundtrip)
  moreover have "describeIql sample_query = ''-state:done priority:>=2 backup sort:attr.points:desc''" by code_simp
  ultimately show ?thesis by blast
qed

end
