(* ===== verification/Iql_Filter.thy ===== *)
theory Iql_Filter
  imports Iql Json
begin

text \<open>
  The two readings of a query (\<^verbatim>\<open>packages/server/src/iql-compile.ts\<close>): the database clause a term
  compiles to, and the predicate webhook subscriptions evaluate on a work row in hand. A clause is the
  object handed to Prisma, as an untyped value; the time of the call is an argument, dates are
  milliseconds and stay in the range of \<^verbatim>\<open>Date\<close>. Names of enumerations are text_array, as both readings
  compare them. A property that every JavaScript object inherits (\<^verbatim>\<open>constructor\<close>) is not an attribute
  key here.
\<close>

section \<open>Shared tables\<close>

definition WORKFLOW_STATE_TYPES :: "string list" where
  "WORKFLOW_STATE_TYPES = [''BACKLOG'', ''UNSTARTED'', ''STARTED'', ''REVIEW'', ''COMPLETED'', ''CANCELED'']"

definition WORK_KINDS :: "string list" where
  "WORK_KINDS = [''ISSUE'', ''PROJECT'', ''MILESTONE'', ''DECISION'', ''EPIC'']"

definition COMMITMENT_STATUSES :: "string list" where
  "COMMITMENT_STATUSES = [''CANDIDATE'', ''COMMITTED'', ''REJECTED'']"

definition SEVERITIES :: "string list" where
  "SEVERITIES = [''SEV1'', ''SEV2'', ''SEV3'']"

definition LINK_TYPE_ALIASES :: "(string \<times> string) list" where
  "LINK_TYPE_ALIASES =
     [(''blocked-by'', ''BLOCKS''), (''blocks'', ''BLOCKS''), (''contains'', ''CONTAINS''),
      (''derived_from'', ''DERIVED_FROM''), (''discovered_during'', ''DISCOVERED_DURING''),
      (''related_to'', ''RELATED_TO''), (''duplicate_of'', ''DUPLICATE_OF''), (''regressed_by'', ''REGRESSED_BY'')]"

definition OUTGOING_LINK_ALIASES :: "string list" where
  "OUTGOING_LINK_ALIASES = [''regressed_by'']"

definition iqlParseGraphQLError :: "string \<Rightarrow> string" where
  "iqlParseGraphQLError message = ''Invalid IQL query: '' @ message"

definition parseIqlOrThrow :: "string \<Rightarrow> (string, iql_query) result" where
  "parseIqlOrThrow query =
     (case parseIql query of Inl e \<Rightarrow> Inl (iqlParseGraphQLError (eMessage e)) | Inr q \<Rightarrow> Inr q)"

text \<open>A count of digits, white space and one unit letter; the result in milliseconds.\<close>

definition unit_ms :: "char \<Rightarrow> int option" where
  "unit_ms c =
     map_of [(CHR ''s'', 1000), (CHR ''m'', 60000), (CHR ''h'', 3600000), (CHR ''d'', 86400000), (CHR ''w'', 604800000)]
       (to_lower_char c)"

definition durationToMs :: "string \<Rightarrow> iql_term \<Rightarrow> (string, int) result" where
  "durationToMs v t =
     (let s = js_trim v; digits = takeWhile is_digit s; rest = dropWhile is_space (dropWhile is_digit s);
          failure = Inl (iqlParseGraphQLError (''updated:'' @ (if tOp t = OpNeq then ''!='' else '''') @ v
                           @ '' needs a duration like 30d, 2h, 1w.''))
      in case rest of
           [c] \<Rightarrow> (case unit_ms c of
                     Some ms \<Rightarrow> if digits = [] then failure else Inr (int (digits_value 0 digits) * ms)
                   | None \<Rightarrow> failure)
         | _ \<Rightarrow> failure)"

definition trimmed_values :: "iql_term \<Rightarrow> string list" where
  "trimmed_values t = map js_trim (js_split CHR '','' (tValue t))"

definition link_parts :: "iql_term \<Rightarrow> string \<times> string" where
  "link_parts t =
     (let parts = map js_trim (js_split CHR '':'' (tValue t))
      in (hd parts, if 1 < length parts then parts ! 1 else ''''))"

section \<open>The database clause of a term\<close>

definition clause1 :: "string \<Rightarrow> json \<Rightarrow> json" where
  "clause1 k v = JObj [(k, v)]"

definition text_array :: "string list \<Rightarrow> json" where
  "text_array vs = JArr (map JStr vs)"

definition comparison_clause :: "iql_op \<Rightarrow> rat \<Rightarrow> json option" where
  "comparison_clause oper n =
     (case oper of
        OpGt \<Rightarrow> Some (clause1 ''gt'' (JNum n)) | OpGte \<Rightarrow> Some (clause1 ''gte'' (JNum n))
      | OpLt \<Rightarrow> Some (clause1 ''lt'' (JNum n)) | OpLte \<Rightarrow> Some (clause1 ''lte'' (JNum n))
      | OpNeq \<Rightarrow> Some (clause1 ''not'' (JNum n)) | OpEq \<Rightarrow> None)"

definition insensitive :: "string \<Rightarrow> string \<Rightarrow> json" where
  "insensitive how v = JObj [(how, JStr v), (''mode'', JStr ''insensitive'')]"

definition is_identifier :: "string \<Rightarrow> bool" where
  "is_identifier s \<longleftrightarrow>
     (let a = takeWhile (\<lambda>c. is_lower_letter c \<or> is_upper_letter c) s; r = drop (length a) s
      in a \<noteq> [] \<and> js_starts_with r ''-'' \<and> 1 < length r \<and> list_all is_digit (drop 1 r))"

definition project_clauses :: "string \<Rightarrow> json list" where
  "project_clauses v =
     (if is_identifier v then
        (let i = clause1 ''identifier'' (clause1 ''equals'' (JStr (js_upper v)));
             up = (\<lambda>c. clause1 ''parent'' (clause1 ''is'' c))
         in [up i, up (up i), up (up (up i))])
      else if js_includes v ''/'' then [clause1 ''repository'' (insensitive ''equals'' v)]
      else [clause1 ''repository'' (insensitive ''endsWith'' (''/'' @ v))])"

definition one_of :: "string \<Rightarrow> string list \<Rightarrow> string list \<Rightarrow> (string, string list) result" where
  "one_of field allowed values =
     (let upper = map js_upper values
      in if list_all (\<lambda>v. v \<in> set allowed) upper then Inr upper
         else Inl (iqlParseGraphQLError (field @ '' must be one of '' @ js_join '', '' allowed @ ''.'')))"

definition severity_clause :: "bool \<Rightarrow> string list \<Rightarrow> json" where
  "severity_clause positive wanted =
     (let named = filter (\<lambda>v. v \<noteq> ''NONE'') wanted; none = ''NONE'' \<in> set wanted
      in if positive then
           (if named = [] then clause1 ''severity'' JNull
            else if none then clause1 ''OR'' (JArr [clause1 ''severity'' (clause1 ''in'' (text_array named)), clause1 ''severity'' JNull])
            else clause1 ''severity'' (clause1 ''in'' (text_array named)))
         else if none then
           (if named \<noteq> [] then clause1 ''severity'' (clause1 ''notIn'' (text_array named))
            else clause1 ''severity'' (clause1 ''not'' JNull))
         else clause1 ''OR'' (JArr [clause1 ''severity'' (clause1 ''notIn'' (text_array named)), clause1 ''severity'' JNull]))"

definition link_clause :: "iql_term \<Rightarrow> (string, json) result" where
  "link_clause t =
     (let (rawType, target) = link_parts t; alias = js_lower rawType; noTarget = (js_lower target = ''none'')
      in if rawType = [] \<or> target = [] then
           Inl (iqlParseGraphQLError ''link needs link:<type>:<identifier|none>, e.g. link:blocked-by:none.'')
         else case map_of LINK_TYPE_ALIASES alias of
           None \<Rightarrow> Inl (iqlParseGraphQLError (''unknown link type '' @ quoted rawType @ ''.''))
         | Some l \<Rightarrow>
             if alias \<in> set OUTGOING_LINK_ALIASES then
               Inr (clause1 ''outgoingLinks''
                 (if noTarget then clause1 ''none'' (clause1 ''type'' (JStr l))
                  else clause1 ''some'' (JObj [(''type'', JStr l),
                         (''to'', clause1 ''identifier'' (clause1 ''equals'' (JStr target)))])))
             else
               Inr (clause1 ''incomingLinks''
                 (if noTarget then clause1 ''none'' (JObj [(''type'', JStr l),
                         (''from'', clause1 ''state'' (clause1 ''type'' (clause1 ''in''
                            (text_array [''BACKLOG'', ''UNSTARTED'', ''STARTED'', ''REVIEW'']))))])
                  else clause1 ''some'' (JObj [(''type'', JStr l),
                         (''from'', clause1 ''identifier'' (clause1 ''equals'' (JStr target)))]))))"

definition has_clause :: "string \<Rightarrow> (string, json) result" where
  "has_clause v =
     (if v = ''contract'' then
        Inr (clause1 ''OR'' (JArr (map (\<lambda>f. clause1 f (clause1 ''not'' JNull))
          [''outcome'', ''scope'', ''constraints'', ''acceptance'', ''verification''])))
      else if v = ''claim'' then Inr (clause1 ''claim'' (clause1 ''isNot'' JNull))
      else if v = ''run'' then Inr (clause1 ''runs'' (clause1 ''some'' (JObj [])))
      else if v = ''evidence'' then Inr (clause1 ''evidence'' (clause1 ''some'' (JObj [])))
      else Inl (iqlParseGraphQLError ''has must be one of contract, claim, run, evidence.''))"

definition compileTerm :: "instant \<Rightarrow> ident option \<Rightarrow> iql_term \<Rightarrow> (string, json) result" where
  "compileTerm now viewerId t =
     (let positive = \<not> tNegated t;
          clauseFor = (\<lambda>c. if positive then c else clause1 ''NOT'' c);
          values = filter (\<lambda>v. v \<noteq> []) (trimmed_values t);
          firstValue = (case values of [] \<Rightarrow> '''' | v # _ \<Rightarrow> v)
      in case tField t of
        None \<Rightarrow>
          (let text = insensitive ''contains'' (tValue t)
           in Inr (clauseFor (clause1 ''OR'' (JArr [clause1 ''title'' text, clause1 ''description'' text]))))
      | Some f \<Rightarrow>
          if f = ''project'' then
            (if values = [] then Inl (iqlParseGraphQLError ''project needs a repository name, owner/repo or PROJECT identifier.'')
             else Inr (clauseFor (clause1 ''OR'' (JArr (concat (map project_clauses values))))))
          else if f = ''team'' then
            Inr (clauseFor (if 1 < length values then clause1 ''team'' (clause1 ''key'' (clause1 ''in'' (text_array values)))
                            else clause1 ''team'' (clause1 ''is'' (clause1 ''key'' (JStr firstValue)))))
          else if f = ''state'' then
            Inr (clauseFor (clause1 ''state'' (clause1 ''is'' (clause1 ''name''
                  (if 1 < length values then clause1 ''in'' (text_array values) else clause1 ''equals'' (JStr firstValue))))))
          else if f = ''state-type'' then
            bind_result (one_of f WORKFLOW_STATE_TYPES values) (\<lambda>upper.
              Inr (clauseFor (clause1 ''state'' (clause1 ''is'' (clause1 ''type'' (clause1 ''in'' (text_array upper)))))))
          else if f = ''kind'' then
            bind_result (one_of f WORK_KINDS values) (\<lambda>upper. Inr (clauseFor (clause1 ''kind'' (clause1 ''in'' (text_array upper)))))
          else if f = ''commitment'' then
            bind_result (one_of f COMMITMENT_STATUSES values) (\<lambda>upper.
              Inr (clauseFor (clause1 ''commitmentStatus'' (clause1 ''in'' (text_array upper)))))
          else if f = ''assignee'' then
            (if js_lower firstValue = ''me'' then
               (case viewerId of
                  Some (c # cs) \<Rightarrow> Inr (clauseFor (clause1 ''assigneeId'' (JStr (c # cs))))
                | _ \<Rightarrow> Inr (if positive then clause1 ''id'' (clause1 ''in'' (JArr [])) else JObj []))
             else if js_lower firstValue = ''none'' then Inr (clauseFor (clause1 ''assigneeId'' JNull))
             else Inr (clauseFor (clause1 ''assigneeId'' (JStr firstValue))))
          else if f = ''label'' then
            Inr (clauseFor (clause1 ''labels'' (clause1 ''some'' (clause1 ''OR''
                  (JArr (map (\<lambda>v. clause1 ''name'' (insensitive ''equals'' v)) values))))))
          else if f = ''priority'' then
            (case (if values = [] then None else js_number firstValue) of
               None \<Rightarrow> Inl (iqlParseGraphQLError ''priority needs a number.'')
             | Some n \<Rightarrow>
                 if tOp t = OpEq then Inr (clauseFor (clause1 ''priority'' (clause1 ''equals'' (JNum n))))
                 else (case comparison_clause (tOp t) n of
                         Some c \<Rightarrow> Inr (clauseFor (clause1 ''priority'' c)) | None \<Rightarrow> Inr (JObj [])))
          else if f = ''severity'' then
            (let wanted = map js_upper values
             in if list_all (\<lambda>v. v = ''NONE'' \<or> v \<in> set SEVERITIES) wanted
                then Inr (severity_clause (positive \<noteq> (tOp t = OpNeq)) wanted)
                else Inl (iqlParseGraphQLError (''severity must be one of '' @ js_join '', '' SEVERITIES @ '' or none.'')))
          else if f = ''updated'' then
            bind_result (durationToMs firstValue t) (\<lambda>ms.
              case comparison_clause (tOp t) (of_int (now - ms)) of
                Some c \<Rightarrow> Inr (clauseFor (clause1 ''updatedAt'' c)) | None \<Rightarrow> Inr (JObj []))
          else if f = ''link'' then bind_result (link_clause t) (\<lambda>c. Inr (clauseFor c))
          else if f = ''has'' then bind_result (has_clause (js_lower firstValue)) (\<lambda>c. Inr (clauseFor c))
          else Inl (iqlParseGraphQLError (''unknown field '' @ quoted f @ ''.'')))"

definition compileIqlToIssueWhere :: "instant \<Rightarrow> ident option \<Rightarrow> iql_query \<Rightarrow> (string, json option) result" where
  "compileIqlToIssueWhere now viewerId q =
     (if q = [] then Inr None
      else if \<exists>t \<in> set q. tField t = Some ''sort'' \<or> (case tField t of Some f \<Rightarrow> js_starts_with f ''attr.'' | None \<Rightarrow> False)
      then Inl (iqlParseGraphQLError ''attr.<key> and sort terms are not supported here.'')
      else bind_result (map_result (compileTerm now viewerId) q) (\<lambda>cs. Inr (Some (clause1 ''AND'' (JArr cs)))))"

section \<open>The predicate on a row\<close>

record database_work =
  dwTitle :: string
  dwDescription :: "string option"
  dwIdentifier :: string
  dwRepository :: "string option"
  dwState :: "(string \<times> string) option" \<comment> \<open>name and type\<close>
  dwKind :: string
  dwCommitment :: string
  dwAssigneeId :: "ident option"
  dwAssignee :: "ident option"
  dwLabels :: "string list"
  dwPriority :: int
  dwSeverity :: "string option"
  dwUpdatedAt :: instant
  dwContract :: "string option list" \<comment> \<open>outcome, scope, constraints, acceptance, verification\<close>
  dwAttributes :: json

text \<open>The order of \<^verbatim>\<open><\<close> on strings, by character code.\<close>

fun text_less :: "string \<Rightarrow> string \<Rightarrow> bool" where
  "text_less s [] = False"
| "text_less [] (d # t) = True"
| "text_less (c # s) (d # t) =
     (if c = d then text_less s t else (of_char c :: nat) < of_char d)"

fun compare_by :: "iql_op \<Rightarrow> ('a \<Rightarrow> 'a \<Rightarrow> bool) \<Rightarrow> 'a \<Rightarrow> 'a \<Rightarrow> bool" where
  "compare_by OpEq lt a b = (a = b)"
| "compare_by OpNeq lt a b = (a \<noteq> b)"
| "compare_by OpGt lt a b = lt b a"
| "compare_by OpGte lt a b = (lt b a \<or> a = b)"
| "compare_by OpLt lt a b = lt a b"
| "compare_by OpLte lt a b = (lt a b \<or> a = b)"

definition stored_attribute :: "json \<Rightarrow> string \<Rightarrow> json option" where
  "stored_attribute attributes key =
     (case attributes of JObj kvs \<Rightarrow> (if obj_get key kvs = Some JNull then None else obj_get key kvs) | _ \<Rightarrow> None)"

definition matchAttribute :: "iql_term \<Rightarrow> database_work \<Rightarrow> bool" where
  "matchAttribute t work =
     (let stored = stored_attribute (dwAttributes work) (drop 5 (the (tField t))); v = js_trim (tValue t);
          signed = (\<lambda>m. if tOp t = OpNeq then \<not> m else m)
      in if v = ''none'' \<or> v = ''any'' then signed ((v = ''any'') = (stored \<noteq> None))
         else case stored of
           None \<Rightarrow> tOp t = OpNeq
         | Some j \<Rightarrow>
             if tOp t = OpEq \<or> tOp t = OpNeq then
               signed (\<exists>e \<in> set (map js_trim (js_split CHR '','' v)).
                 e \<in> set (map js_string (case j of JArr xs \<Rightarrow> xs | _ \<Rightarrow> [j])))
             else (case j of
                     JNum n \<Rightarrow> (case js_number v of Some m \<Rightarrow> compare_by (tOp t) (<) n m | None \<Rightarrow> False)
                   | _ \<Rightarrow> compare_by (tOp t) text_less (js_string j) v))"

definition matchPositive :: "instant \<Rightarrow> ident option \<Rightarrow> iql_term \<Rightarrow> database_work \<Rightarrow> (string, bool) result" where
  "matchPositive now viewerId t work =
     (let values = trimmed_values t; firstValue = hd values;
          listContains = (\<lambda>c. \<exists>v \<in> set values. js_lower v = js_lower c)
      in case tField t of
        None \<Rightarrow>
          (let needle = js_lower (tValue t)
           in Inr (js_includes (js_lower (dwTitle work)) needle
                   \<or> js_includes (js_lower (case dwDescription work of Some d \<Rightarrow> d | None \<Rightarrow> '''')) needle))
      | Some f \<Rightarrow>
          if f = ''sort'' then Inr True
          else if js_starts_with f ''attr.'' then Inr (matchAttribute t work)
          else if f = ''project'' then
            (let repo = js_lower (case dwRepository work of Some r \<Rightarrow> r | None \<Rightarrow> '''')
             in Inr (\<exists>v \<in> set values. if js_includes (js_lower v) ''/'' then repo = js_lower v
                                     else js_ends_with repo (''/'' @ js_lower v)))
          else if f = ''team'' then Inr (listContains (hd (js_split CHR ''-'' (dwIdentifier work))))
          else if f = ''state'' then
            Inr (case dwState work of Some (name, ty) \<Rightarrow> listContains name | None \<Rightarrow> False)
          else if f = ''state-type'' then
            Inr (case dwState work of Some (name, ty) \<Rightarrow> \<exists>v \<in> set values. js_upper v = ty | None \<Rightarrow> False)
          else if f = ''kind'' then Inr (\<exists>v \<in> set values. js_upper v = dwKind work)
          else if f = ''commitment'' then Inr (\<exists>v \<in> set values. js_upper v = dwCommitment work)
          else if f = ''assignee'' then
            Inr (if js_lower firstValue = ''me'' then
                   (case viewerId of Some (c # cs) \<Rightarrow> dwAssignee work = Some (c # cs) | _ \<Rightarrow> False)
                 else if js_lower firstValue = ''none'' then dwAssigneeId work = None
                 else dwAssigneeId work = Some firstValue)
          else if f = ''label'' then
            Inr (\<exists>v \<in> set values. \<exists>l \<in> set (dwLabels work). js_lower l = js_lower v)
          else if f = ''priority'' then
            Inr (case js_number firstValue of
                   Some n \<Rightarrow> compare_by (tOp t) (<) (of_int (dwPriority work)) n | None \<Rightarrow> False)
          else if f = ''severity'' then
            (let matched = listContains (case dwSeverity work of Some s \<Rightarrow> s | None \<Rightarrow> ''none'')
             in Inr (if tOp t = OpNeq then \<not> matched else matched))
          else if f = ''updated'' then
            bind_result (durationToMs firstValue t) (\<lambda>ms.
              Inr (compare_by (tOp t) (<) (dwUpdatedAt work) (now - ms)))
          else if f = ''link'' then Inr False
          else if f = ''has'' then
            Inr (js_lower firstValue = ''contract'' \<and> (\<exists>c \<in> set (dwContract work). c \<noteq> None))
          else Inr False)"

definition matchTerm :: "instant \<Rightarrow> ident option \<Rightarrow> iql_term \<Rightarrow> database_work \<Rightarrow> (string, bool) result" where
  "matchTerm now viewerId t work =
     bind_result (matchPositive now viewerId t work) (\<lambda>m. Inr (if tNegated t then \<not> m else m))"

definition compileIqlPredicate ::
  "instant \<Rightarrow> iql_query \<Rightarrow> ident option \<Rightarrow> database_work \<Rightarrow> (string, bool) result" where
  "compileIqlPredicate now q viewerId work = every_result (\<lambda>t. matchTerm now viewerId t work) q"

section \<open>Properties\<close>

text \<open>The fields whose terms look at their operator.\<close>

definition compared_fields :: "string list" where
  "compared_fields = [''priority'', ''severity'', ''updated'']"

lemma uncompared_fields:
  assumes "f \<in> set IQL_FIELDS" and "f \<notin> set compared_fields"
  shows "f \<in> set [''project'', ''team'', ''state'', ''state-type'', ''kind'', ''commitment'', ''assignee'', ''label'', ''link'', ''has'']"
  using assms by (auto simp: IQL_FIELDS_def compared_fields_def)

text \<open>The parts of a term that do not depend on its operator.\<close>

lemma term_parts [simp]:
  "trimmed_values (t\<lparr>tOp := oper\<rparr>) = trimmed_values t"
  "link_parts (t\<lparr>tOp := oper\<rparr>) = link_parts t"
  "link_clause (t\<lparr>tOp := oper\<rparr>) = link_clause t"
  by (simp_all add: trimmed_values_def link_parts_def link_clause_def)

lemma compile_ignores_op:
  assumes "tField t = Some f" and "f \<in> set IQL_FIELDS" and "f \<notin> set compared_fields"
  shows "compileTerm now viewerId (t\<lparr>tOp := oper\<rparr>) = compileTerm now viewerId t"
proof -
  from assms(3) have "f \<noteq> ''priority''" "f \<noteq> ''severity''" "f \<noteq> ''updated''" by (auto simp: compared_fields_def)
  with assms(1) show ?thesis unfolding compileTerm_def Let_def by (simp cong: if_cong split: option.split list.split prod.split)
qed

lemma match_ignores_op:
  assumes "tField t = Some f" and "f \<in> set IQL_FIELDS" and "f \<notin> set compared_fields"
  shows "matchTerm now viewerId (t\<lparr>tOp := oper\<rparr>) work = matchTerm now viewerId t work"
proof -
  from assms(3) have "f \<noteq> ''priority''" "f \<noteq> ''severity''" "f \<noteq> ''updated''" by (auto simp: compared_fields_def)
  moreover from uncompared_fields [OF assms(2,3)] have "\<not> js_starts_with f ''attr.''" by auto
  ultimately show ?thesis using assms(1) unfolding matchTerm_def matchPositive_def Let_def by (simp cong: if_cong split: option.split list.split prod.split)
qed

lemma inequality_term_ok:
  assumes "f \<in> set IQL_FIELDS" and "f \<notin> set compared_fields" and "v \<noteq> []"
  shows "iql_term_ok i \<lparr>tField = Some f, tOp = OpNeq, tValue = v, tNegated = n, tIndex = i\<rparr>"
  using uncompared_fields [OF assms(1,2)] assms(1,3)
  by (auto simp: iql_term_ok_def field_term_ok_def known_field_def op_value_ok_def)

text \<open>
  An equality on the time of the last update is no condition in the database, and in the predicate it
  asks for one exact millisecond.
\<close>

lemma updated_equality_diverges:
  assumes "tField t = Some ''updated''" and "tOp t = OpEq" and "\<not> tNegated t"
    and "trimmed_values t = [v]" and "v \<noteq> []" and "durationToMs v t = Inr ms"
  shows "compileTerm now viewerId t = Inr (JObj [])"
    and "matchTerm now viewerId t work = Inr (dwUpdatedAt work = now - ms)"
  using assms
  by (simp_all add: compileTerm_def matchTerm_def matchPositive_def comparison_clause_def Let_def)

text \<open>
  C40: on a field other than priority, severity, updated and the attributes the operator is not looked at, by
  either reading: \<^verbatim>\<open>kind:!=EPIC\<close>, which the grammar allows and the parser accepts, selects exactly
  what \<^verbatim>\<open>kind:EPIC\<close> selects, in the database and in the predicate of a webhook. Only a leading
  minus negates there.
\<close>

theorem inequality_read_as_equality:
  assumes "f \<in> set IQL_FIELDS" and "f \<notin> set compared_fields" and "plain_text v"
    and "t = \<lparr>tField = Some f, tOp = OpNeq, tValue = v, tNegated = n, tIndex = 1\<rparr>"
  shows "parseIql (describe_term t) = Inr [t] \<and>
    compileTerm now viewerId t = compileTerm now viewerId (t\<lparr>tOp := OpEq\<rparr>) \<and>
    matchTerm now viewerId t work = matchTerm now viewerId (t\<lparr>tOp := OpEq\<rparr>) work"
proof -
  from assms(3) have "v \<noteq> []" by (simp add: plain_text_def)
  with assms(1,2,4) have ok: "iql_term_ok 1 t" using inequality_term_ok by blast
  have "plain_text (describe_term t)" using describe_plain [OF ok] assms(3,4) by simp
  then have "tokenize (describe_term t) = Inr [describe_term t]"
    using tokenize_join [of "[describe_term t]"] by (simp add: tokenize_def)
  with parse_described [OF ok] have "parseIql (describe_term t) = Inr [t]"
    by (simp add: parseIql_def parse_tokens_def)
  moreover from assms(4) have "tField t = Some f" by simp
  ultimately show ?thesis using compile_ignores_op match_ignores_op assms(1,2) by simp
qed

definition not_epic :: iql_term where
  "not_epic = \<lparr>tField = Some ''kind'', tOp = OpNeq, tValue = ''epic'', tNegated = False, tIndex = 1\<rparr>"

definition epic_work :: database_work where
  "epic_work = \<lparr>dwTitle = ''Launch'', dwDescription = None, dwIdentifier = ''INV-1'', dwRepository = None,
     dwState = None, dwKind = ''EPIC'', dwCommitment = ''COMMITTED'', dwAssigneeId = None, dwAssignee = None,
     dwLabels = [], dwPriority = 0, dwSeverity = None, dwUpdatedAt = 0, dwContract = [], dwAttributes = JNull\<rparr>"

theorem inequality_read_as_equality_witness:
  "parseIql ''kind:!=epic'' = Inr [not_epic] \<and>
   matchTerm 0 None not_epic epic_work = Inr True \<and>
   compileTerm 0 None not_epic = Inr (clause1 ''kind'' (clause1 ''in'' (text_array [''EPIC''])))"
proof -
  have hyps: "''kind'' \<in> set IQL_FIELDS" "''kind'' \<notin> set compared_fields" "plain_text ''epic''" by code_simp+
  note ineq = inequality_read_as_equality [OF hyps not_epic_def]
  have "describe_term not_epic = ''kind:!=epic''" by code_simp
  moreover have "matchTerm 0 None (not_epic\<lparr>tOp := OpEq\<rparr>) epic_work = Inr True" by code_simp
  moreover have "compileTerm 0 None (not_epic\<lparr>tOp := OpEq\<rparr>)
      = Inr (clause1 ''kind'' (clause1 ''in'' (text_array [''EPIC''])))" by code_simp
  ultimately show ?thesis using ineq [of 0 None epic_work] by simp
qed

end
