(* ===== verification/Github_Machine.thy ===== *)
theory Github_Machine
  imports Work_Data
begin

text \<open>
  What GitHub events may do to work (\<^verbatim>\<open>packages/server/src/github-webhook-state-machine.ts\<close>, with the
  service actor of \<^verbatim>\<open>service-actors.ts\<close> that signs the moves and \<^verbatim>\<open>isIncidentWork\<close> of
  \<^verbatim>\<open>labels.ts\<close>). One channel moves work forward only, the other takes it back from review when the
  pull request that brought it there was closed. The two columns of a work item that this machine reads and writes
  are functions of its identifier. A rejected event says why; inside the texts times are
  numbers and the arrow is the word to. The identifier of a row is its primary key, so a conditional update of one
  item is a test of its row and an update by identifier. The catch of
  a concurrent insert into the event log cannot occur in a serialised transaction.
\<close>

section \<open>Data\<close>

record event_log_row =
  elIssueId :: ident
  elSourceKey :: string
  elType :: string

record hook_db = claim_db +
  stateSourcePrId :: "ident \<Rightarrow> string option"
  lastAppliedEventTime :: "ident \<Rightarrow> instant option"
  eventLog :: "event_log_row list"

datatype hook_error = ServiceActorDeactivated string | MissingRow ident

record state_transition_result =
  trApplied :: bool
  trDuplicate :: bool
  trIncidentUnresolved :: bool
  trReason :: string
  trIssueId :: ident
  trPrevious :: "state_type option"
  trNew :: "state_type option"

record monotonic_forward_input =
  mfIssueId :: ident
  mfTeamId :: ident
  mfTarget :: state_type
  mfSourceKey :: string
  mfEventType :: string
  mfSourcePrId :: "string option"
  mfTimestamp :: "instant option"

record provenance_rollback_input =
  prIssueId :: ident
  prTeamId :: ident
  prPrId :: string
  prSourceKey :: string
  prEventType :: string
  prTimestamp :: "instant option"

fun LOWER_RANK_TYPES_OF :: "state_type \<Rightarrow> state_type list" where
  "LOWER_RANK_TYPES_OF BACKLOG = []"
| "LOWER_RANK_TYPES_OF UNSTARTED = [BACKLOG]"
| "LOWER_RANK_TYPES_OF STARTED = [BACKLOG, UNSTARTED]"
| "LOWER_RANK_TYPES_OF REVIEW = [BACKLOG, UNSTARTED, STARTED]"
| "LOWER_RANK_TYPES_OF COMPLETED = [BACKLOG, UNSTARTED, STARTED, REVIEW]"
| "LOWER_RANK_TYPES_OF CANCELED = [BACKLOG, UNSTARTED, STARTED, REVIEW]"

fun STATE_TYPE_RANK :: "state_type \<Rightarrow> nat" where
  "STATE_TYPE_RANK BACKLOG = 0"
| "STATE_TYPE_RANK UNSTARTED = 1"
| "STATE_TYPE_RANK STARTED = 2"
| "STATE_TYPE_RANK REVIEW = 3"
| "STATE_TYPE_RANK COMPLETED = 4"
| "STATE_TYPE_RANK CANCELED = 5"

fun state_type_name :: "state_type \<Rightarrow> string" where
  "state_type_name BACKLOG = ''BACKLOG''"
| "state_type_name UNSTARTED = ''UNSTARTED''"
| "state_type_name STARTED = ''STARTED''"
| "state_type_name REVIEW = ''REVIEW''"
| "state_type_name COMPLETED = ''COMPLETED''"
| "state_type_name CANCELED = ''CANCELED''"

definition time_text :: "instant \<Rightarrow> string" where
  "time_text t = js_num_text (of_int t)"

section \<open>The actor that signs, and the incident gate\<close>

definition GITHUB_WEBHOOK_EMAIL :: string where
  "GITHUB_WEBHOOK_EMAIL = ''github-webhook@services.involute.local''"

definition first_admin :: "hook_db \<Rightarrow> ident option" where
  "first_admin db =
     (case sort_key (\<lambda>u. case email u of Some e \<Rightarrow> e | None \<Rightarrow> '''')
             (filter (\<lambda>u. userKind u = HUMAN \<and> deactivatedAt u = None \<and> globalRole u = ADMIN) (users db)) of
        [] \<Rightarrow> None | u # _ \<Rightarrow> Some (userId u))"

text \<open>\<^verbatim>\<open>ensureServiceActor(tx, GITHUB_WEBHOOK_ACTOR)\<close>: find or create; a deactivated actor cannot act.\<close>

definition ensureServiceActor :: "ident \<Rightarrow> hook_db \<Rightarrow> (hook_error, ident \<times> hook_db) result" where
  "ensureServiceActor fresh db =
     (case find_row email (Some GITHUB_WEBHOOK_EMAIL) (users db) of
        Some u \<Rightarrow>
          if deactivatedAt u \<noteq> None then Inl (ServiceActorDeactivated ''github-webhook'')
          else Inr (userId u, db\<lparr>users := update_rows (\<lambda>x. userId x = userId u) (\<lambda>x. x\<lparr>userName := ''GitHub Webhook''\<rparr>) (users db)\<rparr>)
      | None \<Rightarrow>
          Inr (fresh, db\<lparr>users := users db @ [\<lparr>userId = fresh, userKind = SERVICE, globalRole = USER,
             handle = Some ''github-webhook'', userName = ''GitHub Webhook'', email = Some GITHUB_WEBHOOK_EMAIL,
             deactivatedAt = None, ownerId = first_admin db, successorActorId = None\<rparr>]\<rparr>))"

definition hook_columns_of :: "hook_db \<Rightarrow> ident \<Rightarrow> work_columns" where
  "hook_columns_of db i =
     (case find_row wcWorkId i (columnRows db) of Some c \<Rightarrow> c | None \<Rightarrow> no_columns i)"

definition is_incident_work :: "hook_db \<Rightarrow> ident \<Rightarrow> bool" where
  "is_incident_work db i \<longleftrightarrow> (\<exists>l \<in> set (labelNames (hook_columns_of db i)). js_lower l = ''incident'')"

section \<open>The channels\<close>

definition recordEventLog :: "ident \<Rightarrow> string \<Rightarrow> string \<Rightarrow> hook_db \<Rightarrow> bool \<times> hook_db" where
  "recordEventLog i key ty db =
     (if \<exists>e \<in> set (eventLog db). elIssueId e = i \<and> elSourceKey e = key then (False, db)
      else (True, db\<lparr>eventLog := eventLog db @ [\<lparr>elIssueId = i, elSourceKey = key, elType = ty\<rparr>]\<rparr>))"

definition auditTransition ::
  "ident \<Rightarrow> issue option \<Rightarrow> string \<Rightarrow> ident \<Rightarrow> hook_db \<Rightarrow> (hook_error, hook_db) result" where
  "auditTransition fresh before ty i db =
     (case find_issue db i of
        None \<Rightarrow> Inl (MissingRow i)
      | Some after \<Rightarrow>
          bind_result (ensureServiceActor fresh db) (\<lambda>(a, db1).
            Inr (recordWorkAudit (Some \<lparr>actorId = Some a, actorKind = SERVICE, reason = Some ty,
                                       surface = Some ''github-webhook''\<rparr>) before after i db1)))"

definition hook_first_state :: "hook_db \<Rightarrow> ident \<Rightarrow> state_type \<Rightarrow> workflow_state option" where
  "hook_first_state db team t =
     (case sort_key position (filter (\<lambda>s. wsTeamId s = team \<and> wsType s = t) (states db)) of
        [] \<Rightarrow> None | s # _ \<Rightarrow> Some s)"

definition team_state_ids :: "hook_db \<Rightarrow> ident \<Rightarrow> state_type list \<Rightarrow> ident list" where
  "team_state_ids db team types = map wsId (filter (\<lambda>s. wsTeamId s = team \<and> wsType s \<in> set types) (states db))"

definition not_older :: "instant option \<Rightarrow> instant \<Rightarrow> bool" where
  "not_older applied date \<longleftrightarrow> (case applied of None \<Rightarrow> True | Some t \<Rightarrow> t \<le> date)"

text \<open>A result that changed nothing.\<close>

definition rejected :: "ident \<Rightarrow> string \<Rightarrow> state_type option \<Rightarrow> state_transition_result" where
  "rejected i why before = \<lparr>trApplied = False, trDuplicate = False, trIncidentUnresolved = False, trReason = why,
     trIssueId = i, trPrevious = before, trNew = None\<rparr>"

definition current_type :: "hook_db \<Rightarrow> issue \<Rightarrow> (hook_error, state_type) result" where
  "current_type db r =
     (case find_state db (stateId r) of None \<Rightarrow> Inl (MissingRow (stateId r)) | Some s \<Rightarrow> Inr (wsType s))"

text \<open>Why the update of the forward channel matched no row.\<close>

definition explain_forward ::
  "monotonic_forward_input \<Rightarrow> bool \<Rightarrow> instant \<Rightarrow> bool \<Rightarrow> hook_db \<Rightarrow> (hook_error, state_transition_result) result" where
  "explain_forward inp untimed eventDate gated db =
     (let i = mfIssueId inp; target = mfTarget inp in
      case find_issue db i of
        None \<Rightarrow> Inr (rejected i (''Issue not found: '' @ i) None)
      | Some r \<Rightarrow> bind_result (current_type db r) (\<lambda>ty.
          if is_terminal_type ty
          then Inr (rejected i (''Issue is in absorbing terminal state: '' @ state_type_name ty) (Some ty))
          else if \<not> untimed \<and> \<not> not_older (lastAppliedEventTime db i) eventDate
          then Inr (rejected i (''Out-of-order event: incoming time '' @ time_text eventDate
                 @ '' is older than lastAppliedEventTime '' @ time_text (the (lastAppliedEventTime db i))) (Some ty))
          else if gated \<and> resolvedAt (hook_columns_of db i) = None \<and> ty \<in> set (LOWER_RANK_TYPES_OF target)
          then Inr ((rejected i (''Incident has no resolvedAt: stays '' @ state_type_name ty
                 @ '' until it is resolved (INV-1125)'') (Some ty))\<lparr>trIncidentUnresolved := True\<rparr>)
          else Inr (rejected i (''Current state '' @ state_type_name ty @ '' (rank '' @ nat_text (STATE_TYPE_RANK ty)
                 @ '') >= target '' @ state_type_name target @ '' (rank '' @ nat_text (STATE_TYPE_RANK target) @ '')'') (Some ty))))"

definition forward_cas :: "monotonic_forward_input \<Rightarrow> bool \<Rightarrow> instant \<Rightarrow> bool \<Rightarrow> hook_db \<Rightarrow> issue \<Rightarrow> bool" where
  "forward_cas inp untimed eventDate gated db r \<longleftrightarrow>
     issueId r = mfIssueId inp \<and> teamId r = mfTeamId inp \<and>
     (gated \<longrightarrow> resolvedAt (hook_columns_of db (issueId r)) \<noteq> None) \<and>
     stateId r \<in> set (team_state_ids db (mfTeamId inp) (LOWER_RANK_TYPES_OF (mfTarget inp))) \<and>
     (untimed \<or> not_older (lastAppliedEventTime db (issueId r)) eventDate)"

text \<open>The update of both channels: a new state, the pull request it came from and the time of the event.\<close>

definition move_issue :: "ident \<Rightarrow> ident \<Rightarrow> string option \<Rightarrow> instant option \<Rightarrow> hook_db \<Rightarrow> hook_db" where
  "move_issue i st source applied db =
     (update_issue i (\<lambda>r. r\<lparr>stateId := st\<rparr>) db)
       \<lparr>stateSourcePrId := (stateSourcePrId db)(i := source),
        lastAppliedEventTime := (case applied of Some t \<Rightarrow> (lastAppliedEventTime db)(i := Some t) | None \<Rightarrow> lastAppliedEventTime db)\<rparr>"

definition duplicate_event :: "ident \<Rightarrow> string \<Rightarrow> state_transition_result" where
  "duplicate_event i key = (rejected i (''Event already processed: '' @ key) None)\<lparr>trDuplicate := True\<rparr>"

definition applyMonotonicForward ::
  "ident \<Rightarrow> instant \<Rightarrow> monotonic_forward_input \<Rightarrow> hook_db \<Rightarrow> (hook_error, state_transition_result \<times> hook_db) result" where
  "applyMonotonicForward fresh now inp db0 =
     (let i = mfIssueId inp; (isNew, db) = recordEventLog i (mfSourceKey inp) (mfEventType inp) db0 in
      if \<not> isNew then Inr (duplicate_event i (mfSourceKey inp), db)
      else case hook_first_state db (mfTeamId inp) (mfTarget inp) of
        None \<Rightarrow> Inr (rejected i (''No workflow state of type '' @ state_type_name (mfTarget inp)
                  @ '' found for team '' @ mfTeamId inp) None, db)
      | Some target \<Rightarrow>
          (let untimed = (mfEventType inp = ''create.branch'' \<and> mfTimestamp inp = None);
               eventDate = (case mfTimestamp inp of Some t \<Rightarrow> t | None \<Rightarrow> now);
               before = find_issue db i;
               gated = (mfTarget inp = REVIEW \<and> is_incident_work db i)
           in if count_rows (forward_cas inp untimed eventDate gated db) (issues db) > 0 then
                bind_result (auditTransition fresh before (mfEventType inp) i
                  (move_issue i (wsId target) (if mfTarget inp = REVIEW then mfSourcePrId inp else None)
                     (if untimed then None else Some eventDate) db)) (\<lambda>db'.
                  Inr (\<lparr>trApplied = True, trDuplicate = False, trIncidentUnresolved = False,
                        trReason = ''Atomic CAS transitioned to '' @ state_type_name (mfTarget inp),
                        trIssueId = i, trPrevious = None, trNew = Some (mfTarget inp)\<rparr>, db'))
              else bind_result (explain_forward inp untimed eventDate gated db) (\<lambda>res. Inr (res, db))))"

definition explain_rollback ::
  "provenance_rollback_input \<Rightarrow> instant \<Rightarrow> hook_db \<Rightarrow> (hook_error, state_transition_result) result" where
  "explain_rollback inp eventDate db =
     (let i = prIssueId inp in
      case find_issue db i of
        None \<Rightarrow> Inr (rejected i (''Issue not found: '' @ i) None)
      | Some r \<Rightarrow> bind_result (current_type db r) (\<lambda>ty.
          if ty \<noteq> REVIEW
          then Inr (rejected i (''Provenance rollback requires current state REVIEW, got '' @ state_type_name ty) (Some ty))
          else if stateSourcePrId db i \<noteq> Some (prPrId inp)
          then Inr (rejected i (''Provenance mismatch: stateSourcePrId='' @
                 (case stateSourcePrId db i of Some p \<Rightarrow> p | None \<Rightarrow> ''null'') @ '' != prId='' @ prPrId inp) (Some ty))
          else if \<not> not_older (lastAppliedEventTime db i) eventDate
          then Inr (rejected i (''Out-of-order event: incoming time '' @ time_text eventDate
                 @ '' is older than lastAppliedEventTime '' @ time_text (the (lastAppliedEventTime db i))) (Some ty))
          else Inr (rejected i ''Provenance rollback condition not met'' (Some ty))))"

definition rollback_cas :: "provenance_rollback_input \<Rightarrow> instant \<Rightarrow> hook_db \<Rightarrow> issue \<Rightarrow> bool" where
  "rollback_cas inp eventDate db r \<longleftrightarrow>
     issueId r = prIssueId inp \<and> teamId r = prTeamId inp \<and>
     stateId r \<in> set (team_state_ids db (prTeamId inp) [REVIEW]) \<and>
     stateSourcePrId db (issueId r) = Some (prPrId inp) \<and>
     not_older (lastAppliedEventTime db (issueId r)) eventDate"

definition applyProvenanceRollback ::
  "ident \<Rightarrow> instant \<Rightarrow> provenance_rollback_input \<Rightarrow> hook_db \<Rightarrow> (hook_error, state_transition_result \<times> hook_db) result" where
  "applyProvenanceRollback fresh now inp db0 =
     (let i = prIssueId inp; (isNew, db) = recordEventLog i (prSourceKey inp) (prEventType inp) db0 in
      if \<not> isNew then Inr (duplicate_event i (prSourceKey inp), db)
      else case hook_first_state db (prTeamId inp) STARTED of
        None \<Rightarrow> Inr (rejected i (''No STARTED workflow state found for team '' @ prTeamId inp) None, db)
      | Some started \<Rightarrow>
          (let eventDate = (case prTimestamp inp of Some t \<Rightarrow> t | None \<Rightarrow> now);
               before = find_issue db i
           in if count_rows (rollback_cas inp eventDate db) (issues db) > 0 then
                bind_result (auditTransition fresh before (prEventType inp) i
                  (move_issue i (wsId started) None (Some eventDate) db)) (\<lambda>db'.
                  Inr (\<lparr>trApplied = True, trDuplicate = False, trIncidentUnresolved = False,
                        trReason = ''Atomic CAS provenance rollback: REVIEW to STARTED (source PR '' @ prPrId inp @ '')'',
                        trIssueId = i, trPrevious = Some REVIEW, trNew = Some STARTED\<rparr>, db'))
              else bind_result (explain_rollback inp eventDate db) (\<lambda>res. Inr (res, db))))"

section \<open>Lemmas\<close>

definition hook_ok :: "hook_db \<Rightarrow> bool" where
  "hook_ok db \<longleftrightarrow> unique_key issueId (issues db) \<and> unique_key wsId (states db) \<and>
     unique_key (\<lambda>e. (elIssueId e, elSourceKey e)) (eventLog db)"

definition type_of_issue :: "hook_db \<Rightarrow> ident \<Rightarrow> state_type option" where
  "type_of_issue db i = Option.bind (find_issue db i) (\<lambda>r. map_option wsType (find_state db (stateId r)))"

definition time_le :: "instant option \<Rightarrow> instant option \<Rightarrow> bool" where
  "time_le a b \<longleftrightarrow> (case a of None \<Rightarrow> True | Some t \<Rightarrow> (case b of None \<Rightarrow> False | Some u \<Rightarrow> t \<le> u))"

text \<open>
  What no sequence of events undoes: a terminal item keeps its state, the time of the last applied event never
  falls, and logged events stay logged.
\<close>

definition hook_le :: "hook_db \<Rightarrow> hook_db \<Rightarrow> bool" where
  "hook_le db db' \<longleftrightarrow> states db' = states db \<and> set (eventLog db) \<subseteq> set (eventLog db') \<and>
     (\<forall>i. time_le (lastAppliedEventTime db i) (lastAppliedEventTime db' i)) \<and>
     (\<forall>i ty. type_of_issue db i = Some ty \<and> is_terminal_type ty \<longrightarrow>
        map_option stateId (find_issue db' i) = map_option stateId (find_issue db i))"

inductive hook_step :: "hook_db \<Rightarrow> hook_db \<Rightarrow> bool" where
  forward: "applyMonotonicForward fresh now inp db = Inr (res, db') \<Longrightarrow> hook_step db db'"
| rollback: "applyProvenanceRollback fresh now inp db = Inr (res, db') \<Longrightarrow> hook_step db db'"

lemma state_kept:
  fixes db :: hook_db
  assumes "\<And>r. issueId (f r) = issueId r" and "\<And>r. stateId (f r) = stateId r"
  shows "map_option stateId (find_issue (update_issue w f db) j) = map_option stateId (find_issue db j)"
  using assms by (simp add: find_issue_update option.map_comp comp_def if_distrib cong: if_cong)

lemma recordReopen_hook [simp]:
  fixes db :: hook_db
  shows "eventLog (recordReopenIfAny w f t db) = eventLog db"
    and "stateSourcePrId (recordReopenIfAny w f t db) = stateSourcePrId db"
    and "lastAppliedEventTime (recordReopenIfAny w f t db) = lastAppliedEventTime db"
    and "states (recordReopenIfAny w f t db) = states db"
    and "audits (recordReopenIfAny w f t db) = audits db"
    and "unique_key issueId (issues (recordReopenIfAny w f t db)) = unique_key issueId (issues db)"
  by (auto simp: recordReopenIfAny_def update_issue_def unique_key_update split: option.splits)

lemma reopen_state [simp]:
  fixes db :: hook_db
  shows "map_option stateId (find_issue (recordReopenIfAny w f t db) j) = map_option stateId (find_issue db j)"
proof -
  have rows: "find_issue (db\<lparr>reopens := rs\<rparr>) j = find_issue db j" for rs by (simp add: find_issue_def)
  show ?thesis by (auto simp: recordReopenIfAny_def state_kept rows split: option.splits)
qed

text \<open>An audit leaves the machine's columns and every state as they are and adds one row.\<close>

lemma recordWorkAudit_hook:
  fixes db :: hook_db
  shows "eventLog (recordWorkAudit act b w i db) = eventLog db"
    and "stateSourcePrId (recordWorkAudit act b w i db) = stateSourcePrId db"
    and "lastAppliedEventTime (recordWorkAudit act b w i db) = lastAppliedEventTime db"
    and "states (recordWorkAudit act b w i db) = states db"
    and "unique_key issueId (issues (recordWorkAudit act b w i db)) = unique_key issueId (issues db)"
    and "map_option stateId (find_issue (recordWorkAudit act b w i db) j) = map_option stateId (find_issue db j)"
    and "\<exists>a. audits (recordWorkAudit act b w i db) = audits db @ [a] \<and> auditWorkId a = i \<and> auditBefore a = b \<and> auditAfter a = w"
proof -
  have rows: "find_issue (db\<lparr>audits := rs\<rparr>) j = find_issue db j" for rs by (simp add: find_issue_def)
  show "map_option stateId (find_issue (recordWorkAudit act b w i db) j) = map_option stateId (find_issue db j)"
    by (simp add: recordWorkAudit_def Let_def rows split: option.splits)
qed (simp_all add: recordWorkAudit_def Let_def split: option.splits)

lemma ensureServiceActor_Inr:
  "ensureServiceActor fresh db = Inr (a, db') \<Longrightarrow> \<exists>us. db' = db\<lparr>users := us\<rparr>"
  by (auto simp: ensureServiceActor_def split: option.splits if_splits)

lemma auditTransition_Inr:
  assumes "auditTransition fresh b ty i db = Inr db'"
  shows "eventLog db' = eventLog db \<and> states db' = states db \<and> lastAppliedEventTime db' = lastAppliedEventTime db \<and>
    unique_key issueId (issues db') = unique_key issueId (issues db) \<and>
    (\<forall>j. map_option stateId (find_issue db' j) = map_option stateId (find_issue db j)) \<and>
    (\<exists>a w. find_issue db i = Some w \<and> audits db' = audits db @ [a] \<and> auditWorkId a = i \<and> auditBefore a = b \<and> auditAfter a = w)"
proof -
  from assms obtain w a us act where w: "find_issue db i = Some w"
    and db': "db' = recordWorkAudit act b w i (db\<lparr>users := us\<rparr>)"
    by (auto simp: auditTransition_def dest!: ensureServiceActor_Inr split: option.splits)
  have rows: "find_issue (db\<lparr>users := us\<rparr>) j = find_issue db j" for j by (simp add: find_issue_def)
  obtain row where row: "audits db' = audits db @ [row]" "auditWorkId row = i" "auditBefore row = b" "auditAfter row = w"
    using recordWorkAudit_hook(7) [of act b w i "db\<lparr>users := us\<rparr>"] unfolding db' by auto
  have "\<exists>a w. find_issue db i = Some w \<and> audits db' = audits db @ [a] \<and> auditWorkId a = i \<and> auditBefore a = b \<and> auditAfter a = w"
    using w row by blast
  moreover have "\<forall>j. map_option stateId (find_issue db' j) = map_option stateId (find_issue db j)"
    unfolding db' by (simp add: recordWorkAudit_hook(6) rows)
  ultimately show ?thesis unfolding db' by (simp add: recordWorkAudit_hook(1-5))
qed

lemma find_issue_move:
  "find_issue (move_issue i st src applied db) j =
     map_option (\<lambda>r. if issueId r = i then r\<lparr>stateId := st\<rparr> else r) (find_issue db j)"
proof -
  have "find_issue (move_issue i st src applied db) j = find_issue (update_issue i (\<lambda>r. r\<lparr>stateId := st\<rparr>) db) j"
    by (simp add: move_issue_def find_issue_def)
  then show ?thesis by (simp add: find_issue_update)
qed

lemma move_frame [simp]:
  "eventLog (move_issue i st src applied db) = eventLog db" "states (move_issue i st src applied db) = states db"
  "audits (move_issue i st src applied db) = audits db"
  "unique_key issueId (issues (move_issue i st src applied db)) = unique_key issueId (issues db)"
  "lastAppliedEventTime (move_issue i st src applied db) j
     = (if j = i \<and> applied \<noteq> None then applied else lastAppliedEventTime db j)"
  by (auto simp: move_issue_def update_issue_def unique_key_update split: option.splits)

lemma time_le_refl [simp]: "time_le a a"
  by (simp add: time_le_def split: option.splits)

lemma time_le_trans: "time_le a b \<Longrightarrow> time_le b c \<Longrightarrow> time_le a c"
  by (auto simp: time_le_def split: option.splits)

lemma not_older_time: "not_older a t \<longleftrightarrow> time_le a (Some t)"
  by (simp add: not_older_def time_le_def split: option.splits)

lemma type_of_issue_cong:
  "map_option stateId (find_issue db' i) = map_option stateId (find_issue db i) \<Longrightarrow> states db' = states db \<Longrightarrow>
   type_of_issue db' i = type_of_issue db i"
  by (cases "find_issue db' i"; cases "find_issue db i") (auto simp: type_of_issue_def find_state_def)

lemma hook_le_refl: "hook_le db db"
  by (simp add: hook_le_def)

lemma hook_le_trans:
  assumes "hook_le a b" and "hook_le b c"
  shows "hook_le a c"
proof -
  have kept: "map_option stateId (find_issue c i) = map_option stateId (find_issue a i)"
    if "type_of_issue a i = Some ty" "is_terminal_type ty" for i ty
  proof -
    have ab: "map_option stateId (find_issue b i) = map_option stateId (find_issue a i)"
      using assms(1) that unfolding hook_le_def by blast
    then have "type_of_issue b i = Some ty"
      using type_of_issue_cong [OF ab] assms(1) that(1) unfolding hook_le_def by simp
    then have "map_option stateId (find_issue c i) = map_option stateId (find_issue b i)"
      using assms(2) that(2) unfolding hook_le_def by blast
    with ab show ?thesis by simp
  qed
  have "time_le (lastAppliedEventTime a i) (lastAppliedEventTime c i)" for i
    using assms time_le_trans unfolding hook_le_def by blast
  moreover have "states c = states a" "set (eventLog a) \<subseteq> set (eventLog c)"
    using assms unfolding hook_le_def by auto
  ultimately show ?thesis using kept unfolding hook_le_def by blast
qed

text \<open>The log entry of a new event.\<close>

definition logged :: "ident \<Rightarrow> string \<Rightarrow> string \<Rightarrow> hook_db \<Rightarrow> hook_db" where
  "logged i key ty db = db\<lparr>eventLog := eventLog db @ [\<lparr>elIssueId = i, elSourceKey = key, elType = ty\<rparr>]\<rparr>"

lemma recordEventLog_cases:
  "recordEventLog i key ty db = (True, db1) \<longleftrightarrow>
     (i, key) \<notin> (\<lambda>e. (elIssueId e, elSourceKey e)) ` set (eventLog db) \<and> db1 = logged i key ty db"
  "recordEventLog i key ty db = (False, db1) \<longleftrightarrow>
     (i, key) \<in> (\<lambda>e. (elIssueId e, elSourceKey e)) ` set (eventLog db) \<and> db1 = db"
  by (auto simp: recordEventLog_def logged_def image_iff)

lemma logged_frame [simp]:
  "issues (logged i key ty db) = issues db" "states (logged i key ty db) = states db"
  "audits (logged i key ty db) = audits db" "columnRows (logged i key ty db) = columnRows db"
  "stateSourcePrId (logged i key ty db) = stateSourcePrId db"
  "lastAppliedEventTime (logged i key ty db) = lastAppliedEventTime db"
  "find_issue (logged i key ty db) j = find_issue db j" "find_state (logged i key ty db) st = find_state db st"
  by (simp_all add: logged_def find_issue_def find_state_def)

lemma logged_ok:
  assumes "hook_ok db" and "(i, key) \<notin> (\<lambda>e. (elIssueId e, elSourceKey e)) ` set (eventLog db)"
  shows "hook_ok (logged i key ty db) \<and> hook_le db (logged i key ty db)"
  using assms by (auto simp: hook_ok_def hook_le_def logged_def find_issue_def)

lemma cas_state:
  assumes "hook_ok db" and "st \<in> set (team_state_ids db team types)"
  shows "\<exists>s. find_state db st = Some s \<and> wsType s \<in> set types"
proof -
  from assms(2) obtain s where s: "s \<in> set (states db)" "wsId s = st" "wsType s \<in> set types"
    by (auto simp: team_state_ids_def)
  with assms(1) have "find_state db st = Some s" by (simp add: find_state_def hook_ok_def find_row_unique)
  with s(3) show ?thesis by blast
qed

lemma target_state:
  assumes "hook_ok db" and "hook_first_state db team t = Some s"
  shows "find_state db (wsId s) = Some s \<and> wsType s = t"
proof -
  from assms(2) obtain xs where "sort_key position (filter (\<lambda>s. wsTeamId s = team \<and> wsType s = t) (states db)) = s # xs"
    by (auto simp: hook_first_state_def split: list.splits)
  then have "s \<in> set (sort_key position (filter (\<lambda>s. wsTeamId s = team \<and> wsType s = t) (states db)))"
    by (simp only: list.set_intros)
  then have "s \<in> set (states db)" "wsType s = t" by simp_all
  with assms(1) show ?thesis by (simp add: find_state_def hook_ok_def find_row_unique)
qed

text \<open>The moves the machine may make.\<close>

definition legal_move :: "hook_db \<Rightarrow> ident \<Rightarrow> workflow_state \<Rightarrow> workflow_state \<Rightarrow> bool" where
  "legal_move db i s s' \<longleftrightarrow>
     wsType s \<in> set (LOWER_RANK_TYPES_OF (wsType s')) \<and>
       (wsType s' = REVIEW \<and> is_incident_work db i \<longrightarrow> resolvedAt (hook_columns_of db i) \<noteq> None) \<or>
     wsType s = REVIEW \<and> wsType s' = STARTED \<and> stateSourcePrId db i \<noteq> None"

text \<open>A row whose update was made: its item, its state and the target.\<close>

definition made_move ::
  "hook_db \<Rightarrow> ident \<Rightarrow> string \<Rightarrow> string \<Rightarrow> issue \<Rightarrow> workflow_state \<Rightarrow> workflow_state \<Rightarrow> hook_db \<Rightarrow> bool" where
  "made_move db i key ty r s s' db' \<longleftrightarrow>
     find_issue db i = Some r \<and> find_state db (stateId r) = Some s \<and> find_state db (wsId s') = Some s' \<and>
     legal_move db i s s' \<and>
     (\<exists>src applied fresh. (\<forall>t. applied = Some t \<longrightarrow> time_le (lastAppliedEventTime db i) (Some t)) \<and>
        auditTransition fresh (Some r) ty i (move_issue i (wsId s') src applied (logged i key ty db)) = Inr db')"

lemma logged_reads [simp]:
  "hook_columns_of (logged i key ty db) j = hook_columns_of db j"
  "is_incident_work (logged i key ty db) j = is_incident_work db j"
  "hook_first_state (logged i key ty db) = hook_first_state db"
  "team_state_ids (logged i key ty db) = team_state_ids db"
  by (simp_all add: hook_columns_of_def is_incident_work_def hook_first_state_def team_state_ids_def fun_eq_iff)

lemma counted_issue:
  assumes "hook_ok db" and "0 < count_rows P (issues db)" and "\<And>r. P r \<Longrightarrow> issueId r = i"
  obtains r where "find_issue db i = Some r" and "P r"
proof -
  from assms(2) obtain r where r: "r \<in> set (issues db)" "P r"
    by (auto simp: count_rows_def filter_empty_conv)
  with assms(1,3) have "find_issue db i = Some r" by (auto simp: find_issue_def hook_ok_def find_row_unique)
  with r(2) show thesis by (intro that)
qed

text \<open>The cases of an event: a duplicate, an event that is only logged, a move.\<close>

definition event_effect :: "hook_db \<Rightarrow> hook_db \<Rightarrow> bool" where
  "event_effect db db' \<longleftrightarrow> db' = db \<or>
     (\<exists>i key ty. (i, key) \<notin> (\<lambda>e. (elIssueId e, elSourceKey e)) ` set (eventLog db) \<and>
        (db' = logged i key ty db \<or> (\<exists>r s s'. made_move db i key ty r s s' db')))"

lemma forward_effect:
  assumes ok: "hook_ok db" and app: "applyMonotonicForward fresh now inp db = Inr (res, db')"
  shows "event_effect db db'"
proof -
  let ?i = "mfIssueId inp" and ?key = "mfSourceKey inp" and ?ty = "mfEventType inp"
  let ?db = "logged ?i ?key ?ty db"
  let ?un = "?ty = ''create.branch'' \<and> mfTimestamp inp = None"
  let ?date = "case mfTimestamp inp of Some t \<Rightarrow> t | None \<Rightarrow> now"
  let ?gated = "mfTarget inp = REVIEW \<and> is_incident_work db ?i"
  obtain b db1 where rec: "recordEventLog ?i ?key ?ty db = (b, db1)" by (cases "recordEventLog ?i ?key ?ty db")
  show ?thesis
  proof (cases b)
    case False
    with rec have "db1 = db" by (simp add: recordEventLog_cases)
    with app False have "db' = db" unfolding applyMonotonicForward_def Let_def rec by simp
    then show ?thesis by (simp add: event_effect_def)
  next
    case True
    with rec have new: "(?i, ?key) \<notin> (\<lambda>e. (elIssueId e, elSourceKey e)) ` set (eventLog db)" and db1: "db1 = ?db"
      by (simp_all add: recordEventLog_cases)
    show ?thesis
    proof (cases "\<exists>t. hook_first_state db (mfTeamId inp) (mfTarget inp) = Some t \<and>
        count_rows (forward_cas inp ?un ?date ?gated ?db) (issues db) > 0")
      case False
      with app rec True have "db' = ?db"
        unfolding applyMonotonicForward_def Let_def rec db1 by (auto split: option.splits)
      with new show ?thesis unfolding event_effect_def by blast
    next
      case moved: True
      then obtain t where t: "hook_first_state db (mfTeamId inp) (mfTarget inp) = Some t"
        and cnt: "count_rows (forward_cas inp ?un ?date ?gated ?db) (issues db) > 0" by blast
      from counted_issue [OF ok cnt, of ?i] obtain r where r: "find_issue db ?i = Some r"
        and cas: "forward_cas inp ?un ?date ?gated ?db r" by (auto simp: forward_cas_def)
      note target = target_state [OF ok t]
      from cas have "stateId r \<in> set (team_state_ids db (mfTeamId inp) (LOWER_RANK_TYPES_OF (mfTarget inp)))"
        by (simp add: forward_cas_def)
      from cas_state [OF ok this] obtain s where s: "find_state db (stateId r) = Some s"
        "wsType s \<in> set (LOWER_RANK_TYPES_OF (mfTarget inp))" by blast
      have "legal_move db ?i s t" using s(2) target cas find_issue_id [OF r]
        by (auto simp: legal_move_def forward_cas_def)
      moreover have "auditTransition fresh (Some r) ?ty ?i (move_issue ?i (wsId t)
          (if mfTarget inp = REVIEW then mfSourcePrId inp else None) (if ?un then None else Some ?date) ?db) = Inr db'"
        using app t cnt r True unfolding applyMonotonicForward_def Let_def rec db1 by auto
      moreover have "\<forall>u. (if ?un then None else Some ?date) = Some u \<longrightarrow> time_le (lastAppliedEventTime db ?i) (Some u)"
        using cas find_issue_id [OF r] unfolding forward_cas_def not_older_time by auto
      ultimately have "made_move db ?i ?key ?ty r s t db'" using r s target unfolding made_move_def by blast
      with new show ?thesis unfolding event_effect_def by blast
    qed
  qed
qed

lemma rollback_effect:
  assumes ok: "hook_ok db" and app: "applyProvenanceRollback fresh now inp db = Inr (res, db')"
  shows "event_effect db db'"
proof -
  let ?i = "prIssueId inp" and ?key = "prSourceKey inp" and ?ty = "prEventType inp"
  let ?db = "logged ?i ?key ?ty db"
  let ?date = "case prTimestamp inp of Some t \<Rightarrow> t | None \<Rightarrow> now"
  obtain b db1 where rec: "recordEventLog ?i ?key ?ty db = (b, db1)" by (cases "recordEventLog ?i ?key ?ty db")
  show ?thesis
  proof (cases b)
    case False
    with rec have "db1 = db" by (simp add: recordEventLog_cases)
    with app False have "db' = db" unfolding applyProvenanceRollback_def Let_def rec by simp
    then show ?thesis by (simp add: event_effect_def)
  next
    case True
    with rec have new: "(?i, ?key) \<notin> (\<lambda>e. (elIssueId e, elSourceKey e)) ` set (eventLog db)" and db1: "db1 = ?db"
      by (simp_all add: recordEventLog_cases)
    show ?thesis
    proof (cases "\<exists>t. hook_first_state db (prTeamId inp) STARTED = Some t \<and>
        count_rows (rollback_cas inp ?date ?db) (issues db) > 0")
      case False
      with app rec True have "db' = ?db"
        unfolding applyProvenanceRollback_def Let_def rec db1 by (auto split: option.splits)
      with new show ?thesis unfolding event_effect_def by blast
    next
      case moved: True
      then obtain t where t: "hook_first_state db (prTeamId inp) STARTED = Some t"
        and cnt: "count_rows (rollback_cas inp ?date ?db) (issues db) > 0" by blast
      from counted_issue [OF ok cnt, of ?i] obtain r where r: "find_issue db ?i = Some r"
        and cas: "rollback_cas inp ?date ?db r" by (auto simp: rollback_cas_def)
      note target = target_state [OF ok t]
      from cas have "stateId r \<in> set (team_state_ids db (prTeamId inp) [REVIEW])" by (simp add: rollback_cas_def)
      from cas_state [OF ok this] obtain s where s: "find_state db (stateId r) = Some s" "wsType s = REVIEW" by auto
      have "legal_move db ?i s t" using s(2) target cas find_issue_id [OF r]
        by (auto simp: legal_move_def rollback_cas_def)
      moreover have "auditTransition fresh (Some r) ?ty ?i (move_issue ?i (wsId t) None (Some ?date) ?db) = Inr db'"
        using app t cnt r True unfolding applyProvenanceRollback_def Let_def rec db1 by auto
      moreover have "\<forall>u. Some ?date = Some u \<longrightarrow> time_le (lastAppliedEventTime db ?i) (Some u)"
        using cas find_issue_id [OF r] unfolding rollback_cas_def not_older_time by auto
      ultimately have "made_move db ?i ?key ?ty r s t db'" using r s target unfolding made_move_def by blast
      with new show ?thesis unfolding event_effect_def by blast
    qed
  qed
qed

lemma legal_move_open: "legal_move db i s s' \<Longrightarrow> \<not> is_terminal_type (wsType s)"
  by (cases "wsType s'") (auto simp: legal_move_def is_terminal_type_def)

lemma made_move_states:
  assumes "made_move db i key ty r s s' db'"
  shows "map_option stateId (find_issue db' j) = (if j = i then Some (wsId s') else map_option stateId (find_issue db j))"
proof -
  from assms obtain src applied fresh where r: "find_issue db i = Some r"
    and audit: "auditTransition fresh (Some r) ty i (move_issue i (wsId s') src applied (logged i key ty db)) = Inr db'"
    unfolding made_move_def by blast
  have "map_option stateId (find_issue db' j) = map_option stateId (find_issue (move_issue i (wsId s') src applied (logged i key ty db)) j)"
    using auditTransition_Inr [OF audit] by blast
  with r show ?thesis using find_issue_id by (cases "find_issue db j") (fastforce simp: find_issue_move)+
qed

lemma made_move_ok:
  assumes ok: "hook_ok db" and new: "(i, key) \<notin> (\<lambda>e. (elIssueId e, elSourceKey e)) ` set (eventLog db)"
    and move: "made_move db i key ty r s s' db'"
  shows "hook_ok db' \<and> hook_le db db'"
proof -
  from move obtain src applied fresh where r: "find_issue db i = Some r" and s: "find_state db (stateId r) = Some s"
    and legal: "legal_move db i s s'" and time: "\<forall>t. applied = Some t \<longrightarrow> time_le (lastAppliedEventTime db i) (Some t)"
    and audit: "auditTransition fresh (Some r) ty i (move_issue i (wsId s') src applied (logged i key ty db)) = Inr db'"
    unfolding made_move_def by blast
  note frame = auditTransition_Inr [OF audit]
  have "hook_ok (logged i key ty db)" using logged_ok [OF ok new] by blast
  with frame have "hook_ok db'" by (simp add: hook_ok_def)
  moreover have "set (eventLog db) \<subseteq> set (eventLog db')" "states db' = states db"
    using frame by (auto simp: logged_def)
  moreover have "time_le (lastAppliedEventTime db j) (lastAppliedEventTime db' j)" for j
    using frame time by (cases applied) auto
  moreover have "map_option stateId (find_issue db' j) = map_option stateId (find_issue db j)"
    if "type_of_issue db j = Some t" "is_terminal_type t" for j t
  proof -
    have "j \<noteq> i" using that r s legal_move_open [OF legal] by (auto simp: type_of_issue_def)
    with made_move_states [OF move] show ?thesis by simp
  qed
  ultimately show ?thesis unfolding hook_le_def by blast
qed

lemma hook_step_effect: "hook_step db db' \<Longrightarrow> hook_ok db \<Longrightarrow> event_effect db db'"
  by (erule hook_step.cases) (blast intro: forward_effect rollback_effect)+

lemma hook_step_ok:
  assumes "hook_step db db'" and "hook_ok db"
  shows "hook_ok db' \<and> hook_le db db'"
  using hook_step_effect [OF assms] logged_ok [OF assms(2)] made_move_ok [OF assms(2)] assms(2) hook_le_refl
  unfolding event_effect_def by blast

interpretation hook_runs: step_system hook_step hook_ok hook_le
  by unfold_locales (blast dest: hook_step_ok, blast dest: hook_step_ok, rule hook_le_refl, rule hook_le_trans)

lemma spent_forward:
  assumes "e \<in> set (eventLog db)" and "elIssueId e = mfIssueId inp" and "elSourceKey e = mfSourceKey inp"
  shows "applyMonotonicForward fresh now inp db = Inr (duplicate_event (mfIssueId inp) (mfSourceKey inp), db)"
proof -
  have "recordEventLog (mfIssueId inp) (mfSourceKey inp) (mfEventType inp) db = (False, db)"
    using assms by (auto simp: recordEventLog_def)
  then show ?thesis by (simp add: applyMonotonicForward_def)
qed

lemma spent_rollback:
  assumes "e \<in> set (eventLog db)" and "elIssueId e = prIssueId inp" and "elSourceKey e = prSourceKey inp"
  shows "applyProvenanceRollback fresh now inp db = Inr (duplicate_event (prIssueId inp) (prSourceKey inp), db)"
proof -
  have "recordEventLog (prIssueId inp) (prSourceKey inp) (prEventType inp) db = (False, db)"
    using assms by (auto simp: recordEventLog_def)
  then show ?thesis by (simp add: applyProvenanceRollback_def)
qed

lemma lower_rank: "s \<in> set (LOWER_RANK_TYPES_OF t) \<Longrightarrow> STATE_TYPE_RANK s < STATE_TYPE_RANK t"
  by (cases t) auto

section \<open>Properties\<close>

text \<open>
  C9: over any sequence of GitHub events, in any order and with any repetition, completed and canceled work keeps
  its state, the time of the last applied event of an item never falls, no logged event is forgotten, and an event
  delivered again, on either channel and at any later point, is a duplicate that changes nothing.
\<close>

theorem webhook_runs_absorb:
  assumes "hook_step\<^sup>*\<^sup>* db db'" and "hook_ok db"
  shows "hook_ok db' \<and> hook_le db db' \<and>
    (\<forall>e \<in> set (eventLog db). \<forall>fresh now inp. elIssueId e = mfIssueId inp \<and> elSourceKey e = mfSourceKey inp \<longrightarrow>
       applyMonotonicForward fresh now inp db' = Inr (duplicate_event (mfIssueId inp) (mfSourceKey inp), db')) \<and>
    (\<forall>e \<in> set (eventLog db). \<forall>fresh now inp. elIssueId e = prIssueId inp \<and> elSourceKey e = prSourceKey inp \<longrightarrow>
       applyProvenanceRollback fresh now inp db' = Inr (duplicate_event (prIssueId inp) (prSourceKey inp), db'))"
proof -
  have le: "hook_le db db'" by (rule hook_runs.run_mono [OF assms])
  then have "set (eventLog db) \<subseteq> set (eventLog db')" by (simp add: hook_le_def)
  with le hook_runs.run_inv [OF assms] show ?thesis
    by (intro conjI ballI allI impI) (auto intro: spent_forward spent_rollback)
qed

text \<open>
  C10: a GitHub event changes the state of work only by a legal move, and signs it. The work was not
  completed or canceled; it rises in rank, or it goes back from review to started after a pull request brought it to
  review; an incident reaches review only once it is resolved. Exactly one audit row is added, for that item, with the
  state before and after.
\<close>

theorem webhook_moves_legal:
  assumes "hook_ok db" and "hook_step db db'"
    and "find_issue db i = Some r" and "find_issue db' i = Some r'" and "stateId r' \<noteq> stateId r"
  shows "\<exists>s s' a. find_state db (stateId r) = Some s \<and> find_state db (stateId r') = Some s' \<and>
    \<not> is_terminal_type (wsType s) \<and>
    (STATE_TYPE_RANK (wsType s) < STATE_TYPE_RANK (wsType s') \<and>
       (wsType s' = REVIEW \<and> is_incident_work db i \<longrightarrow> resolvedAt (hook_columns_of db i) \<noteq> None) \<or>
     wsType s = REVIEW \<and> wsType s' = STARTED \<and> stateSourcePrId db i \<noteq> None) \<and>
    audits db' = audits db @ [a] \<and> auditWorkId a = i \<and> auditBefore a = Some r \<and> stateId (auditAfter a) = stateId r'"
proof -
  from hook_step_effect [OF assms(2,1)] assms(3-5) obtain j key ty q s s' where move: "made_move db j key ty q s s' db'"
    unfolding event_effect_def by auto
  have "i = j" using made_move_states [OF move, of i] assms(3-5) by (auto split: if_splits)
  with move assms(3) have move: "made_move db i key ty r s s' db'" by (simp add: made_move_def)
  have st: "stateId r' = wsId s'" using made_move_states [OF move, of i] assms(4) by simp
  from move obtain src applied fresh where s: "find_state db (stateId r) = Some s" "find_state db (wsId s') = Some s'"
    and legal: "legal_move db i s s'"
    and audit: "auditTransition fresh (Some r) ty i (move_issue i (wsId s') src applied (logged i key ty db)) = Inr db'"
    unfolding made_move_def by blast
  from auditTransition_Inr [OF audit] obtain a w where
    w: "find_issue (move_issue i (wsId s') src applied (logged i key ty db)) i = Some w"
    and a: "audits db' = audits db @ [a]" "auditWorkId a = i" "auditBefore a = Some r" "auditAfter a = w" by auto
  have "stateId w = wsId s'" using w assms(3) find_issue_id [OF assms(3)] by (auto simp: find_issue_move)
  with a st have "stateId (auditAfter a) = stateId r'" by simp
  moreover from legal have "STATE_TYPE_RANK (wsType s) < STATE_TYPE_RANK (wsType s') \<and>
       (wsType s' = REVIEW \<and> is_incident_work db i \<longrightarrow> resolvedAt (hook_columns_of db i) \<noteq> None) \<or>
     wsType s = REVIEW \<and> wsType s' = STARTED \<and> stateSourcePrId db i \<noteq> None"
    unfolding legal_move_def using lower_rank by blast
  ultimately show ?thesis using s legal_move_open [OF legal] a(1-3) st by auto
qed

definition hook_work :: issue where
  "hook_work = \<lparr>issueId = ''w'', issueIdentifier = ''W-1'', title = ''T'', kind = ISSUE, teamId = ''t'', stateId = ''ready'',
     assigneeId = None, parentId = None, priority = 0, commitmentStatus = COMMITTED, revision = 1, acceptance = None,
     repository = None, resolution = None, supersededById = None, reopenCount = 0\<rparr>"

definition hook_sample :: hook_db where
  "hook_sample = \<lparr>issues = [hook_work], links = [],
     states = [\<lparr>wsId = ''ready'', wsType = UNSTARTED, wsTeamId = ''t'', position = 1\<rparr>,
               \<lparr>wsId = ''review'', wsType = REVIEW, wsTeamId = ''t'', position = 3\<rparr>],
     audits = [], reopens = [], workNotes = [], teamRows = [''t''], policies = [], fieldDefinitions = [],
     agentTrusts = [], opsAudits = [], users = [], memberships = [], credentials = [], requests = [],
     comments = [], evidences = [], events = [], notifications = [], archivedTeams = [], shares = [],
     columnRows = [], packages = [], claims = [], runs = [], runEvidences = [], reviewDecisions = [],
     evaluations = [], idempotencies = [], workEvents = [], workNotices = [], schedules = [], receipts = [],
     runSequence = 1, stateSourcePrId = (\<lambda>_. None), lastAppliedEventTime = (\<lambda>_. None),
     eventLog = [\<lparr>elIssueId = ''w'', elSourceKey = ''old'', elType = ''create.branch''\<rparr>]\<rparr>"

definition pr_opened :: monotonic_forward_input where
  "pr_opened = \<lparr>mfIssueId = ''w'', mfTeamId = ''t'', mfTarget = REVIEW, mfSourceKey = ''pr9'',
     mfEventType = ''pull_request.opened'', mfSourcePrId = Some ''9'', mfTimestamp = Some 10\<rparr>"

lemma hook_sample_ok: "hook_ok hook_sample"
  by (simp add: hook_ok_def hook_sample_def)

lemma pr_opened_moves:
  "case applyMonotonicForward ''svc'' 20 pr_opened hook_sample of
     Inr (res, db') \<Rightarrow> trApplied res \<and> map_option stateId (find_issue db' ''w'') = Some ''review'' | Inl e \<Rightarrow> False"
  by code_simp

theorem webhook_runs_absorb_witness:
  "\<exists>db'. hook_step\<^sup>*\<^sup>* hook_sample db' \<and> hook_ok db' \<and> map_option stateId (find_issue db' ''w'') = Some ''review'' \<and>
     applyMonotonicForward ''svc'' 30 (pr_opened\<lparr>mfSourceKey := ''old''\<rparr>) db' = Inr (duplicate_event ''w'' ''old'', db')"
proof -
  from pr_opened_moves obtain res db' where fwd: "applyMonotonicForward ''svc'' 20 pr_opened hook_sample = Inr (res, db')"
    and st: "map_option stateId (find_issue db' ''w'') = Some ''review''" by (auto split: sum.splits)
  from fwd have run: "hook_step\<^sup>*\<^sup>* hook_sample db'" by (blast intro: hook_step.forward r_into_rtranclp)
  have "\<lparr>elIssueId = ''w'', elSourceKey = ''old'', elType = ''create.branch''\<rparr> \<in> set (eventLog hook_sample)"
    by (simp add: hook_sample_def)
  with webhook_runs_absorb [OF run hook_sample_ok] have "hook_ok db'"
    "applyMonotonicForward ''svc'' 30 (pr_opened\<lparr>mfSourceKey := ''old''\<rparr>) db' = Inr (duplicate_event ''w'' ''old'', db')"
    by (fastforce simp: pr_opened_def)+
  with run st show ?thesis by blast
qed

theorem webhook_moves_legal_witness:
  "\<exists>db' a. applyMonotonicForward ''svc'' 20 pr_opened hook_sample = Inr db' \<and> audits (snd db') = [a] \<and>
     auditBefore a = Some hook_work \<and> stateId (auditAfter a) = ''review''"
proof -
  from pr_opened_moves obtain res db' r' where fwd: "applyMonotonicForward ''svc'' 20 pr_opened hook_sample = Inr (res, db')"
    and r': "find_issue db' ''w'' = Some r'" "stateId r' = ''review''" by (auto split: sum.splits)
  have step: "hook_step hook_sample db'" using fwd by (rule hook_step.forward)
  have r: "find_issue hook_sample ''w'' = Some hook_work" "audits hook_sample = []"
    by (simp_all add: hook_sample_def hook_work_def find_issue_def find_row_def)
  have "stateId r' \<noteq> stateId hook_work" using r'(2) by (simp add: hook_work_def)
  from webhook_moves_legal [OF hook_sample_ok step r(1) r'(1) this] r(2) r'(2) fwd show ?thesis by auto
qed

end
