(* ===== verification/Spec2Isabelle.thy ===== *)
theory Spec2Isabelle
  imports Rate_Limit Work_Graph Autonomy_Store Agent_Requests Request_Handoff Mentions Cron Delivery_Policy
    Run_Completion Lease_Refinement Work_Schedule Iql_Filter Github_Machine
begin

text \<open>
  Verification of the Involute work-graph kernel.

  Involute is a tracker in which people and agents share a graph of work. People commit work and accept
  results; agents claim committed work under a lease, report runs on it, attach evidence and answer requests.
  Policies say which gates an agent may pass by itself. The server is TypeScript over a relational
  database (\<^verbatim>\<open>packages/server/src\<close>), with a query language shared with its clients
  (\<^verbatim>\<open>packages/shared/src\<close>). This development models the services that decide, not the pages,
  transports and integrations around them.

  \<^bold>\<open>Conventions.\<close> A database is a record of tables, each the list of its rows in the order of
  creation; \<open>graph_db\<close>, \<open>policy_db\<close>, \<open>request_db\<close> and \<open>claim_db\<close> extend one another. An operation is a function
  from a database and its input to an error or a result with the next database: one serialised
  transaction. Every throw is an \<open>Inl\<close>; messages are the names of the constants of \<^verbatim>\<open>errors.ts\<close> or the
  literal text. Row identifiers, tokens and the current time are arguments. SHA-256 and the token hash are
  function arguments; properties that need it assume that the hash is injective. The wall clock of a zone
  (\<^verbatim>\<open>Intl.DateTimeFormat\<close>) is an argument, assumed only to show minutes up to 59. Text is ASCII and
  numbers are exact rationals; what rounding could change (the waiting time the rate limiter announces) is not claimed.

  \<^bold>\<open>Theories and sources.\<close>
  \<^item> \<open>Prelude\<close>, \<open>Json\<close>, \<open>Json_Parse\<close>: results, JavaScript strings and numbers, tables, untyped values and
    \<^verbatim>\<open>JSON.parse\<close>. The interface \<open>step_system\<close> (steps keep an invariant and a progress relation)
    is proved once and interpreted by every stateful component below.
  \<^item> \<open>Kernel_Data\<close>, \<open>Work_Graph\<close>: rows, audits and reopens (\<^verbatim>\<open>work-service.ts\<close>, \<^verbatim>\<open>work-reopen.ts\<close>), typed
    links, cycle search and hierarchy (\<^verbatim>\<open>graph-integrity.ts\<close>, \<^verbatim>\<open>link-service.ts\<close>,
    \<^verbatim>\<open>duplicate-notes.ts\<close>). Link operations keep containment and blocking acyclic and parents
    unique (interpretation \<open>link_runs\<close>); both searches terminate and are exact; creating a link is idempotent.
  \<^item> \<open>Autonomy\<close>, \<open>Autonomy_Store\<close>: levels, presets, conditions, the resolution of scopes and the decision at a gate
    (\<^verbatim>\<open>autonomy-policy.ts\<close>), and the versioned store (\<^verbatim>\<open>autonomy-service.ts\<close>). No override opens a
    gate below its level or while paused, locked work waits, validated conditions do not throw; changes
    keep one active version and the whole history (\<open>policy_runs\<close>), and after any of them a gate opens only when the
    active rows of workspace, project or team and agent have its level.
  \<^item> \<open>Agent_Requests\<close>, \<open>Request_Handoff\<close>: requests to agents and people, their claims, answers, hand-off, expiry and
    needinfo (\<^verbatim>\<open>agent-request-state.ts\<close>, \<^verbatim>\<open>agent-request-service.ts\<close>,
    \<^verbatim>\<open>agent-request-handoff.ts\<close>, \<^verbatim>\<open>agent-request-expiry.ts\<close>, \<^verbatim>\<open>need-info-service.ts\<close>). A take is
    exclusive until its lease lapses, a superseded token never answers, terminal requests never change,
    a qualified successor gets the request and a chain asks nobody twice (\<open>row_runs\<close>, \<open>request_runs\<close>).
  \<^item> \<open>Mentions\<close>: the mention parser (\<^verbatim>\<open>mention-parser.ts\<close>): the handles of a comment are those of its lines outside
    the fences, and fences with carriage returns are not recognised.
  \<^item> \<open>Rate_Limit\<close>: the token bucket (\<^verbatim>\<open>rate-limit.ts\<close>) as an instance of the interface \<open>meter\<close>: a bound on
    grants over any window.
  \<^item> \<open>Cron\<close>, \<open>Work_Schedule\<close>: cron lines, the next matching minute and the schedules of work
    (\<^verbatim>\<open>work-schedule-cron.ts\<close>, \<^verbatim>\<open>work-schedule.ts\<close>). The search always ends and misses a match only
    where the offset of the zone changes in the middle of a wall-clock hour; a tick
    fires every due round exactly once; any sequence of operations keeps the schedule table sound
    (\<open>schedule_runs\<close>).
  \<^item> \<open>Delivery_Policy\<close>: implementation plans (\<^verbatim>\<open>delivery-policy.ts\<close>); an accepted plan is well formed and
    the dependency search accepts exactly the acyclic closed plans.
  \<^item> \<open>Work_Data\<close>, \<open>Evidence\<close>, \<open>Execution_Authority\<close>: rows of executions, grading of evidence and the auto-accept
    gate in the shadow (\<^verbatim>\<open>auto-accept-grade.ts\<close>, \<^verbatim>\<open>auto-accept-gate.ts\<close>,
    \<^verbatim>\<open>evidence-contract.ts\<close>), tokens, shares, delivery grants and readiness.
  \<^item> \<open>Work_Claims\<close>, \<open>Claim_Safety\<close>: claiming, renewing, releasing and sweeping (\<^verbatim>\<open>claim-service.ts\<close>,
    \<^verbatim>\<open>claim-release.ts\<close>, \<^verbatim>\<open>claim-expiry.ts\<close>, \<^verbatim>\<open>idempotency.ts\<close>). The lease is exclusive and
    fenced (\<open>claim_runs\<close>); a sweep ends every expired lease.
  \<^item> \<open>Work_Runs\<close>, \<open>Run_Safety\<close>, \<open>Run_Completion\<close>: reports, evidence, late runs, follow-ups and receipts
    (\<^verbatim>\<open>run-service-report.ts\<close> and the files it calls). A report is fenced by the lease it is made
    under, closed and revoked runs stay so (\<open>exec_runs\<close>), and a completed run goes to review without a
    decision.
  \<^item> \<open>Lease_Refinement\<close>: an abstract lease table whose steps are labelled with the operation, its actor, work and
    clock, and, through the interface \<open>simulation\<close>, the proof that claims, releases, sweeps, reports and evidence
    implement it label by label (\<open>lease_impl\<close>), so that a lasting lease survives what others do.
  \<^item> \<open>Github_Machine\<close>: the moves GitHub events make (\<^verbatim>\<open>github-webhook-state-machine.ts\<close>). Terminal work
    absorbs every event, event times never fall, redelivery is a no-op (\<open>hook_runs\<close>), and a change of
    state is a legal, audited move.
  \<^item> \<open>Iql\<close>, \<open>Iql_Filter\<close>: the query language (\<^verbatim>\<open>iql.ts\<close>) with the type of its queries and its round trip, and
    the two readings of a term (\<^verbatim>\<open>iql-compile.ts\<close>).

  \<^bold>\<open>Bounds and termination.\<close> Loops are structural recursion or functions with a measure. \<^verbatim>\<open>JSON.parse\<close>
  runs on fuel, twice the length of the text and two, which covers one call per character and per
  closing. The cron search is a partial function with its termination proved; an operation that calls it returns an
  option. A sweep handles \<^verbatim>\<open>SWEEP_BATCH\<close> = 100 leases, as the code does, and its property is stated for
  at most as many expired ones.

  \<^bold>\<open>Not modelled.\<close> Transports and pages (GraphQL schema, MCP tools, web application, command line, browser
  extension), authentication, visibility filters, full-text and semantic search, outgoing webhooks and mail,
  the GitHub API and its webhook intake, imports and operations: I/O or glue around libraries. Review of completed work, delivery execution,
  executors, closing and restoring of work, bugs and incidents and field definitions are services of the same
  kind as the modelled ones that this development does not cover. Concurrency inside one transaction,
  row locks and the optimistic guards that cannot fail in a serialised transaction are left out, as is the meaning
  Prisma gives a query clause.
\<close>

end
